(* ===== verification/Prelude.thy ===== *)
theory Prelude
  imports Complex_Main "HOL-Library.AList"
begin

text \<open>
  Shared vocabulary of the development: Python exceptions and results, the string methods the
  service uses, insertion-ordered dictionaries, and the dynamically typed values (\<open>Any\<close>) that
  node configurations and payloads are made of.

  Strings are lists of characters; one \<^typ>\<open>char\<close> is one code point in the range U+0000 to
  U+00FF, and whitespace and case mapping are Python's on that range.
  Dictionaries are association lists with distinct keys, in insertion order: \<open>d[k] = v\<close> replaces
  in place or appends (\<^const>\<open>AList.update\<close>), \<open>del d[k]\<close> is \<^const>\<open>AList.delete\<close>.
\<close>

named_theorems py_str "string operations of the source"
named_theorems py_dict "dictionary operations of the source"
named_theorems res_simps "the result type"

section \<open>Exceptions and results\<close>

datatype exn =
    KeyError
  | IndexError
  | TypeError
  | AttributeError
  | UnboundLocalError
  | ValueError string
  | RuntimeError string
  | NotImplementedError string
  | NodeExecutionError string string string "string list"
    \<comment> \<open>node type, node id, message, the \<open>violations\<close> detail\<close>
  | AppException string string
    \<comment> \<open>message and code of the exceptions of \<open>app/core/exceptions.py\<close>\<close>
  | ImportError string
  | HTTPException int string
    \<comment> \<open>status code and detail\<close>
  | ServiceException string int string
    \<comment> \<open>code, status code and detail of the exceptions of \<open>app/core/config/exceptions.py\<close>\<close>

type_synonym 'a res = "exn + 'a"

definition bindE :: "'e + 'a \<Rightarrow> ('a \<Rightarrow> 'e + 'b) \<Rightarrow> 'e + 'b" where
  "bindE m f = (case m of Inl e \<Rightarrow> Inl e | Inr x \<Rightarrow> f x)"

lemma bindE_simps [simp, res_simps]:
  "bindE (Inl e) f = Inl e"
  "bindE (Inr x) f = f x"
  by (simp_all add: bindE_def)

lemma bindE_eq_Inr [res_simps]: "bindE m f = Inr y \<longleftrightarrow> (\<exists>x. m = Inr x \<and> f x = Inr y)"
  by (cases m) auto

lemma bindE_eq_Inl [res_simps]:
  "bindE m f = Inl e \<longleftrightarrow> m = Inl e \<or> (\<exists>x. m = Inr x \<and> f x = Inl e)"
  by (cases m) auto

lemma bindE_assoc: "bindE (bindE m f) g = bindE m (\<lambda>x. bindE (f x) g)"
  by (cases m) auto

lemma bindE_cong [fundef_cong]:
  "m = m' \<Longrightarrow> (\<And>x. m' = Inr x \<Longrightarrow> f x = g x) \<Longrightarrow> bindE m f = bindE m' g"
  by (cases m') auto

text \<open>A list comprehension whose body may raise, evaluated from left to right.\<close>

fun mapE :: "('a \<Rightarrow> 'e + 'b) \<Rightarrow> 'a list \<Rightarrow> 'e + 'b list" where
  "mapE f [] = Inr []"
| "mapE f (x # xs) = bindE (f x) (\<lambda>y. bindE (mapE f xs) (\<lambda>ys. Inr (y # ys)))"

lemma mapE_total [res_simps]: "(\<And>x. x \<in> set xs \<Longrightarrow> f x = Inr (g x)) \<Longrightarrow> mapE f xs = Inr (map g xs)"
  by (induction xs) auto

lemma length_mapE: "mapE f xs = Inr ys \<Longrightarrow> length ys = length xs"
  by (induction xs arbitrary: ys) (auto simp: bindE_eq_Inr)

definition is_ok :: "'e + 'a \<Rightarrow> bool" where
  "is_ok m = (case m of Inl _ \<Rightarrow> False | Inr _ \<Rightarrow> True)"

lemma is_ok_simps [simp]: "is_ok (Inr x)" "\<not> is_ok (Inl e)"
  by (simp_all add: is_ok_def)

lemma is_ok_iff: "is_ok m \<longleftrightarrow> (\<exists>x. m = Inr x)"
  by (cases m) auto

section \<open>Strings\<close>

definition startswith :: "'a list \<Rightarrow> 'a list \<Rightarrow> bool" where
  "startswith s p \<longleftrightarrow> take (length p) s = p"

definition endswith :: "'a list \<Rightarrow> 'a list \<Rightarrow> bool" where
  "endswith s p \<longleftrightarrow> length p \<le> length s \<and> drop (length s - length p) s = p"

lemma startswith_iff [py_str]: "startswith s p \<longleftrightarrow> (\<exists>t. s = p @ t)"
proof
  assume "startswith s p"
  then have "s = p @ drop (length p) s"
    unfolding startswith_def by (metis append_take_drop_id)
  then show "\<exists>t. s = p @ t" by blast
qed (auto simp: startswith_def)

lemma endswith_iff [py_str]: "endswith s p \<longleftrightarrow> (\<exists>t. s = t @ p)"
proof
  assume "endswith s p"
  then have "s = take (length s - length p) s @ p"
    unfolding endswith_def by (metis append_take_drop_id)
  then show "\<exists>t. s = t @ p" by blast
qed (auto simp: endswith_def)

lemma startswith_refl [simp]: "startswith s s"
  by (simp add: startswith_def)

lemma startswith_append [simp]: "startswith (p @ t) p"
  by (simp add: startswith_def)

text \<open>\<open>p in s\<close> on strings.\<close>

fun str_in :: "'a list \<Rightarrow> 'a list \<Rightarrow> bool" where
  "str_in p [] = (p = [])"
| "str_in p (c # cs) = (startswith (c # cs) p \<or> str_in p cs)"

lemma str_in_iff [py_str]: "str_in p s \<longleftrightarrow> (\<exists>u v. s = u @ p @ v)"
proof (induction s)
  case (Cons c cs)
  show ?case
  proof
    assume "str_in p (c # cs)"
    then consider "startswith (c # cs) p" | "str_in p cs" by auto
    then show "\<exists>u v. c # cs = u @ p @ v"
    proof cases
      case 1
      then show ?thesis unfolding startswith_iff by (metis append_Nil)
    next
      case 2
      then show ?thesis using Cons.IH by (metis append_Cons)
    qed
  next
    assume "\<exists>u v. c # cs = u @ p @ v"
    then obtain u v where uv: "c # cs = u @ p @ v" by blast
    show "str_in p (c # cs)"
    proof (cases u)
      case Nil
      with uv have "startswith (c # cs) p" by simp
      then show ?thesis by simp
    next
      case (Cons d u')
      with uv have "\<exists>u v. cs = u @ p @ v" by auto
      then show ?thesis using Cons.IH by simp
    qed
  qed
qed auto

text \<open>\<open>s.split(sep)\<close> for a non-empty separator, and its failure on an empty one.\<close>

fun split_on :: "'a list \<Rightarrow> 'a list \<Rightarrow> 'a list \<Rightarrow> 'a list list" where
  "split_on sep acc [] = [acc]"
| "split_on sep acc (c # cs) =
     (if startswith (c # cs) sep then acc # split_on sep [] (drop (length sep - 1) cs)
      else split_on sep (acc @ [c]) cs)"

definition py_split :: "string \<Rightarrow> string \<Rightarrow> string list res" where
  "py_split s sep = (if sep = [] then Inl (ValueError ''empty separator'') else Inr (split_on sep [] s))"

text \<open>\<open>sep.join(xs)\<close>.\<close>

fun join :: "'a list \<Rightarrow> 'a list list \<Rightarrow> 'a list" where
  "join sep [] = []"
| "join sep [x] = x"
| "join sep (x # y # zs) = x @ sep @ join sep (y # zs)"

lemma split_on_nonempty [simp]: "split_on sep acc s \<noteq> []"
  by (induction sep acc s rule: split_on.induct) auto

lemma join_Cons: "ys \<noteq> [] \<Longrightarrow> join sep (x # ys) = x @ sep @ join sep ys"
  by (cases ys) auto

lemma startswith_drop:
  assumes "startswith (c # cs) sep" and "sep \<noteq> []"
  shows "sep @ drop (length sep - Suc 0) cs = c # cs"
proof -
  from assms obtain t where t: "c # cs = sep @ t" by (auto simp: startswith_iff)
  with assms(2) obtain d sep' where "sep = d # sep'" by (cases sep) auto
  with t show ?thesis by auto
qed

text \<open>Joining what was split gives the text back.\<close>

lemma join_split_on [py_str]: "sep \<noteq> [] \<Longrightarrow> join sep (split_on sep acc s) = acc @ s"
proof (induction sep acc s rule: split_on.induct)
  case (2 sep acc c cs)
  show ?case
  proof (cases "startswith (c # cs) sep")
    case True
    with 2 have "join sep (split_on sep [] (drop (length sep - 1) cs)) = drop (length sep - 1) cs"
      by simp
    with True show ?thesis
      by (simp add: join_Cons startswith_drop [OF True \<open>sep \<noteq> []\<close>])
  next
    case False
    with 2 show ?thesis by simp
  qed
qed auto

lemma length_split_on_le: "length (split_on sep acc s) \<le> length s + 1"
proof (induction sep acc s rule: split_on.induct)
  case (2 sep acc c cs)
  then show ?case
    by (cases "startswith (c # cs) sep") auto
qed auto

text \<open>Splitting on one character that does not occur in the pieces undoes the join.\<close>

lemma split_on_no_sep: "s \<notin> set xs \<Longrightarrow> split_on [s] acc (xs @ ys) = split_on [s] (acc @ xs) ys"
proof (induction xs arbitrary: acc)
  case (Cons x xs)
  then have "\<not> startswith (x # xs @ ys) [s]" by (auto simp: startswith_def)
  with Cons show ?case by simp
qed simp

lemma split_on_sep [simp]: "split_on [s] acc (s # ys) = acc # split_on [s] [] ys"
  by (simp add: startswith_def)

lemma split_on_join [py_str]:
  "xs \<noteq> [] \<Longrightarrow> \<forall>x\<in>set xs. s \<notin> set x \<Longrightarrow> split_on [s] [] (join [s] xs) = xs"
proof (induction "[s]" xs rule: join.induct)
  case (2 x)
  then show ?case using split_on_no_sep [of s x "[]" "[]"] by simp
next
  case (3 x y zs)
  then have "split_on [s] [] (x @ s # join [s] (y # zs)) = split_on [s] x (s # join [s] (y # zs))"
    using split_on_no_sep [of s x "[]" "s # join [s] (y # zs)"] by simp
  also have "\<dots> = x # split_on [s] [] (join [s] (y # zs))" by (rule split_on_sep)
  finally show ?case using 3 by simp
qed simp

lemma set_join_subset: "set (join sep xs) \<subseteq> set sep \<union> (\<Union>x\<in>set xs. set x)"
  by (induction sep xs rule: join.induct) auto

text \<open>Whitespace stripping.\<close>

definition is_ws :: "char \<Rightarrow> bool" where
  "is_ws c \<longleftrightarrow> (of_char c :: nat) \<in> {9, 10, 11, 12, 13, 28, 29, 30, 31, 32, 133, 160}"

definition lstrip :: "string \<Rightarrow> string" where
  "lstrip s = dropWhile is_ws s"

definition rstrip :: "string \<Rightarrow> string" where
  "rstrip s = rev (dropWhile is_ws (rev s))"

definition strip :: "string \<Rightarrow> string" where
  "strip s = rstrip (lstrip s)"

text \<open>\<open>s.lstrip(chars)\<close> and \<open>s.rstrip(chars)\<close> with an explicit character set.\<close>

definition lstrip_chars :: "string \<Rightarrow> string \<Rightarrow> string" where
  "lstrip_chars s cs = dropWhile (\<lambda>c. c \<in> set cs) s"

definition rstrip_chars :: "string \<Rightarrow> string \<Rightarrow> string" where
  "rstrip_chars s cs = rev (dropWhile (\<lambda>c. c \<in> set cs) (rev s))"

lemma dropWhile_nothing: "(xs = [] \<or> \<not> P (hd xs)) \<Longrightarrow> dropWhile P xs = xs"
  by (cases xs) auto

lemma strip_nothing [py_str]:
  "s = [] \<or> (\<not> is_ws (hd s) \<and> \<not> is_ws (last s)) \<Longrightarrow> strip s = s"
  by (auto simp: strip_def lstrip_def rstrip_def dropWhile_nothing hd_rev)

lemma rstrip_ends: "rstrip s \<noteq> [] \<Longrightarrow> \<not> is_ws (last (rstrip s))"
proof -
  assume "rstrip s \<noteq> []"
  then have "dropWhile is_ws (rev s) \<noteq> []" by (simp add: rstrip_def)
  then have "\<not> is_ws (hd (dropWhile is_ws (rev s)))" by (rule hd_dropWhile)
  with \<open>rstrip s \<noteq> []\<close> show ?thesis by (simp add: rstrip_def last_rev)
qed

lemma rstrip_prefix: "\<exists>t. s = rstrip s @ t"
proof -
  have "rev s = takeWhile is_ws (rev s) @ dropWhile is_ws (rev s)" by simp
  then have "s = rev (dropWhile is_ws (rev s)) @ rev (takeWhile is_ws (rev s))"
    by (metis rev_append rev_rev_ident)
  then show ?thesis unfolding rstrip_def by blast
qed

lemma strip_ends:
  "strip s \<noteq> [] \<Longrightarrow> \<not> is_ws (hd (strip s)) \<and> \<not> is_ws (last (strip s))"
proof -
  assume ne: "strip s \<noteq> []"
  obtain t where t: "lstrip s = strip s @ t"
    using rstrip_prefix [of "lstrip s"] by (auto simp: strip_def)
  with ne have hd: "hd (strip s) = hd (lstrip s)" and "lstrip s \<noteq> []" by auto
  then have "\<not> is_ws (hd (lstrip s))"
    unfolding lstrip_def by (metis hd_dropWhile)
  with hd show ?thesis using ne rstrip_ends [of "lstrip s"] by (simp add: strip_def)
qed

lemma strip_strip [simp]: "strip (strip s) = strip s"
  using strip_ends [of s] strip_nothing [of "strip s"] by blast

lemma set_strip_subset: "set (strip s) \<subseteq> set s"
  unfolding strip_def lstrip_def rstrip_def
  by (auto dest!: set_dropWhileD)

lemma length_strip_le: "length (strip s) \<le> length s"
  unfolding strip_def lstrip_def rstrip_def
  by (metis length_dropWhile_le length_rev order_trans)

text \<open>Case mapping.\<close>

definition lower_char :: "char \<Rightarrow> char" where
  "lower_char c = (let n = of_char c :: nat in
     if (65 \<le> n \<and> n \<le> 90) \<or> (192 \<le> n \<and> n \<le> 222 \<and> n \<noteq> 215) then char_of (n + 32) else c)"

definition lower :: "string \<Rightarrow> string" where
  "lower s = map lower_char s"

lemma length_lower [simp]: "length (lower s) = length s"
  by (simp add: lower_def)

text \<open>\<open>s[:n]\<close> and \<open>s[n:]\<close>: a negative bound counts from the end.\<close>

definition slice_to :: "'a list \<Rightarrow> int \<Rightarrow> 'a list" where
  "slice_to s n = (if 0 \<le> n then take (nat n) s else take (nat (int (length s) + n)) s)"

definition slice_from :: "'a list \<Rightarrow> int \<Rightarrow> 'a list" where
  "slice_from s n = (if 0 \<le> n then drop (nat n) s else drop (nat (int (length s) + n)) s)"

lemma length_slice_to_le: "length (slice_to s n) \<le> length s"
  by (auto simp: slice_to_def)

lemma length_slice_to_nonneg: "0 \<le> n \<Longrightarrow> int (length (slice_to s n)) \<le> n"
  by (simp add: slice_to_def)

section \<open>Dictionaries\<close>

type_synonym ('k, 'v) dict = "('k \<times> 'v) list"

abbreviation dget :: "('k, 'v) dict \<Rightarrow> 'k \<Rightarrow> 'v option" where
  "dget \<equiv> map_of"

abbreviation dset :: "('k, 'v) dict \<Rightarrow> 'k \<Rightarrow> 'v \<Rightarrow> ('k, 'v) dict" where
  "dset d k v \<equiv> AList.update k v d"

abbreviation ddel :: "('k, 'v) dict \<Rightarrow> 'k \<Rightarrow> ('k, 'v) dict" where
  "ddel d k \<equiv> AList.delete k d"

abbreviation dkeys :: "('k, 'v) dict \<Rightarrow> 'k list" where
  "dkeys d \<equiv> map fst d"

abbreviation dvalues :: "('k, 'v) dict \<Rightarrow> 'v list" where
  "dvalues d \<equiv> map snd d"

abbreviation dict_wf :: "('k, 'v) dict \<Rightarrow> bool" where
  "dict_wf d \<equiv> distinct (map fst d)"

text \<open>\<open>d[k]\<close>: a missing key raises.\<close>

definition dget_or_raise :: "('k, 'v) dict \<Rightarrow> 'k \<Rightarrow> 'v res" where
  "dget_or_raise d k = (case dget d k of None \<Rightarrow> Inl KeyError | Some v \<Rightarrow> Inr v)"

text \<open>\<open>d.get(k, default)\<close>.\<close>

definition dget_dflt :: "('k, 'v) dict \<Rightarrow> 'k \<Rightarrow> 'v \<Rightarrow> 'v" where
  "dget_dflt d k v = (case dget d k of None \<Rightarrow> v | Some x \<Rightarrow> x)"

text \<open>\<open>{**d, **e}\<close>.\<close>

definition dmerge :: "('k, 'v) dict \<Rightarrow> ('k, 'v) dict \<Rightarrow> ('k, 'v) dict" where
  "dmerge d e = fold (\<lambda>(k, v) acc. dset acc k v) e d"

text \<open>\<open>{f(x): g(x) for x in xs}\<close>: a repeated key keeps its first position and its last value.\<close>

definition dict_of :: "('k \<times> 'v) list \<Rightarrow> ('k, 'v) dict" where
  "dict_of kvs = dmerge [] kvs"

lemma dget_dset [py_dict, simp]: "dget (dset d k v) k' = (if k' = k then Some v else dget d k')"
  by (simp add: update_conv')

lemma dget_ddel [py_dict, simp]: "dget (ddel d k) k' = (if k' = k then None else dget d k')"
  by (simp add: delete_conv')

lemma dict_wf_dset [py_dict, simp]: "dict_wf d \<Longrightarrow> dict_wf (dset d k v)"
  by (rule distinct_update)

lemma dict_wf_ddel [py_dict, simp]: "dict_wf d \<Longrightarrow> dict_wf (ddel d k)"
  by (rule distinct_delete)

lemma set_dkeys_dset [py_dict, simp]: "fst ` set (dset d k v) = insert k (fst ` set d)"
  by (simp add: dom_update)

lemma dget_dmerge [py_dict]:
  "dict_wf e \<Longrightarrow> dget (dmerge d e) k = (case dget e k of None \<Rightarrow> dget d k | Some v \<Rightarrow> Some v)"
proof (induction e arbitrary: d)
  case (Cons kv e)
  obtain a b where kv: "kv = (a, b)" by fastforce
  with Cons have "dget (dmerge (dset d a b) e) k =
      (case dget e k of None \<Rightarrow> dget (dset d a b) k | Some v \<Rightarrow> Some v)" by simp
  moreover have "a \<notin> set (dkeys e)" using Cons.prems kv by simp
  then have "dget e a = None" by (simp add: map_of_eq_None_iff)
  ultimately show ?case using kv by (auto simp: dmerge_def split: option.splits)
qed (simp add: dmerge_def)

lemma dict_wf_dmerge [py_dict]: "dict_wf d \<Longrightarrow> dict_wf (dmerge d e)"
  by (induction e arbitrary: d) (auto simp: dmerge_def)

lemma dict_wf_dict_of [simp]: "dict_wf (dict_of kvs)"
  by (simp add: dict_of_def dict_wf_dmerge)

lemma set_dkeys_dmerge [py_dict]: "fst ` set (dmerge d e) = fst ` set d \<union> fst ` set e"
proof (induction e arbitrary: d)
  case (Cons kv e)
  then show ?case by (cases kv) (simp add: dmerge_def)
qed (simp add: dmerge_def)

lemma set_dkeys_dict_of [simp]: "fst ` set (dict_of kvs) = fst ` set kvs"
  using set_dkeys_dmerge [of "[]" kvs] by (simp add: dict_of_def)

text \<open>On pairwise distinct keys a comprehension keeps the list as it is.\<close>

lemma dset_append_new: "k \<notin> set (dkeys d) \<Longrightarrow> dset d k v = d @ [(k, v)]"
  by (induction d) auto

lemma dmerge_distinct:
  "distinct (dkeys d @ dkeys e) \<Longrightarrow> dmerge d e = d @ e"
proof (induction e arbitrary: d)
  case (Cons kv e)
  obtain a b where kv: "kv = (a, b)" by fastforce
  with Cons.prems have a: "a \<notin> set (dkeys d)" by auto
  have "distinct (dkeys (d @ [(a, b)]) @ dkeys e)" using Cons.prems kv by auto
  then have "dmerge (d @ [(a, b)]) e = (d @ [(a, b)]) @ e" by (rule Cons.IH)
  then show ?case using kv a by (simp add: dmerge_def dset_append_new)
qed (simp add: dmerge_def)

lemma dict_of_distinct: "distinct (map fst kvs) \<Longrightarrow> dict_of kvs = kvs"
  by (simp add: dict_of_def dmerge_distinct)

section \<open>Dynamically typed values\<close>

text \<open>
  \<open>PFloat\<close> carries the exact rational value of a finite binary64 number; infinities and NaN are
  not represented.
\<close>

datatype pyval =
    PNone
  | PBool bool
  | PInt int
  | PFloat rat
  | PStr string
  | PList "pyval list"
  | PDict "(string \<times> pyval) list"

type_synonym pydict = "(string, pyval) dict"

fun truthy :: "pyval \<Rightarrow> bool" where
  "truthy PNone = False"
| "truthy (PBool b) = b"
| "truthy (PInt i) = (i \<noteq> 0)"
| "truthy (PFloat q) = (q \<noteq> 0)"
| "truthy (PStr s) = (s \<noteq> [])"
| "truthy (PList xs) = (xs \<noteq> [])"
| "truthy (PDict d) = (d \<noteq> [])"

text \<open>\<open>a or b\<close>.\<close>

definition py_or :: "pyval \<Rightarrow> pyval \<Rightarrow> pyval" where
  "py_or a b = (if truthy a then a else b)"

text \<open>The numeric view: booleans are the integers 0 and 1.\<close>

fun num_of :: "pyval \<Rightarrow> rat option" where
  "num_of (PBool b) = Some (if b then 1 else 0)"
| "num_of (PInt i) = Some (of_int i)"
| "num_of (PFloat q) = Some q"
| "num_of _ = None"

text \<open>
  \<open>a < b\<close> and \<open>a <= b\<close> where at least one operand is a number: comparing a number with anything
  else raises.
\<close>

definition num_less :: "pyval \<Rightarrow> pyval \<Rightarrow> bool res" where
  "num_less a b = (case (num_of a, num_of b) of (Some x, Some y) \<Rightarrow> Inr (x < y) | _ \<Rightarrow> Inl TypeError)"

definition num_le :: "pyval \<Rightarrow> pyval \<Rightarrow> bool res" where
  "num_le a b = (case (num_of a, num_of b) of (Some x, Some y) \<Rightarrow> Inr (x \<le> y) | _ \<Rightarrow> Inl TypeError)"

text \<open>The chained comparison \<open>lo <= x <= hi\<close>.\<close>

definition num_between :: "int \<Rightarrow> pyval \<Rightarrow> int \<Rightarrow> bool res" where
  "num_between lo x hi = bindE (num_le (PInt lo) x)
     (\<lambda>b. if b then num_le x (PInt hi) else Inr False)"

lemma num_of_PInt_between:
  "num_between lo (PInt i) hi = Inr (lo \<le> i \<and> i \<le> hi)"
  by (simp add: num_between_def num_le_def)

lemma num_between_iff [res_simps]:
  "num_between lo x hi = Inr True \<longleftrightarrow> (\<exists>q. num_of x = Some q \<and> of_int lo \<le> q \<and> q \<le> of_int hi)"
  by (auto simp: num_between_def num_le_def bindE_def split: option.splits)

text \<open>\<open>len(x)\<close>.\<close>

fun py_len :: "pyval \<Rightarrow> int res" where
  "py_len (PStr s) = Inr (int (length s))"
| "py_len (PList xs) = Inr (int (length xs))"
| "py_len (PDict d) = Inr (int (length d))"
| "py_len _ = Inl TypeError"

text \<open>A receiver of a \<open>str\<close> method.\<close>

fun as_str :: "pyval \<Rightarrow> string res" where
  "as_str (PStr s) = Inr s"
| "as_str _ = Inl AttributeError"

text \<open>The items a \<open>for\<close> loop visits: list elements, characters of a string, keys of a dict.\<close>

fun py_iter :: "pyval \<Rightarrow> pyval list res" where
  "py_iter (PList xs) = Inr xs"
| "py_iter (PStr s) = Inr (map (\<lambda>c. PStr [c]) s)"
| "py_iter (PDict d) = Inr (map (\<lambda>kv. PStr (fst kv)) d)"
| "py_iter _ = Inl TypeError"

text \<open>
  \<open>str(x)\<close>: strings are themselves, integers their decimal digits. \<open>fmt\<close> is the interpreter's
  \<open>repr\<close> of floats and containers, which no component inspects.
\<close>

fun digits :: "nat \<Rightarrow> string" where
  "digits n = (if n < 10 then [char_of (48 + n)] else digits (n div 10) @ [char_of (48 + n mod 10)])"

declare digits.simps [simp del]

definition show_int :: "int \<Rightarrow> string" where
  "show_int i = (if i < 0 then CHR ''-'' # digits (nat (- i)) else digits (nat i))"

fun str_of :: "(pyval \<Rightarrow> string) \<Rightarrow> pyval \<Rightarrow> string" where
  "str_of fmt PNone = ''None''"
| "str_of fmt (PBool b) = (if b then ''True'' else ''False'')"
| "str_of fmt (PInt i) = show_int i"
| "str_of fmt (PStr s) = s"
| "str_of fmt v = fmt v"

text \<open>\<open>x.__index__()\<close>, which \<open>range\<close>, slicing and list repetition use.\<close>

fun py_index :: "pyval \<Rightarrow> int res" where
  "py_index (PInt i) = Inr i"
| "py_index (PBool b) = Inr (if b then 1 else 0)"
| "py_index _ = Inl TypeError"

text \<open>\<open>min(a, b)\<close> for numbers: the first of the smallest.\<close>

definition py_min :: "pyval \<Rightarrow> pyval \<Rightarrow> pyval res" where
  "py_min a b = bindE (num_less b a) (\<lambda>lt. Inr (if lt then b else a))"

text \<open>\<open>x[:n]\<close> on a value: slices of strings and lists; a dictionary has no slice keys.\<close>

fun py_slice_to :: "pyval \<Rightarrow> pyval \<Rightarrow> pyval res" where
  "py_slice_to (PStr s) n = bindE (py_index n) (\<lambda>i. Inr (PStr (slice_to s i)))"
| "py_slice_to (PList xs) n = bindE (py_index n) (\<lambda>i. Inr (PList (slice_to xs i)))"
| "py_slice_to (PDict d) n = Inl KeyError"
| "py_slice_to _ n = Inl TypeError"

text \<open>\<open>x.get(k, default)\<close>: only dictionaries have the method.\<close>

fun py_get :: "pyval \<Rightarrow> string \<Rightarrow> pyval \<Rightarrow> pyval res" where
  "py_get (PDict d) k v = Inr (dget_dflt d k v)"
| "py_get _ k v = Inl AttributeError"

lemma py_min_PInt [simp]: "py_min (PInt i) (PInt j) = Inr (PInt (min i j))"
  by (auto simp: py_min_def num_less_def)

lemma mapE_eq_Inr_iff: "mapE f xs = Inr ys \<longleftrightarrow> list_all2 (\<lambda>x y. f x = Inr y) xs ys"
  by (induction xs arbitrary: ys) (auto simp: bindE_eq_Inr list_all2_Cons1)

lemma mapE_Inl: "mapE f xs = Inl e \<Longrightarrow> \<exists>x\<in>set xs. f x = Inl e"
  by (induction xs) (auto simp: bindE_eq_Inl)

section \<open>Header tables\<close>

text \<open>
  Header names are compared without case; a table is kept under lower-case names, as the server
  delivers them.
\<close>

type_synonym headers = "(string, string) dict"

definition header_get :: "headers \<Rightarrow> string \<Rightarrow> string option" where
  "header_get hs name = dget hs (lower name)"

definition header_set :: "headers \<Rightarrow> string \<Rightarrow> string \<Rightarrow> headers" where
  "header_set hs name v = dset hs (lower name) v"

lemma header_get_set [simp]:
  "header_get (header_set hs name v) name' = (if lower name' = lower name then Some v else header_get hs name')"
  by (simp add: header_get_def header_set_def)

end
