(* ===== verification/Workflow_Schemas.thy ===== *)
theory Workflow_Schemas
  imports Prelude
begin

text \<open>
  The workflow data model of \<open>app/domain/workflows/schemas.py\<close>: node types, steps, edges, quality
  gates, definitions, versions and runs, the validators that run when a definition is built, the
  step lookup and the canonical form behind the definition hash.
  The execution order (\<open>get_step_order\<close>) has its own theory \<open>Step_Order\<close>.
\<close>

section \<open>Data\<close>

datatype node_type =
    CHUNKING | EMBEDDING | RETRIEVAL | RERANKING | GENERATION | EVALUATION | GUARDRAILS | TOOLS | MCP

fun node_type_value :: "node_type \<Rightarrow> string" where
  "node_type_value CHUNKING = ''chunking''"
| "node_type_value EMBEDDING = ''embedding''"
| "node_type_value RETRIEVAL = ''retrieval''"
| "node_type_value RERANKING = ''reranking''"
| "node_type_value GENERATION = ''generation''"
| "node_type_value EVALUATION = ''evaluation''"
| "node_type_value GUARDRAILS = ''guardrails''"
| "node_type_value TOOLS = ''tools''"
| "node_type_value MCP = ''mcp''"

record workflow_step =
  step_id :: string
  step_type :: node_type
  implementation :: string
  config_ref :: "string option"
  config_override :: pydict
  inputs :: "(string, string) dict option"
  outputs :: "string list option"
  step_condition :: "string option"
  retry_policy :: "pydict option"

record workflow_edge =
  from_step :: string
  to_step :: string
  edge_condition :: "string option"
  priority :: int

datatype gate_operator = Gte | Lte | Eq

record quality_gate =
  gate_metric :: string
  gate_threshold :: rat
  gate_operator :: gate_operator

record workflow_definition =
  wf_id :: string
  version :: int
  wf_name :: "string option"
  description :: "string option"
  input_schema :: "string option"
  output_schema :: "string option"
  steps :: "workflow_step list"
  edges :: "workflow_edge list"
  quality_gates :: "(string, rat) dict"
  metadata :: pydict
  tenant_id :: "string option"
  created_by :: "string option"

datatype version_status = Draft | Published | Archived

record workflow_version =
  v_id :: string
  v_workflow_id :: string
  v_version :: int
  v_definition :: workflow_definition
  v_definition_hash :: string
  v_status :: version_status
  v_created_by :: "string option"
  v_changelog :: "string option"
  v_published_at :: "string option"

datatype run_status = Pending | Running | Completed | Failed | Cancelled

record workflow_run =
  r_id :: string
  r_workflow_id :: string
  r_workflow_version_id :: string
  r_tenant_id :: string
  r_input_data :: pydict
  r_output_data :: "pydict option"
  r_status :: run_status
  r_trace_id :: "string option"
  r_started_at :: "string option"
  r_completed_at :: "string option"
  r_error :: "string option"

section \<open>Construction and its validators\<close>

text \<open>
  What the model class is built from: the fields after their types have been checked, \<open>None\<close>
  where the key was not given. Field validators run only on fields that were given; an absent
  field takes its default unchecked.
\<close>

record workflow_fields =
  f_id :: string
  f_version :: "int option"
  f_name :: "string option"
  f_description :: "string option"
  f_input_schema :: "string option"
  f_output_schema :: "string option"
  f_steps :: "workflow_step list option"
  f_edges :: "workflow_edge list option"
  f_quality_gates :: "(string, rat) dict option"
  f_metadata :: "pydict option"
  f_tenant_id :: "string option"
  f_created_by :: "string option"

definition edge_priority_ok :: "workflow_edge \<Rightarrow> bool" where
  "edge_priority_ok e \<longleftrightarrow> 0 \<le> priority e \<and> priority e \<le> 100"

definition gate_threshold_ok :: "quality_gate \<Rightarrow> bool" where
  "gate_threshold_ok g \<longleftrightarrow> 0 \<le> gate_threshold g \<and> gate_threshold g \<le> 1"

definition validate_steps_not_empty :: "workflow_step list \<Rightarrow> workflow_step list res" where
  "validate_steps_not_empty v =
     (if v = [] then Inl (ValueError ''Workflow must have at least one step'') else Inr v)"

fun check_edge_refs :: "string set \<Rightarrow> workflow_edge list \<Rightarrow> unit res" where
  "check_edge_refs ids [] = Inr ()"
| "check_edge_refs ids (e # es) =
     (if from_step e \<notin> ids then Inl (ValueError (''Edge references unknown step: '' @ from_step e))
      else if to_step e \<notin> ids then Inl (ValueError (''Edge references unknown step: '' @ to_step e))
      else check_edge_refs ids es)"

definition validate_edge_references ::
  "workflow_step list \<Rightarrow> workflow_edge list \<Rightarrow> workflow_edge list res" where
  "validate_edge_references ss v =
     (if v = [] then Inr v
      else bindE (check_edge_refs (set (map step_id ss)) v) (\<lambda>_. Inr v))"

definition model_validate :: "workflow_fields \<Rightarrow> workflow_definition res" where
  "model_validate f =
     bindE (case f_version f of None \<Rightarrow> Inr 1
            | Some n \<Rightarrow> if n < 1 then Inl (ValueError ''version'') else Inr n) (\<lambda>ver.
     bindE (case f_steps f of None \<Rightarrow> Inr [] | Some v \<Rightarrow> validate_steps_not_empty v) (\<lambda>ss.
     bindE (case f_edges f of None \<Rightarrow> Inr []
            | Some v \<Rightarrow> if \<not> list_all edge_priority_ok v then Inl (ValueError ''priority'')
                        else validate_edge_references ss v) (\<lambda>es.
     Inr \<lparr>wf_id = f_id f, version = ver, wf_name = f_name f, description = f_description f,
          input_schema = f_input_schema f, output_schema = f_output_schema f,
          steps = ss, edges = es,
          quality_gates = (case f_quality_gates f of None \<Rightarrow> [] | Some d \<Rightarrow> d),
          metadata = (case f_metadata f of None \<Rightarrow> [] | Some d \<Rightarrow> d),
          tenant_id = f_tenant_id f, created_by = f_created_by f\<rparr>)))"

section \<open>Lookup\<close>

fun find_step :: "workflow_step list \<Rightarrow> string \<Rightarrow> workflow_step option" where
  "find_step [] sid = None"
| "find_step (s # ss) sid = (if step_id s = sid then Some s else find_step ss sid)"

definition get_step :: "workflow_definition \<Rightarrow> string \<Rightarrow> workflow_step option" where
  "get_step w sid = find_step (steps w) sid"

section \<open>Canonical form and hash\<close>

definition opt_str :: "string option \<Rightarrow> pyval" where
  "opt_str x = (case x of None \<Rightarrow> PNone | Some s \<Rightarrow> PStr s)"

definition dump_step :: "workflow_step \<Rightarrow> pyval" where
  "dump_step s = PDict
     [(''id'', PStr (step_id s)), (''type'', PStr (node_type_value (step_type s))),
      (''implementation'', PStr (implementation s)), (''config_ref'', opt_str (config_ref s)),
      (''config_override'', PDict (config_override s)),
      (''inputs'', case inputs s of None \<Rightarrow> PNone
                   | Some d \<Rightarrow> PDict (map (\<lambda>(k, v). (k, PStr v)) d)),
      (''outputs'', case outputs s of None \<Rightarrow> PNone | Some xs \<Rightarrow> PList (map PStr xs)),
      (''condition'', opt_str (step_condition s)),
      (''retry_policy'', case retry_policy s of None \<Rightarrow> PNone | Some d \<Rightarrow> PDict d)]"

definition dump_edge :: "workflow_edge \<Rightarrow> pyval" where
  "dump_edge e = PDict
     [(''from'', PStr (from_step e)), (''to'', PStr (to_step e)),
      (''condition'', opt_str (edge_condition e)), (''priority'', PInt (priority e))]"

definition canonical :: "workflow_definition \<Rightarrow> pyval" where
  "canonical w = PDict
     [(''id'', PStr (wf_id w)), (''name'', opt_str (wf_name w)),
      (''description'', opt_str (description w)), (''input_schema'', opt_str (input_schema w)),
      (''output_schema'', opt_str (output_schema w)),
      (''steps'', PList (map dump_step (steps w))), (''edges'', PList (map dump_edge (edges w))),
      (''quality_gates'', PDict (map (\<lambda>(k, q). (k, PFloat q)) (quality_gates w))),
      (''tenant_id'', opt_str (tenant_id w)), (''created_by'', opt_str (created_by w))]"

text \<open>\<open>json_dumps\<close> and \<open>sha256_hex\<close> are the serialiser and the digest the source calls.\<close>

definition compute_hash ::
  "(pyval \<Rightarrow> string) \<Rightarrow> (string \<Rightarrow> string) \<Rightarrow> workflow_definition \<Rightarrow> string" where
  "compute_hash json_dumps sha256_hex w = slice_to (sha256_hex (json_dumps (canonical w))) 32"

section \<open>Lemmas\<close>

lemma check_edge_refs_ok_iff:
  "check_edge_refs ids es = Inr () \<longleftrightarrow> (\<forall>e\<in>set es. from_step e \<in> ids \<and> to_step e \<in> ids)"
  by (induction es) auto

text \<open>A built definition: the facts every later component may rely on.\<close>

definition definition_wf :: "workflow_definition \<Rightarrow> bool" where
  "definition_wf w \<longleftrightarrow> 1 \<le> version w \<and> list_all edge_priority_ok (edges w) \<and>
     (\<forall>e\<in>set (edges w). from_step e \<in> set (map step_id (steps w)) \<and>
        to_step e \<in> set (map step_id (steps w)))"

lemma validate_edge_references_ok:
  "validate_edge_references ss v = Inr es \<longleftrightarrow>
     es = v \<and> (\<forall>e\<in>set v. from_step e \<in> set (map step_id ss) \<and> to_step e \<in> set (map step_id ss))"
  by (auto simp: validate_edge_references_def bindE_eq_Inr check_edge_refs_ok_iff)

lemma model_validate_wf: "model_validate f = Inr w \<Longrightarrow> definition_wf w"
  by (auto simp: model_validate_def bindE_eq_Inr definition_wf_def validate_edge_references_ok
      split: option.splits if_splits)

lemma find_step_Some: "find_step ss sid = Some s \<Longrightarrow> s \<in> set ss \<and> step_id s = sid"
  by (induction ss) (auto split: if_splits)

lemma find_step_None: "find_step ss sid = None \<longleftrightarrow> sid \<notin> step_id ` set ss"
  by (induction ss) auto

lemma find_step_distinct:
  "distinct (map step_id ss) \<Longrightarrow> s \<in> set ss \<Longrightarrow> find_step ss (step_id s) = Some s"
  by (induction ss) (auto simp: image_iff)

lemma opt_str_inject [simp]: "opt_str a = opt_str b \<longleftrightarrow> a = b"
  by (auto simp: opt_str_def split: option.splits)

lemma node_type_value_inject [simp]: "node_type_value a = node_type_value b \<longleftrightarrow> a = b"
  by (cases a; cases b) simp_all

lemma map_PStr_inject [simp]: "map PStr xs = map PStr ys \<longleftrightarrow> xs = ys"
  by (rule inj_map_eq_map) (simp add: inj_on_def)

lemma map_pair_PStr_inject:
  "map (\<lambda>(k, v). (k, PStr v)) d = map (\<lambda>(k, v). (k, PStr v)) e \<longleftrightarrow> d = e"
  by (rule inj_map_eq_map) (auto simp: inj_on_def)

lemma map_pair_PFloat_inject:
  "map (\<lambda>(k, v). (k, PFloat v)) d = map (\<lambda>(k, v). (k, PFloat v)) e \<longleftrightarrow> d = e"
  by (rule inj_map_eq_map) (auto simp: inj_on_def)

lemma dump_step_inject: "dump_step (a :: workflow_step) = dump_step b \<longleftrightarrow> a = b"
proof
  assume eq: "dump_step a = dump_step b"
  then show "a = b"
    by (cases a; cases b)
      (auto simp: dump_step_def map_pair_PStr_inject split: option.splits)
qed simp

lemma dump_edge_inject: "dump_edge (a :: workflow_edge) = dump_edge b \<longleftrightarrow> a = b"
  by (cases a; cases b) (auto simp: dump_edge_def)

lemmas dump_injects =
  inj_map_eq_map [of dump_step] inj_map_eq_map [of dump_edge] map_pair_PFloat_inject

lemma canonical_inject:
  "canonical w = canonical w' \<longleftrightarrow>
     w\<lparr>version := 1, metadata := []\<rparr> = w'\<lparr>version := 1, metadata := []\<rparr>"
proof -
  have "inj dump_step" "inj dump_edge"
    by (auto simp: inj_on_def dump_step_inject dump_edge_inject)
  then show ?thesis
    by (cases w; cases w') (auto simp: canonical_def dump_injects)
qed

lemma find_step_first:
  "find_step ss sid = Some s \<longleftrightarrow>
     (\<exists>pre post. ss = pre @ s # post \<and> step_id s = sid \<and> sid \<notin> step_id ` set pre)"
proof
  assume "find_step ss sid = Some s"
  then show "\<exists>pre post. ss = pre @ s # post \<and> step_id s = sid \<and> sid \<notin> step_id ` set pre"
  proof (induction ss)
    case (Cons x ss)
    show ?case
    proof (cases "step_id x = sid")
      case True
      with Cons.prems have "x # ss = [] @ s # ss" "step_id s = sid" by auto
      then show ?thesis by fastforce
    next
      case False
      with Cons obtain pre post where "ss = pre @ s # post" "step_id s = sid" "sid \<notin> step_id ` set pre"
        by auto
      with False show ?thesis by (intro exI [of _ "x # pre"] exI [of _ post]) auto
    qed
  qed simp
next
  assume "\<exists>pre post. ss = pre @ s # post \<and> step_id s = sid \<and> sid \<notin> step_id ` set pre"
  then obtain pre post where "ss = pre @ s # post" "step_id s = sid" "sid \<notin> step_id ` set pre" by blast
  then show "find_step ss sid = Some s" by (induction pre arbitrary: ss) auto
qed

lemma edges_field_ok:
  "(case es of None \<Rightarrow> Inr []
    | Some v \<Rightarrow> if \<not> list_all edge_priority_ok v then Inl (ValueError ''priority'')
                else validate_edge_references ss v) = Inr es' \<longleftrightarrow>
   (case es of None \<Rightarrow> es' = []
    | Some v \<Rightarrow> es' = v \<and> list_all edge_priority_ok v \<and>
        (\<forall>e\<in>set v. from_step e \<in> set (map step_id ss) \<and> to_step e \<in> set (map step_id ss)))"
  by (auto simp: validate_edge_references_ok split: option.splits)

section \<open>Properties\<close>

text \<open>
  Building a workflow definition succeeds exactly when the given version is at least 1, the
  given step list is not empty and the given edges have priorities from 0 to 100 and connect
  declared steps; the result is well-formed. A definition whose \<open>steps\<close> key is missing is built
  with no steps at all, so the at-least-one-step rule binds only the callers that send the key.
\<close>

theorem model_validate_outcomes:
  "(is_ok (model_validate f) \<longleftrightarrow>
     (case f_version f of None \<Rightarrow> True | Some n \<Rightarrow> 1 \<le> n) \<and> f_steps f \<noteq> Some [] \<and>
     (\<forall>e\<in>set (case f_edges f of None \<Rightarrow> [] | Some v \<Rightarrow> v). edge_priority_ok e \<and>
        from_step e \<in> step_id ` set (case f_steps f of None \<Rightarrow> [] | Some ss \<Rightarrow> ss) \<and>
        to_step e \<in> step_id ` set (case f_steps f of None \<Rightarrow> [] | Some ss \<Rightarrow> ss))) \<and>
   (\<forall>w. model_validate f = Inr w \<longrightarrow> definition_wf w \<and> (steps w = [] \<longleftrightarrow> f_steps f = None))"
  (is "?ok \<and> ?wf")
proof
  show ?ok
    by (cases "f_version f"; cases "f_steps f"; cases "f_edges f")
      (auto simp: is_ok_iff model_validate_def bindE_eq_Inr edges_field_ok list_all_iff
        validate_edge_references_ok validate_steps_not_empty_def split: if_splits)
  have "steps w = [] \<longleftrightarrow> f_steps f = None" if "model_validate f = Inr w" for w
    using that
    by (auto simp: model_validate_def bindE_eq_Inr validate_steps_not_empty_def
        split: option.splits if_splits)
  then show ?wf using model_validate_wf by blast
qed

definition demo_step :: "string \<Rightarrow> workflow_step" where
  "demo_step sid = \<lparr>step_id = sid, step_type = GENERATION, implementation = ''llm_generation'',
     config_ref = None, config_override = [], inputs = None, outputs = None,
     step_condition = None, retry_policy = None\<rparr>"

definition demo_edge :: "string \<Rightarrow> string \<Rightarrow> workflow_edge" where
  "demo_edge a b = \<lparr>from_step = a, to_step = b, edge_condition = None, priority = 0\<rparr>"

definition demo_fields :: "workflow_step list option \<Rightarrow> workflow_edge list option \<Rightarrow> workflow_fields" where
  "demo_fields ss es = \<lparr>f_id = ''w'', f_version = None, f_name = None, f_description = None,
     f_input_schema = None, f_output_schema = None, f_steps = ss, f_edges = es,
     f_quality_gates = None, f_metadata = None, f_tenant_id = None, f_created_by = None\<rparr>"

text \<open>A two-step pipeline is accepted, a dangling edge is not, and no \<open>steps\<close> key at all is.\<close>

theorem model_validate_outcomes_witness:
  "is_ok (model_validate (demo_fields (Some [demo_step ''a'', demo_step ''b'']) (Some [demo_edge ''a'' ''b'']))) \<and>
   \<not> is_ok (model_validate (demo_fields (Some [demo_step ''a'']) (Some [demo_edge ''a'' ''b'']))) \<and>
   is_ok (model_validate (demo_fields None None))"
  using model_validate_outcomes [of "demo_fields None None"]
    model_validate_outcomes [of "demo_fields (Some [demo_step ''a'']) (Some [demo_edge ''a'' ''b''])"]
    model_validate_outcomes [of "demo_fields (Some [demo_step ''a'', demo_step ''b'']) (Some [demo_edge ''a'' ''b''])"]
  by (simp add: demo_fields_def demo_step_def demo_edge_def edge_priority_ok_def)

text \<open>
  Looking a step up by id gives the first declared step with that id, and nothing exactly when
  no step has it.
\<close>

theorem get_step_first:
  "(get_step w sid = Some s \<longleftrightarrow>
     (\<exists>pre post. steps w = pre @ s # post \<and> step_id s = sid \<and> sid \<notin> step_id ` set pre)) \<and>
   (get_step w sid = None \<longleftrightarrow> sid \<notin> step_id ` set (steps w))"
  by (simp add: get_step_def find_step_first find_step_None)

text \<open>
  The definition hash ignores the version number and the metadata, and nothing else: the hashed
  canonical form of two definitions is the same exactly when they agree on every other field.
\<close>

theorem compute_hash_scope:
  "compute_hash json_dumps sha256_hex (w\<lparr>version := n, metadata := m\<rparr>) = compute_hash json_dumps sha256_hex w \<and>
   (canonical w = canonical w' \<longleftrightarrow>
      w\<lparr>version := 1, metadata := []\<rparr> = w'\<lparr>version := 1, metadata := []\<rparr>)"
proof -
  have "canonical (w\<lparr>version := n, metadata := m\<rparr>) = canonical w" by (simp add: canonical_inject)
  then have "compute_hash json_dumps sha256_hex (w\<lparr>version := n, metadata := m\<rparr>) =
      compute_hash json_dumps sha256_hex w" unfolding compute_hash_def by (simp only:)
  then show ?thesis using canonical_inject by blast
qed

end
