(* ===== verification/Step_Order.thy ===== *)
theory Step_Order
  imports Workflow_Schemas
begin

text \<open>
  The execution order of a workflow (\<open>WorkflowDefinition.get_step_order\<close>): Kahn's algorithm over
  the step dictionary. The loops are translated with their dictionaries, their queue and their
  \<open>KeyError\<close>s; the main loop terminates because every pass pops one step and a step enters the
  queue only when its in-degree falls from one to zero. The interface \<open>order_provider\<close> is what
  the validator relies on.
\<close>

section \<open>The algorithm\<close>

type_synonym graph = "(string, string list) dict"
type_synonym degrees = "(string, int) dict"

definition init_graph :: "workflow_step list \<Rightarrow> graph" where
  "init_graph ss = dict_of (map (\<lambda>s. (step_id s, [])) ss)"

definition init_degree :: "workflow_step list \<Rightarrow> degrees" where
  "init_degree ss = dict_of (map (\<lambda>s. (step_id s, 0)) ss)"

text \<open>The loop over the edges: \<open>graph[from].append(to)\<close>, then \<open>in_degree[to] += 1\<close>.\<close>

fun add_edges :: "workflow_edge list \<Rightarrow> graph \<Rightarrow> degrees \<Rightarrow> (graph \<times> degrees) res" where
  "add_edges [] g d = Inr (g, d)"
| "add_edges (e # es) g d =
     bindE (dget_or_raise g (from_step e)) (\<lambda>ns.
     bindE (dget_or_raise d (to_step e)) (\<lambda>n.
     add_edges es (dset g (from_step e) (ns @ [to_step e])) (dset d (to_step e) (n + 1))))"

text \<open>The inner loop over the neighbours of the popped step.\<close>

fun relax :: "string list \<Rightarrow> degrees \<Rightarrow> string list \<Rightarrow> (degrees \<times> string list) res" where
  "relax [] d q = Inr (d, q)"
| "relax (n # ns) d q =
     bindE (dget_or_raise d n) (\<lambda>k.
     relax ns (dset d n (k - 1)) (if k - 1 = 0 then q @ [n] else q))"

text \<open>How many entries are still positive: with the queue length, the loop's measure.\<close>

definition pos_count :: "degrees \<Rightarrow> nat" where
  "pos_count d = length (filter (\<lambda>kv. 0 < snd kv) d)"

lemma pos_count_dset:
  "dget d n = Some k \<Longrightarrow> pos_count (dset d n (k - 1)) + (if k - 1 = 0 then 1 else 0) = pos_count d"
  by (induction d) (auto simp: pos_count_def)

lemma relax_measure:
  "relax ns d q = Inr (d', q') \<Longrightarrow> length q' + pos_count d' = length q + pos_count d"
proof (induction ns d q rule: relax.induct)
  case (2 n ns d q)
  then obtain k where k: "dget d n = Some k"
    by (auto simp: dget_or_raise_def split: option.splits)
  let ?d = "dset d n (k - 1)" and ?q = "if k - 1 = 0 then q @ [n] else q"
  have "length q' + pos_count d' = length ?q + pos_count ?d"
    using 2 k by (simp add: dget_or_raise_def)
  then show ?case using pos_count_dset [OF k] by (auto split: if_splits)
qed simp

text \<open>The main loop.\<close>

function kahn :: "graph \<Rightarrow> degrees \<Rightarrow> string list \<Rightarrow> string list \<Rightarrow> string list res" where
  "kahn g d [] order = Inr order"
| "kahn g d (c # q) order =
     bindE (dget_or_raise g c) (\<lambda>ns.
     bindE (relax ns d q) (\<lambda>st. kahn g (fst st) (snd st) (order @ [c])))"
  by pat_completeness auto
termination
proof (relation "measure (\<lambda>(g, d, q, order). length q + pos_count d)")
  fix g d c q order ns st
  assume "relax ns d q = Inr st"
  then show "((g, fst st, snd st, order @ [c]), (g, d, c # q, order))
      \<in> measure (\<lambda>(g, d, q, order). length q + pos_count d)"
    using relax_measure [of ns d q "fst st" "snd st"] by simp
qed simp

definition initial_queue :: "degrees \<Rightarrow> string list" where
  "initial_queue d = map fst (filter (\<lambda>kv. snd kv = 0) d)"

definition get_step_order :: "workflow_definition \<Rightarrow> string list res" where
  "get_step_order w =
     bindE (add_edges (edges w) (init_graph (steps w)) (init_degree (steps w))) (\<lambda>gd.
     bindE (kahn (fst gd) (snd gd) (initial_queue (snd gd)) []) (\<lambda>order.
     if length order \<noteq> length (steps w) then Inl (ValueError ''Workflow contains cycles'')
     else Inr order))"

section \<open>Specification\<close>

abbreviation step_ids :: "workflow_definition \<Rightarrow> string list" where
  "step_ids w \<equiv> map step_id (steps w)"

definition edge_list :: "workflow_edge list \<Rightarrow> (string \<times> string) list" where
  "edge_list es = map (\<lambda>e. (from_step e, to_step e)) es"

definition edge_rel :: "workflow_definition \<Rightarrow> (string \<times> string) set" where
  "edge_rel w = set (edge_list (edges w))"

definition edges_known :: "workflow_definition \<Rightarrow> bool" where
  "edges_known w \<longleftrightarrow> edge_rel w \<subseteq> set (step_ids w) \<times> set (step_ids w)"

text \<open>Every element comes after all its predecessors.\<close>

definition topo_sorted :: "('a \<times> 'a) set \<Rightarrow> 'a list \<Rightarrow> bool" where
  "topo_sorted E xs \<longleftrightarrow>
     (\<forall>i < length xs. \<forall>a. (a, xs ! i) \<in> E \<longrightarrow> a \<in> set (take i xs))"

lemma topo_sorted_snoc:
  "topo_sorted E (xs @ [x]) \<longleftrightarrow> topo_sorted E xs \<and> (\<forall>a. (a, x) \<in> E \<longrightarrow> a \<in> set xs)"
  by (auto simp: topo_sorted_def nth_append less_Suc_eq)

lemma topo_sorted_index:
  assumes "topo_sorted E xs" "(a, b) \<in> E" "b \<in> set xs"
  shows "\<exists>i j. i < j \<and> j < length xs \<and> xs ! i = a \<and> xs ! j = b"
proof -
  from assms(3) obtain j where j: "j < length xs" "xs ! j = b" by (auto simp: in_set_conv_nth)
  with assms(1,2) have "a \<in> set (take j xs)" by (auto simp: topo_sorted_def)
  then obtain i where "i < j" "i < length xs" "xs ! i = a" by (auto simp: in_set_conv_nth)
  with j show ?thesis by blast
qed

text \<open>A topologically sorted enumeration of all nodes exists only without cycles.\<close>

lemma topo_sorted_acyclic:
  assumes "topo_sorted E xs" "distinct xs" "snd ` E \<subseteq> set xs"
  shows "acyclic E"
proof -
  define idx where "idx b = (THE j. j < length xs \<and> xs ! j = b)" for b
  have idx: "idx (xs ! j) = j" if "j < length xs" for j
    unfolding idx_def using that assms(2) by (intro the_equality) (auto simp: nth_eq_iff_index_eq)
  have "E \<subseteq> measure idx"
  proof
    fix p assume "p \<in> E"
    then obtain a b where p: "p = (a, b)" "(a, b) \<in> E" by (cases p) auto
    with assms(3) have "b \<in> set xs" by force
    with topo_sorted_index [OF assms(1) p(2)] obtain i j
      where ij: "i < j" "j < length xs" "xs ! i = a" "xs ! j = b" by blast
    then have "idx a = i" "idx b = j" using idx [of i] idx [of j] by auto
    with ij p show "p \<in> measure idx" by simp
  qed
  then show ?thesis by (metis wf_acyclic wf_measure wf_subset)
qed

section \<open>The edge loop\<close>

definition succs :: "(string \<times> string) list \<Rightarrow> string \<Rightarrow> string list" where
  "succs ps a = map snd (filter (\<lambda>p. fst p = a) ps)"

definition in_edges :: "(string \<times> string) list \<Rightarrow> string set \<Rightarrow> string \<Rightarrow> nat" where
  "in_edges ps S k = length (filter (\<lambda>p. snd p = k \<and> fst p \<notin> S) ps)"

lemma dget_const_dict_of: "dget (dict_of (map (\<lambda>s. (f s, c)) ss)) k = (if k \<in> f ` set ss then Some c else None)"
proof -
  have "dget (dmerge d (map (\<lambda>s. (f s, c)) ss)) k =
      (if k \<in> f ` set ss then Some c else dget d k)" for d
    by (induction ss arbitrary: d) (auto simp: dmerge_def)
  then show ?thesis by (simp add: dict_of_def)
qed

lemma add_edges_ok:
  assumes "\<forall>e\<in>set es. from_step e \<in> fst ` set g \<and> to_step e \<in> fst ` set d"
  shows "\<exists>g' d'. add_edges es g d = Inr (g', d') \<and>
    (\<forall>k. dget g' k = map_option (\<lambda>ns. ns @ succs (edge_list es) k) (dget g k)) \<and>
    (\<forall>k. dget d' k = map_option (\<lambda>n. n + int (in_edges (edge_list es) {} k)) (dget d k)) \<and>
    (dict_wf d \<longrightarrow> dict_wf d')"
  using assms
proof (induction es arbitrary: g d)
  case Nil
  then show ?case
    by (simp add: edge_list_def succs_def in_edges_def option.map_ident)
next
  case (Cons e es)
  from Cons.prems obtain ns where ns: "dget g (from_step e) = Some ns"
    by (metis list.set_intros(1) map_of_eq_None_iff option.exhaust)
  from Cons.prems obtain n where n: "dget d (to_step e) = Some n"
    by (metis list.set_intros(1) map_of_eq_None_iff option.exhaust)
  let ?g = "dset g (from_step e) (ns @ [to_step e])" and ?d = "dset d (to_step e) (n + 1)"
  have "\<forall>e\<in>set es. from_step e \<in> fst ` set ?g \<and> to_step e \<in> fst ` set ?d"
    using Cons.prems by auto
  from Cons.IH [OF this] obtain g' d' where IH: "add_edges es ?g ?d = Inr (g', d')"
    "\<And>k. dget g' k = map_option (\<lambda>ns. ns @ succs (edge_list es) k) (dget ?g k)"
    "\<And>k. dget d' k = map_option (\<lambda>n. n + int (in_edges (edge_list es) {} k)) (dget ?d k)"
    "dict_wf ?d \<longrightarrow> dict_wf d'" by blast
  have "add_edges (e # es) g d = Inr (g', d')" using IH(1) ns n by (simp add: dget_or_raise_def)
  moreover have "dget g' k = map_option (\<lambda>ns. ns @ succs (edge_list (e # es)) k) (dget g k)" for k
    using ns by (simp add: IH(2) edge_list_def succs_def)
  moreover have "dget d' k = map_option (\<lambda>n. n + int (in_edges (edge_list (e # es)) {} k)) (dget d k)" for k
    using n by (simp add: IH(3) edge_list_def in_edges_def)
  ultimately show ?case using IH(4) by auto
qed

lemma add_edges_KeyError:
  "fst ` set g = fst ` set d \<Longrightarrow>
   add_edges es g d = Inl x \<longleftrightarrow>
     x = KeyError \<and> (\<exists>e\<in>set es. from_step e \<notin> fst ` set g \<or> to_step e \<notin> fst ` set d)"
proof (induction es arbitrary: g d)
  case (Cons e es)
  show ?case
  proof (cases "from_step e \<in> fst ` set g \<and> to_step e \<in> fst ` set d")
    case True
    then obtain ns n where ns: "dget g (from_step e) = Some ns" and n: "dget d (to_step e) = Some n"
      by (metis map_of_eq_None_iff option.exhaust)
    let ?g = "dset g (from_step e) (ns @ [to_step e])" and ?d = "dset d (to_step e) (n + 1)"
    have eq: "fst ` set ?g = fst ` set ?d" "fst ` set ?g = fst ` set g" "fst ` set ?d = fst ` set d"
      using Cons.prems True by (auto simp: insert_absorb)
    have "add_edges (e # es) g d = add_edges es ?g ?d" using ns n by (simp add: dget_or_raise_def)
    then show ?thesis using Cons.IH [OF eq(1), unfolded eq(2,3)] True by auto
  next
    case False
    then have "dget g (from_step e) = None \<or> dget d (to_step e) = None"
      by (auto simp: map_of_eq_None_iff)
    then have "add_edges (e # es) g d = Inl KeyError"
      by (auto simp: dget_or_raise_def split: option.splits)
    then show ?thesis using False by auto
  qed
qed simp

section \<open>The inner loop\<close>

lemma relax_spec:
  assumes "\<forall>k\<in>set ns. \<exists>v. dget d k = Some v \<and> int (count_list ns k) \<le> v"
  shows "\<exists>d' new. relax ns d q = Inr (d', q @ new) \<and> distinct new \<and>
    (\<forall>k. dget d' k = map_option (\<lambda>v. v - int (count_list ns k)) (dget d k)) \<and>
    set new = {k \<in> set ns. dget d k = Some (int (count_list ns k))}"
  using assms
proof (induction ns arbitrary: d q)
  case Nil
  then show ?case by (auto simp: option.map_ident intro!: exI [of _ d])
next
  case (Cons n ns)
  from Cons.prems obtain v where v: "dget d n = Some v" "1 + int (count_list ns n) \<le> v" by auto
  let ?d = "dset d n (v - 1)" and ?q = "if v - 1 = 0 then q @ [n] else q"
  have "\<forall>k\<in>set ns. \<exists>u. dget ?d k = Some u \<and> int (count_list ns k) \<le> u"
    using Cons.prems v by (auto split: if_splits)
  from Cons.IH [OF this, of ?q] obtain d' new where IH: "relax ns ?d ?q = Inr (d', ?q @ new)"
    "distinct new" "\<And>k. dget d' k = map_option (\<lambda>v. v - int (count_list ns k)) (dget ?d k)"
    "set new = {k \<in> set ns. dget ?d k = Some (int (count_list ns k))}" by blast
  have run: "relax (n # ns) d q = Inr (d', ?q @ new)" using IH(1) v by (simp add: dget_or_raise_def)
  have d': "dget d' k = map_option (\<lambda>v. v - int (count_list (n # ns) k)) (dget d k)" for k
    using v by (simp add: IH(3))
  show ?case
  proof (cases "v = 1")
    case True
    then have n: "n \<notin> set ns" using v(2) by (simp add: count_list_0_iff)
    have "set (n # new) = {k \<in> set (n # ns). dget d k = Some (int (count_list (n # ns) k))}"
      using n True v(1) by (auto simp: IH(4) count_list_0_iff)
    moreover have "distinct (n # new)" using n IH(2,4) by auto
    moreover have "relax (n # ns) d q = Inr (d', q @ (n # new))" using run True by simp
    ultimately show ?thesis using d' by blast
  next
    case False
    have "n \<in> set ns" if "v = 1 + int (count_list ns n)"
      using that False by (auto simp: count_list_0_iff intro: ccontr)
    then have "set new = {k \<in> set (n # ns). dget d k = Some (int (count_list (n # ns) k))}"
      using v(1) by (auto simp: IH(4))
    moreover have "relax (n # ns) d q = Inr (d', q @ new)" using run False by simp
    ultimately show ?thesis using d' IH(2) by blast
  qed
qed

section \<open>The loop invariant\<close>

text \<open>
  A step is emitted or queued exactly when all its predecessors have been emitted: the dictionary
  holds, for every step, the number of incoming edges from steps not emitted yet.
\<close>

definition kahn_inv ::
  "(string \<times> string) list \<Rightarrow> string set \<Rightarrow> degrees \<Rightarrow> string list \<Rightarrow> string list \<Rightarrow> bool" where
  "kahn_inv ps K d q order \<longleftrightarrow>
     distinct (order @ q) \<and> set (order @ q) \<subseteq> K \<and>
     (\<forall>k. dget d k = (if k \<in> K then Some (int (in_edges ps (set order) k)) else None)) \<and>
     (\<forall>k\<in>K. in_edges ps (set order) k = 0 \<longleftrightarrow> k \<in> set (order @ q)) \<and>
     topo_sorted (set ps) order"

lemma in_edges_insert:
  "c \<notin> S \<Longrightarrow> in_edges ps S k = in_edges ps (insert c S) k + count_list (succs ps c) k"
  by (induction ps) (auto simp: in_edges_def succs_def)

lemma in_edges_0: "in_edges ps S k = 0 \<longleftrightarrow> (\<forall>a. (a, k) \<in> set ps \<longrightarrow> a \<in> S)"
  by (auto simp: in_edges_def filter_empty_conv)

lemma kahn_step:
  assumes inv: "kahn_inv ps K d (c # q) order" and psK: "snd ` set ps \<subseteq> K"
  shows "\<exists>d' new. relax (succs ps c) d q = Inr (d', q @ new) \<and>
    kahn_inv ps K d' (q @ new) (order @ [c])"
proof -
  let ?S = "set order" and ?ns = "succs ps c"
  have c: "c \<notin> ?S" "c \<in> K" using inv by (auto simp: kahn_inv_def)
  have d: "dget d k = (if k \<in> K then Some (int (in_edges ps ?S k)) else None)" for k
    using inv by (simp add: kahn_inv_def)
  have zero: "in_edges ps ?S k = 0 \<longleftrightarrow> k \<in> set (order @ c # q)" if "k \<in> K" for k
    using inv that unfolding kahn_inv_def by blast
  have nsK: "set ?ns \<subseteq> K" using psK by (auto simp: succs_def)
  have split: "in_edges ps ?S k = in_edges ps (insert c ?S) k + count_list ?ns k" for k
    using c(1) by (rule in_edges_insert)
  have "\<forall>k\<in>set ?ns. \<exists>v. dget d k = Some v \<and> int (count_list ?ns k) \<le> v"
    using nsK by (auto simp: d split)
  from relax_spec [OF this, of q] obtain d' new where r: "relax ?ns d q = Inr (d', q @ new)"
    "distinct new" "\<And>k. dget d' k = map_option (\<lambda>v. v - int (count_list ?ns k)) (dget d k)"
    "set new = {k \<in> set ?ns. dget d k = Some (int (count_list ?ns k))}" by blast
  have new: "k \<in> set new \<longleftrightarrow> k \<in> K \<and> in_edges ps ?S k \<noteq> 0 \<and> in_edges ps (insert c ?S) k = 0" for k
    using nsK split [of k] by (auto simp: r(4) d count_list_0_iff split: if_splits intro: ccontr)
  have disj: "set new \<inter> set (order @ c # q) = {}" using new zero by blast
  have d': "dget d' k = (if k \<in> K then Some (int (in_edges ps (insert c ?S) k)) else None)" for k
    by (simp add: r(3) d split)
  have zero': "in_edges ps (insert c ?S) k = 0 \<longleftrightarrow> k \<in> set (order @ [c] @ q @ new)" if "k \<in> K" for k
    using zero [OF that] new [of k] split [of k] that by auto
  have "in_edges ps ?S c = 0" using zero [OF c(2)] by simp
  then have "topo_sorted (set ps) (order @ [c])"
    using inv by (simp add: topo_sorted_snoc kahn_inv_def in_edges_0)
  moreover have "distinct ((order @ [c]) @ q @ new)"
    using inv r(2) disj by (auto simp: kahn_inv_def)
  moreover have "set ((order @ [c]) @ q @ new) \<subseteq> K" using inv new by (auto simp: kahn_inv_def)
  ultimately have "kahn_inv ps K d' (q @ new) (order @ [c])"
    unfolding kahn_inv_def using d' zero' by auto
  with r(1) show ?thesis by blast
qed

lemma kahn_correct:
  assumes "kahn_inv ps K d q order" "snd ` set ps \<subseteq> K"
    and "\<forall>k\<in>K. dget g k = Some (succs ps k)"
  shows "\<exists>d' order'. kahn g d q order = Inr order' \<and> kahn_inv ps K d' [] order'"
  using assms
proof (induction g d q order rule: kahn.induct)
  case (1 g d order)
  then show ?case by auto
next
  case (2 g d c q order)
  from 2(2) have "c \<in> K" by (auto simp: kahn_inv_def)
  with 2(4) have g: "dget_or_raise g c = Inr (succs ps c)" by (simp add: dget_or_raise_def)
  from kahn_step [OF 2(2,3)] obtain d' new where
    s: "relax (succs ps c) d q = Inr (d', q @ new)" "kahn_inv ps K d' (q @ new) (order @ [c])" by blast
  from 2(1) [OF g s(1)] s(2) 2(3,4) show ?case using g s(1) by simp
qed

lemma kahn_inv_init:
  assumes "\<And>k. dget d k = (if k \<in> K then Some (int (in_edges ps {} k)) else None)" "dict_wf d"
  shows "kahn_inv ps K d (initial_queue d) []"
proof -
  have set: "k \<in> set (initial_queue d) \<longleftrightarrow> dget d k = Some 0" for k
    using assms(2) by (force simp: initial_queue_def map_of_eq_Some_iff)
  have "distinct (initial_queue d)"
    using assms(2) unfolding initial_queue_def by (rule distinct_map_filter)
  then show ?thesis
    using assms(1) by (auto simp: kahn_inv_def set topo_sorted_def split: if_splits)
qed

text \<open>What the finished loop leaves out is closed under some predecessor: a cycle.\<close>

lemma kahn_inv_done:
  assumes "kahn_inv ps K d [] order" "fst ` set ps \<subseteq> K" "acyclic (set ps)"
  shows "set order = K"
proof (rule ccontr)
  assume "set order \<noteq> K"
  with assms(1) obtain k where k: "k \<in> K - set order" by (auto simp: kahn_inv_def)
  have "wf (set ps)" using assms(3) by (simp add: finite_acyclic_wf)
  then obtain m where m: "m \<in> K - set order" "\<And>y. (y, m) \<in> set ps \<Longrightarrow> y \<notin> K - set order"
    using k by (rule wfE_min) blast
  from m(1) assms(1) have "in_edges ps (set order) m \<noteq> 0" by (auto simp: kahn_inv_def)
  then obtain a where "(a, m) \<in> set ps" "a \<notin> set order" by (auto simp: in_edges_0)
  moreover from this assms(2) have "a \<in> K" by force
  ultimately show False using m(2) by blast
qed

lemma kahn_run:
  assumes "edges_known w"
  shows "\<exists>d order. kahn_inv (edge_list (edges w)) (set (step_ids w)) d [] order \<and>
    get_step_order w = (if length order \<noteq> length (steps w)
      then Inl (ValueError ''Workflow contains cycles'') else Inr order)"
proof -
  let ?K = "set (step_ids w)" and ?ps = "edge_list (edges w)"
  let ?g = "init_graph (steps w)" and ?d = "init_degree (steps w)"
  have keys: "fst ` set ?g = ?K" "fst ` set ?d = ?K"
    by (simp_all add: init_graph_def init_degree_def image_image)
  have ps: "fst ` set ?ps \<subseteq> ?K" "snd ` set ?ps \<subseteq> ?K"
    using assms by (auto simp: edges_known_def edge_rel_def)
  have "\<forall>e\<in>set (edges w). from_step e \<in> fst ` set ?g \<and> to_step e \<in> fst ` set ?d"
    using ps by (force simp: keys edge_list_def)
  from add_edges_ok [OF this] obtain g d where gd: "add_edges (edges w) ?g ?d = Inr (g, d)"
    "\<And>k. dget g k = map_option (\<lambda>ns. ns @ succs ?ps k) (dget ?g k)"
    "\<And>k. dget d k = map_option (\<lambda>n. n + int (in_edges ?ps {} k)) (dget ?d k)"
    "dict_wf ?d \<longrightarrow> dict_wf d" by blast
  have "kahn_inv ?ps ?K d (initial_queue d) []"
    using gd(4) by (intro kahn_inv_init) (auto simp: gd(3) init_degree_def dget_const_dict_of)
  moreover have "\<forall>k\<in>?K. dget g k = Some (succs ?ps k)"
    by (auto simp: gd(2) init_graph_def dget_const_dict_of)
  ultimately obtain d' order where "kahn g d (initial_queue d) [] = Inr order"
    "kahn_inv ?ps ?K d' [] order" using kahn_correct ps(2) by blast
  then show ?thesis using gd(1) by (auto simp: get_step_order_def)
qed

section \<open>The interface the validator relies on\<close>

locale order_provider =
  fixes order_of :: "'w \<Rightarrow> string list res"
    and ids :: "'w \<Rightarrow> string list"
    and rel :: "'w \<Rightarrow> (string \<times> string) set"
  assumes order_enum: "order_of w = Inr xs \<Longrightarrow>
      distinct xs \<and> set xs = set (ids w) \<and> length xs = length (ids w)"
    and order_topo: "order_of w = Inr xs \<Longrightarrow> topo_sorted (rel w) xs"
    and order_known: "order_of w = Inr xs \<Longrightarrow> rel w \<subseteq> set (ids w) \<times> set (ids w)"
    and order_total: "rel w \<subseteq> set (ids w) \<times> set (ids w) \<Longrightarrow> distinct (ids w) \<Longrightarrow>
      acyclic (rel w) \<Longrightarrow> is_ok (order_of w)"
begin

lemma order_distinct_ids: "order_of w = Inr xs \<Longrightarrow> distinct (ids w)"
  using order_enum [of w xs] by (metis card_distinct distinct_card)

lemma order_acyclic:
  assumes "order_of w = Inr xs"
  shows "acyclic (rel w)"
proof (rule topo_sorted_acyclic)
  show "topo_sorted (rel w) xs" "distinct xs" using order_topo order_enum assms by auto
  show "snd ` rel w \<subseteq> set xs" using order_known [OF assms] order_enum [OF assms] by auto
qed

lemma order_ok_iff:
  "rel w \<subseteq> set (ids w) \<times> set (ids w) \<Longrightarrow>
    is_ok (order_of w) \<longleftrightarrow> distinct (ids w) \<and> acyclic (rel w)"
  using order_total order_acyclic order_distinct_ids by (metis is_ok_iff)

lemma order_before:
  assumes "order_of w = Inr xs" "(a, b) \<in> rel w"
  shows "\<exists>i j. i < j \<and> j < length xs \<and> xs ! i = a \<and> xs ! j = b"
proof (rule topo_sorted_index)
  show "topo_sorted (rel w) xs" using order_topo assms(1) .
  show "b \<in> set xs" using order_known [OF assms(1)] order_enum [OF assms(1)] assms(2) by auto
qed (rule assms(2))

end

lemma get_step_order_KeyError: "get_step_order w = Inl KeyError \<longleftrightarrow> \<not> edges_known w"
proof (cases "edges_known w")
  case True
  then show ?thesis using kahn_run [of w] by (auto split: if_splits)
next
  case False
  have keys: "fst ` set (init_graph (steps w)) = set (step_ids w)"
    "fst ` set (init_degree (steps w)) = set (step_ids w)"
    by (simp_all add: init_graph_def init_degree_def image_image)
  have "\<exists>e\<in>set (edges w). from_step e \<notin> set (step_ids w) \<or> to_step e \<notin> set (step_ids w)"
    using False by (auto simp: edges_known_def edge_rel_def edge_list_def)
  then have "add_edges (edges w) (init_graph (steps w)) (init_degree (steps w)) = Inl KeyError"
    using add_edges_KeyError [of "init_graph (steps w)" "init_degree (steps w)"] keys by simp
  then show ?thesis using False by (simp add: get_step_order_def)
qed

lemma get_step_order_Inr_known: "get_step_order w = Inr xs \<Longrightarrow> edges_known w"
  using get_step_order_KeyError [of w] by auto

interpretation so: order_provider get_step_order step_ids edge_rel
proof
  fix w xs assume ok: "get_step_order w = Inr xs"
  then obtain d where inv: "kahn_inv (edge_list (edges w)) (set (step_ids w)) d [] xs"
    and len: "length xs = length (steps w)"
    using kahn_run [OF get_step_order_Inr_known [OF ok]] ok by (auto split: if_splits)
  then have "distinct xs" "set xs \<subseteq> set (step_ids w)" by (auto simp: kahn_inv_def)
  moreover have "card (set (step_ids w)) \<le> card (set xs)"
    using len \<open>distinct xs\<close> by (metis card_length distinct_card length_map)
  ultimately have "set xs = set (step_ids w)" by (intro card_seteq) auto
  with \<open>distinct xs\<close> len
  show "distinct xs \<and> set xs = set (step_ids w) \<and> length xs = length (step_ids w)" by simp
  show "topo_sorted (edge_rel w) xs" using inv by (simp add: kahn_inv_def edge_rel_def)
  show "edge_rel w \<subseteq> set (step_ids w) \<times> set (step_ids w)"
    using get_step_order_Inr_known [OF ok] by (simp only: edges_known_def)
next
  fix w assume a: "edge_rel w \<subseteq> set (step_ids w) \<times> set (step_ids w)"
    "distinct (step_ids w)" "acyclic (edge_rel w)"
  then have "edges_known w" by (simp only: edges_known_def)
  from kahn_run [OF this] obtain d order where
    k: "kahn_inv (edge_list (edges w)) (set (step_ids w)) d [] order"
    "get_step_order w = (if length order \<noteq> length (steps w)
      then Inl (ValueError ''Workflow contains cycles'') else Inr order)" by blast
  have "set order = set (step_ids w)"
    using k(1) a(1,3) unfolding edge_rel_def by (rule_tac kahn_inv_done) auto
  moreover have "distinct order" using k(1) by (simp add: kahn_inv_def)
  ultimately have "length order = length (steps w)"
    using a(2) by (metis distinct_card length_map)
  with k(2) show "is_ok (get_step_order w)" by simp
qed

section \<open>Properties\<close>

text \<open>
  C3: An execution order that is returned lists every step id exactly once, and every edge of the
  workflow goes from an earlier to a later position of it.
\<close>

theorem step_order_sound:
  assumes "get_step_order w = Inr order"
  shows "distinct order \<and> set order = set (step_ids w) \<and>
    (\<forall>(a, b)\<in>edge_rel w. \<exists>i j. i < j \<and> j < length order \<and> order ! i = a \<and> order ! j = b)"
  using so.order_enum [OF assms] so.order_before [OF assms] by blast

definition demo_workflow :: "string list \<Rightarrow> (string \<times> string) list \<Rightarrow> workflow_definition" where
  "demo_workflow ids es = \<lparr>wf_id = ''demo'', version = 1, wf_name = None, description = None,
     input_schema = None, output_schema = None, steps = map demo_step ids,
     edges = map (\<lambda>(a, b). demo_edge a b) es, quality_gates = [], metadata = [],
     tenant_id = None, created_by = None\<rparr>"

text \<open>A diamond whose steps are listed in an order that is not the execution order.\<close>

theorem step_order_sound_witness:
  "get_step_order (demo_workflow [''d'', ''b'', ''a'', ''c'']
      [(''a'', ''b''), (''a'', ''c''), (''b'', ''d''), (''c'', ''d'')]) =
     Inr [''a'', ''b'', ''c'', ''d''] \<and>
   distinct [''a'', ''b'', ''c'', ''d'']"
proof -
  have run: "get_step_order (demo_workflow [''d'', ''b'', ''a'', ''c'']
      [(''a'', ''b''), (''a'', ''c''), (''b'', ''d''), (''c'', ''d'')]) =
     Inr [''a'', ''b'', ''c'', ''d'']" by code_simp
  show ?thesis using run step_order_sound [OF run] by blast
qed

text \<open>
  C4: The order is computed for exactly the workflows with known edge end points, distinct step
  ids and no cycle. An unknown end point is a KeyError; repeated ids and cycles are both reported
  as the error "Workflow contains cycles". The computation has no other outcome.
\<close>

theorem step_order_outcomes:
  "(\<exists>order. get_step_order w = Inr order) =
     (edges_known w \<and> distinct (step_ids w) \<and> acyclic (edge_rel w)) \<and>
   (get_step_order w = Inl e) =
     (e = KeyError \<and> \<not> edges_known w \<or>
      e = ValueError ''Workflow contains cycles'' \<and> edges_known w \<and>
        \<not> (distinct (step_ids w) \<and> acyclic (edge_rel w)))"
proof (cases "edges_known w")
  case True
  then have "is_ok (get_step_order w) \<longleftrightarrow> distinct (step_ids w) \<and> acyclic (edge_rel w)"
    by (intro so.order_ok_iff) (simp only: edges_known_def)
  then have ok: "(\<exists>order. get_step_order w = Inr order) \<longleftrightarrow>
      distinct (step_ids w) \<and> acyclic (edge_rel w)" by (simp only: is_ok_iff)
  moreover have "get_step_order w = Inl e \<longleftrightarrow> e = ValueError ''Workflow contains cycles'' \<and>
      \<not> (\<exists>order. get_step_order w = Inr order)"
    using kahn_run [OF True] by (auto split: if_splits)
  ultimately show ?thesis using True by blast
next
  case False
  then have "get_step_order w = Inl KeyError" by (simp add: get_step_order_KeyError)
  then show ?thesis using False by auto
qed

end
