(* ===== verification/Float64.thy ===== *)
theory Float64
  imports Prelude "HOL-Library.Log_Nat"
begin

text \<open>
  Python's \<open>float\<close>: finite binary64 numbers as rationals, every arithmetic operation being the
  exact operation followed by rounding to nearest, ties to even (\<open>rnd64\<close>). Overflow to infinity
  is not represented (the service computes ratios, scores and small counts).
  The laws later components use are collected in the interface \<open>rounding\<close> and proved for
  \<open>rnd64\<close> here.
\<close>

section \<open>Powers of two and binary exponents\<close>

definition pow2 :: "int \<Rightarrow> rat" where
  "pow2 e = (if 0 \<le> e then 2 ^ nat e else 1 / 2 ^ nat (- e))"

lemma pow2_powi: "pow2 e = power_int 2 e"
  by (simp add: pow2_def power_int_def power_one_over inverse_eq_divide)

lemma pow2_pos [simp]: "0 < pow2 e"
  by (simp add: pow2_def)

lemma pow2_nonneg [simp]: "0 \<le> pow2 e" and pow2_neq0 [simp]: "pow2 e \<noteq> 0"
  by (simp_all add: pow2_def)

lemma pow2_add: "pow2 (a + b) = pow2 a * pow2 b"
  by (simp add: pow2_powi power_int_add)

lemma pow2_0 [simp]: "pow2 0 = 1"
  by (simp add: pow2_def)

lemma pow2_numeral [simp]: "pow2 (numeral n) = 2 ^ numeral n"
  by (simp add: pow2_def)

lemma pow2_mono: "a \<le> b \<Longrightarrow> pow2 a \<le> pow2 b"
  by (simp add: pow2_powi power_int_increasing)

lemma pow2_strict_mono: "a < b \<Longrightarrow> pow2 a < pow2 b"
  by (simp add: pow2_powi power_int_strict_increasing)

lemma pow2_less_iff: "pow2 a < pow2 b \<longleftrightarrow> a < b"
  using pow2_strict_mono pow2_mono by (metis linorder_not_less)

lemma pow2_of_nat: "pow2 (int n) = 2 ^ n"
  by (simp add: pow2_def)

lemma pow2_is_int: "0 \<le> e \<Longrightarrow> pow2 e \<in> \<int>"
  by (simp add: pow2_def)

text \<open>The exponent \<open>e\<close> with \<open>2^e \<le> x < 2^(e+1)\<close>, computed from the bit lengths.\<close>

definition exponent :: "rat \<Rightarrow> int" where
  "exponent x = (case quotient_of x of (p, q) \<Rightarrow>
     let k = bitlen p - bitlen q in if pow2 k \<le> x then k else k - 1)"

lemma bitlen_pow2_bounds:
  assumes "0 < p"
  shows "pow2 (bitlen p - 1) \<le> of_int p \<and> of_int p < pow2 (bitlen p)"
proof -
  have b: "2 ^ nat (bitlen p - 1) \<le> p" "p < 2 ^ nat (bitlen p)" using bitlen_bounds [OF assms] by auto
  have "0 < bitlen p" using assms by (metis bitlen_eq_zero_iff bitlen_nonneg linorder_not_le order_le_less)
  then have "pow2 (bitlen p - 1) = of_int (2 ^ nat (bitlen p - 1))"
    "pow2 (bitlen p) = of_int (2 ^ nat (bitlen p))" by (simp_all add: pow2_def)
  then show ?thesis using b by (metis of_int_le_iff of_int_less_iff)
qed

lemma exponent_bounds:
  assumes "0 < x"
  shows "pow2 (exponent x) \<le> x \<and> x < pow2 (exponent x + 1)"
proof -
  obtain p q where pq: "quotient_of x = (p, q)" by fastforce
  then have x: "x = of_int p / of_int q" and q: "0 < q"
    by (auto simp: quotient_of_div quotient_of_denom_pos)
  with assms have p: "0 < p" by (simp add: zero_less_divide_iff)
  let ?k = "bitlen p - bitlen q"
  note bp = bitlen_pow2_bounds [OF p] and bq = bitlen_pow2_bounds [OF q]
  have "x < pow2 (?k + 1)"
  proof -
    have "of_int p < pow2 (?k + 1) * pow2 (bitlen q - 1)" using bp by (simp flip: pow2_add)
    also have "\<dots> \<le> pow2 (?k + 1) * of_int q" using bq by (simp add: mult_left_mono)
    finally show ?thesis using q by (simp add: x divide_less_eq)
  qed
  moreover have "pow2 (?k - 1) \<le> x"
  proof -
    have "pow2 (?k - 1) * of_int q \<le> pow2 (?k - 1) * pow2 (bitlen q)"
      using bq by (simp add: mult_left_mono)
    also have "\<dots> \<le> of_int p" using bp by (simp flip: pow2_add)
    finally show ?thesis using q by (simp add: x le_divide_eq)
  qed
  ultimately show ?thesis by (auto simp: exponent_def pq Let_def)
qed

section \<open>Rounding\<close>

text \<open>Round half to even.\<close>

definition round_even :: "rat \<Rightarrow> int" where
  "round_even x = (let f = \<lfloor>x\<rfloor>; r = x - of_int f in
     if r < 1 / 2 \<or> (r = 1 / 2 \<and> even f) then f else f + 1)"

lemma round_even_of_int [simp]: "round_even (of_int n) = n"
  by (simp add: round_even_def)

lemma round_even_bounds: "\<lfloor>x\<rfloor> \<le> round_even x \<and> round_even x \<le> \<lfloor>x\<rfloor> + 1"
  by (simp add: round_even_def Let_def)

lemma round_even_mono: "x \<le> y \<Longrightarrow> round_even x \<le> round_even y"
proof -
  assume xy: "x \<le> y"
  then have "\<lfloor>x\<rfloor> \<le> \<lfloor>y\<rfloor>" by (rule floor_mono)
  then consider "\<lfloor>x\<rfloor> = \<lfloor>y\<rfloor>" | "\<lfloor>x\<rfloor> + 1 \<le> \<lfloor>y\<rfloor>" by linarith
  then show ?thesis
  proof cases
    case 1
    with xy show ?thesis by (auto simp: round_even_def Let_def)
  next
    case 2
    then show ?thesis using round_even_bounds [of x] round_even_bounds [of y] by linarith
  qed
qed

lemma round_even_le: "x \<le> of_int n \<Longrightarrow> round_even x \<le> n"
  using round_even_mono [of x "of_int n"] by simp

lemma round_even_ge: "of_int n \<le> x \<Longrightarrow> n \<le> round_even x"
  using round_even_mono [of "of_int n" x] by simp

text \<open>The exponent of the last place: 52 below the binary exponent, never below the subnormal one.\<close>

definition last_place :: "rat \<Rightarrow> int" where
  "last_place x = max (exponent x) (- 1022) - 52"

definition rnd_pos :: "rat \<Rightarrow> rat" where
  "rnd_pos x = of_int (round_even (x / pow2 (last_place x))) * pow2 (last_place x)"

definition rnd64 :: "rat \<Rightarrow> rat" where
  "rnd64 x = (if x = 0 then 0 else if 0 < x then rnd_pos x else - rnd_pos (- x))"

lemma last_place_upper: "0 < x \<Longrightarrow> x < pow2 (last_place x + 53)"
proof -
  assume "0 < x"
  then have "x < pow2 (exponent x + 1)" using exponent_bounds by blast
  also have "\<dots> \<le> pow2 (last_place x + 53)" by (rule pow2_mono) (simp add: last_place_def)
  finally show ?thesis .
qed

lemma last_place_lower: "0 < x \<Longrightarrow> - 1074 < last_place x \<Longrightarrow> pow2 (last_place x + 52) \<le> x"
  using exponent_bounds [of x] by (auto simp: last_place_def max_def split: if_splits)

lemma last_place_ge: "- 1074 \<le> last_place x"
  by (simp add: last_place_def)

lemma exponent_mono: "0 < x \<Longrightarrow> x \<le> y \<Longrightarrow> exponent x \<le> exponent y"
proof -
  assume "0 < x" "x \<le> y"
  then have "pow2 (exponent x) < pow2 (exponent y + 1)"
    using exponent_bounds [of x] exponent_bounds [of y] by linarith
  then show ?thesis by (simp add: pow2_less_iff)
qed

lemma last_place_mono: "0 < x \<Longrightarrow> x \<le> y \<Longrightarrow> last_place x \<le> last_place y"
  using exponent_mono [of x y] by (auto simp: last_place_def)

lemma rnd_pos_upper: "0 < x \<Longrightarrow> rnd_pos x \<le> pow2 (last_place x + 53)"
proof -
  assume "0 < x"
  then have "x / pow2 (last_place x) \<le> of_int (2 ^ 53)"
    using last_place_upper [of x] by (simp add: divide_le_eq pow2_add mult.commute)
  then have "round_even (x / pow2 (last_place x)) \<le> 2 ^ 53" by (rule round_even_le)
  then have "of_int (round_even (x / pow2 (last_place x))) \<le> (2 ^ 53 :: rat)"
    by (metis of_int_le_iff of_int_numeral of_int_power)
  then show ?thesis unfolding rnd_pos_def by (simp add: pow2_add mult.commute [of _ "2 ^ 53"] mult_right_mono)
qed

lemma rnd_pos_lower: "0 < x \<Longrightarrow> - 1074 < last_place x \<Longrightarrow> pow2 (last_place x + 52) \<le> rnd_pos x"
proof -
  assume "0 < x" "- 1074 < last_place x"
  then have "of_int (2 ^ 52) \<le> x / pow2 (last_place x)"
    using last_place_lower [of x] by (simp add: le_divide_eq pow2_add mult.commute)
  then have "2 ^ 52 \<le> round_even (x / pow2 (last_place x))" by (rule round_even_ge)
  then have "(2 ^ 52 :: rat) \<le> of_int (round_even (x / pow2 (last_place x)))"
    by (metis of_int_le_iff of_int_numeral of_int_power)
  then show ?thesis unfolding rnd_pos_def by (simp add: pow2_add mult.commute [of _ "2 ^ 52"] mult_right_mono)
qed

lemma rnd_pos_nonneg: "0 \<le> x \<Longrightarrow> 0 \<le> rnd_pos x"
  unfolding rnd_pos_def by (intro mult_nonneg_nonneg) (auto intro: round_even_ge)

lemma rnd_pos_mono:
  assumes "0 < x" "x \<le> y"
  shows "rnd_pos x \<le> rnd_pos y"
proof (cases "last_place x = last_place y")
  case True
  have "round_even (x / pow2 (last_place y)) \<le> round_even (y / pow2 (last_place y))"
    using assms(2) by (intro round_even_mono) (simp add: divide_right_mono)
  then show ?thesis unfolding rnd_pos_def True by (simp add: mult_right_mono)
next
  case False
  with last_place_mono [OF assms] have lt: "last_place x < last_place y" by simp
  have "rnd_pos x \<le> pow2 (last_place x + 53)" using rnd_pos_upper assms by blast
  also have "\<dots> \<le> pow2 (last_place y + 52)" using lt by (intro pow2_mono) simp
  also have "\<dots> \<le> rnd_pos y"
    using assms lt last_place_ge [of x] by (intro rnd_pos_lower) auto
  finally show ?thesis .
qed

text \<open>The representable numbers, and that rounding lands on them and leaves them alone.\<close>

definition is_f64 :: "rat \<Rightarrow> bool" where
  "is_f64 v \<longleftrightarrow> (\<exists>m k. v = of_int m * pow2 k \<and> \<bar>m\<bar> \<le> 2 ^ 53 \<and> - 1074 \<le> k)"

lemma is_f64_rnd_pos: "0 < x \<Longrightarrow> is_f64 (rnd_pos x)"
proof -
  assume x: "0 < x"
  let ?m = "round_even (x / pow2 (last_place x))"
  have "x / pow2 (last_place x) \<le> of_int (2 ^ 53)"
    using last_place_upper [OF x] by (simp add: divide_le_eq pow2_add mult.commute)
  then have "?m \<le> 2 ^ 53" by (rule round_even_le)
  moreover have "0 \<le> ?m" using x by (intro round_even_ge) simp
  ultimately show ?thesis unfolding is_f64_def rnd_pos_def
    using last_place_ge [of x] by (intro exI [of _ ?m] exI [of _ "last_place x"]) auto
qed

lemma is_f64_uminus [simp]: "is_f64 (- v) \<longleftrightarrow> is_f64 v"
proof -
  have "is_f64 (- v)" if f: "is_f64 v" for v
  proof -
    from f obtain m k where mk: "v = of_int m * pow2 k" "\<bar>m\<bar> \<le> 2 ^ 53" "- 1074 \<le> k"
      unfolding is_f64_def by blast
    then have "- v = of_int (- m) * pow2 k" "\<bar>- m\<bar> \<le> 2 ^ 53" by simp_all
    with mk(3) show ?thesis unfolding is_f64_def by blast
  qed
  from this [of v] this [of "- v"] show ?thesis by auto
qed

lemma is_f64_rnd64 [simp]: "is_f64 (rnd64 x)"
proof -
  have "is_f64 0" unfolding is_f64_def by (intro exI [of _ 0]) auto
  then show ?thesis using is_f64_rnd_pos [of x] is_f64_rnd_pos [of "- x"] by (simp add: rnd64_def)
qed

lemma rnd_pos_f64:
  assumes "is_f64 v" "0 < v"
  shows "rnd_pos v = v"
proof -
  from assms(1) obtain m k where mk: "v = of_int m * pow2 k" "\<bar>m\<bar> \<le> 2 ^ 53" "- 1074 \<le> k"
    unfolding is_f64_def by blast
  let ?l = "last_place v"
  have "v / pow2 ?l \<in> \<int>"
  proof (cases "?l \<le> k")
    case True
    then have "pow2 k = pow2 (k - ?l) * pow2 ?l" by (simp flip: pow2_add)
    then have "v = of_int m * pow2 (k - ?l) * pow2 ?l" by (metis mk(1) mult.assoc)
    then have "v / pow2 ?l = of_int m * pow2 (k - ?l)"
      by (metis nonzero_mult_div_cancel_right pow2_neq0)
    then show ?thesis using True by (simp add: pow2_is_int)
  next
    case False
    have "of_int m \<le> (2 ^ 53 :: rat)" using mk(2) by (metis abs_le_D1 of_int_le_iff of_int_numeral of_int_power)
    then have "v \<le> pow2 (k + 53)" by (simp add: mk(1) pow2_add mult.commute mult_left_mono)
    also have "\<dots> \<le> pow2 (?l + 52)" using False by (intro pow2_mono) simp
    finally have "v \<le> pow2 (?l + 52)" .
    moreover have "pow2 (?l + 52) \<le> v" using False mk(3) by (intro last_place_lower assms(2)) simp
    ultimately have "v = 2 ^ 52 * pow2 ?l" by (simp add: pow2_add)
    then have "v / pow2 ?l = 2 ^ 52"
      by (metis nonzero_mult_div_cancel_right pow2_neq0)
    then show ?thesis by simp
  qed
  then obtain n where n: "v / pow2 ?l = of_int n" by (rule Ints_cases)
  then have "v = of_int n * pow2 ?l" by (simp add: field_simps)
  with n show ?thesis by (simp add: rnd_pos_def)
qed

section \<open>The interface and its interpretation\<close>

locale rounding =
  fixes rnd :: "rat \<Rightarrow> rat" and rep :: "rat \<Rightarrow> bool"
  assumes rnd_mono: "x \<le> y \<Longrightarrow> rnd x \<le> rnd y"
    and rnd_rep: "rep (rnd x)"
    and rnd_id: "rep x \<Longrightarrow> rnd x = x"
    and rep_int: "\<bar>n\<bar> \<le> 2 ^ 53 \<Longrightarrow> rep (of_int n)"
    and rep_double: "rep x \<Longrightarrow> rep (2 * x)"
begin

lemma rnd_0: "rnd 0 = 0" and rnd_1: "rnd 1 = 1"
  using rnd_id [OF rep_int [of 0]] rnd_id [OF rep_int [of 1]] by simp_all

lemma rnd_nonneg: "0 \<le> x \<Longrightarrow> 0 \<le> rnd x"
  using rnd_mono [of 0 x] by (simp add: rnd_0)

lemma rnd_le_1: "x \<le> 1 \<Longrightarrow> rnd x \<le> 1"
  using rnd_mono [of x 1] by (simp add: rnd_1)

text \<open>A rounded quotient of a smaller by a larger non-negative number is in the unit interval.\<close>

lemma rnd_ratio: "0 \<le> a \<Longrightarrow> a \<le> b \<Longrightarrow> 0 \<le> rnd (a / b) \<and> rnd (a / b) \<le> 1"
  by (intro conjI rnd_nonneg rnd_le_1) (auto simp: divide_le_eq_1)

text \<open>
  The harmonic mean, computed as \<open>(2 * p * r) / (p + r)\<close> with every operation rounded, stays in
  the unit interval: doubling is exact, so the rounded numerator never exceeds the denominator.
\<close>

lemma rnd_harmonic:
  assumes p: "rep p" "0 \<le> p" "p \<le> 1" and r: "0 \<le> r" "r \<le> 1"
  shows "0 \<le> rnd (rnd (rnd (2 * p) * r) / rnd (p + r)) \<and>
    rnd (rnd (rnd (2 * p) * r) / rnd (p + r)) \<le> 1"
proof (rule rnd_ratio)
  have d: "rnd (2 * p) = 2 * p" using p(1) by (intro rnd_id rep_double)
  show "0 \<le> rnd (rnd (2 * p) * r)" using d p(2) r(1) by (simp add: rnd_nonneg)
  have "p * r \<le> p" "p * r \<le> r" using p r by (auto simp: mult_left_le mult_left_le_one_le)
  then have "2 * p * r \<le> p + r" by linarith
  then show "rnd (rnd (2 * p) * r) \<le> rnd (p + r)" unfolding d by (rule rnd_mono)
qed

end

lemma rnd64_mono: "x \<le> y \<Longrightarrow> rnd64 x \<le> rnd64 y"
proof -
  assume xy: "x \<le> y"
  consider "0 < x" | "x = 0" | "x < 0" "0 \<le> y" | "y < 0" using xy by linarith
  then show ?thesis
  proof cases
    case 1
    then show ?thesis using xy rnd_pos_mono [of x y] by (simp add: rnd64_def)
  next
    case 2
    then show ?thesis using xy rnd_pos_nonneg [of y] by (auto simp: rnd64_def)
  next
    case 3
    then show ?thesis using rnd_pos_nonneg [of "- x"] rnd_pos_nonneg [of y] by (auto simp: rnd64_def)
  next
    case 4
    then show ?thesis using xy rnd_pos_mono [of "- y" "- x"] by (simp add: rnd64_def)
  qed
qed

lemma rnd64_f64: "is_f64 x \<Longrightarrow> rnd64 x = x"
  using rnd_pos_f64 [of x] rnd_pos_f64 [of "- x"] by (auto simp: rnd64_def)

interpretation f64: rounding rnd64 is_f64
proof
  fix x y :: rat and n :: int
  show "x \<le> y \<Longrightarrow> rnd64 x \<le> rnd64 y" by (rule rnd64_mono)
  show "is_f64 (rnd64 x)" by (rule is_f64_rnd64)
  show "is_f64 x \<Longrightarrow> rnd64 x = x" by (rule rnd64_f64)
  show "\<bar>n\<bar> \<le> 2 ^ 53 \<Longrightarrow> is_f64 (of_int n)"
    unfolding is_f64_def by (intro exI [of _ n] exI [of _ 0]) simp
  assume "is_f64 x"
  then obtain m k where mk: "x = of_int m * pow2 k" "\<bar>m\<bar> \<le> 2 ^ 53" "- 1074 \<le> k"
    unfolding is_f64_def by blast
  then have "2 * x = of_int m * pow2 (k + 1)" by (simp add: pow2_add pow2_def [of 1])
  with mk show "is_f64 (2 * x)" unfolding is_f64_def by (intro exI [of _ m] exI [of _ "k + 1"]) simp
qed

section \<open>The operations of the source\<close>

definition fadd :: "rat \<Rightarrow> rat \<Rightarrow> rat" where "fadd a b = rnd64 (a + b)"
definition fsub :: "rat \<Rightarrow> rat \<Rightarrow> rat" where "fsub a b = rnd64 (a - b)"
definition fmul :: "rat \<Rightarrow> rat \<Rightarrow> rat" where "fmul a b = rnd64 (a * b)"
definition fdiv :: "rat \<Rightarrow> rat \<Rightarrow> rat" where "fdiv a b = rnd64 (a / b)"

text \<open>\<open>round(x, 2)\<close>: the nearest hundredth of the exact value, ties to even, as a float.\<close>

definition round2 :: "rat \<Rightarrow> rat" where
  "round2 x = rnd64 (of_int (round_even (x * 100)) / 100)"

text \<open>A decimal literal denotes the nearest binary64 number.\<close>

abbreviation flit :: "rat \<Rightarrow> rat" where "flit \<equiv> rnd64"

end
