(* ===== verification/Node_Base.thy ===== *)
theory Node_Base
  imports Float64
begin

text \<open>
  The node interface of \<open>app/domain/workflows/nodes/base.py\<close>: the execution context, the error
  texts of failed nodes, the configuration complaints the nodes produce, and the contract between
  a node's defaults and its \<open>validate_config\<close> (\<open>configurable_node\<close>).
\<close>

section \<open>Execution context\<close>

record node_context =
  ctx_tenant_id :: string
  ctx_trace_id :: string
  ctx_workflow_id :: "string option"
  ctx_step_id :: "string option"
  ctx_parent :: pydict
  ctx_metadata :: pydict

definition new_context ::
  "string \<Rightarrow> string \<Rightarrow> string option \<Rightarrow> string option \<Rightarrow> pydict option \<Rightarrow> node_context" where
  "new_context tenant trace wid sid parent =
     \<lparr>ctx_tenant_id = tenant, ctx_trace_id = trace, ctx_workflow_id = wid, ctx_step_id = sid,
      ctx_parent = (case parent of None \<Rightarrow> [] | Some d \<Rightarrow> d), ctx_metadata = []\<rparr>"

definition context_get :: "node_context \<Rightarrow> string \<Rightarrow> pyval \<Rightarrow> pyval" where
  "context_get ctx key dflt =
     (case dget (ctx_metadata ctx) key of Some v \<Rightarrow> v | None \<Rightarrow> dget_dflt (ctx_parent ctx) key dflt)"

definition context_set :: "node_context \<Rightarrow> string \<Rightarrow> pyval \<Rightarrow> node_context" where
  "context_set ctx key v = ctx\<lparr>ctx_metadata := dset (ctx_metadata ctx) key v\<rparr>"

section \<open>Error texts\<close>

text \<open>The message of a \<open>NodeExecutionError\<close> and of a \<open>NodeValidationError\<close>.\<close>

definition node_execution_error_text :: "string \<Rightarrow> string \<Rightarrow> string \<Rightarrow> string" where
  "node_execution_error_text node_type node_id message =
     ''Node '' @ node_id @ '' ('' @ node_type @ ''): '' @ message"

definition node_validation_error_text :: "string \<Rightarrow> string list \<Rightarrow> string" where
  "node_validation_error_text node_type errors =
     ''Validation failed for '' @ node_type @ '': '' @ join ''; '' errors"

text \<open>
  One constructor per message a \<open>validate_config\<close> can append:
  \<^item> \<open>ChunkSizeMin\<close>: "chunk\_size must be at least 100"
  \<^item> \<open>ChunkSizeMax\<close>: "chunk\_size must be at most 10000"
  \<^item> \<open>OverlapNotLess\<close>: "chunk\_overlap must be less than chunk\_size"
  \<^item> \<open>OverlapNegative\<close>: "chunk\_overlap must be non-negative"
  \<^item> \<open>ModelNotAllowed\<close>: "model must be one of [...]"
  \<^item> \<open>DimensionsRange\<close>: "dimensions must be between 256 and 3072"
  \<^item> \<open>TopKRange\<close>: "top\_k must be between 1 and 100"
  \<^item> \<open>TemperatureRange\<close>: "temperature must be between 0 and 2"
  \<^item> \<open>MaxTokensRange\<close>: "max\_tokens must be between 1 and 32000"
  \<^item> \<open>InvalidMetrics xs\<close>: "Invalid metrics: xs. Valid: [...]"
\<close>

datatype config_error =
    ChunkSizeMin | ChunkSizeMax | OverlapNotLess | OverlapNegative
  | ModelNotAllowed | DimensionsRange | TopKRange | TemperatureRange | MaxTokensRange
  | InvalidMetrics "pyval list"

text \<open>The protocol's inherited \<open>validate_config\<close>: no complaints.\<close>

definition default_validate_config :: "pydict \<Rightarrow> config_error list res" where
  "default_validate_config config = Inr []"

definition complain :: "bool \<Rightarrow> config_error \<Rightarrow> config_error list" where
  "complain b e = (if b then [e] else [])"

lemma complain_simps [simp]: "complain b e = [] \<longleftrightarrow> \<not> b" "[] = complain b e \<longleftrightarrow> \<not> b"
  by (auto simp: complain_def)

section \<open>The contract of a configurable node\<close>

text \<open>The merged value of a key the defaults have.\<close>

lemma dget_dflt_merged:
  "dict_wf c \<Longrightarrow> dget d k = Some v \<Longrightarrow> dget_dflt (dmerge d c) k v = dget_dflt c k v"
  by (auto simp: dget_dflt_def dget_dmerge split: option.splits)

lemma dget_merged:
  "dict_wf c \<Longrightarrow> dget d k = Some v \<Longrightarrow> dget_or_raise (dmerge d c) k = Inr (dget_dflt c k v)"
  by (auto simp: dget_or_raise_def dget_dflt_def dget_dmerge split: option.splits)

text \<open>
  \<open>run\<close> works on the defaults merged with the given configuration, but only the given part is
  validated. The contract that makes this sound is about what a check reads: it reads only keys
  that have a default, each with that very default as its fallback, and it accepts the empty
  configuration. That merging does not change a verdict follows.
\<close>

definition read_view :: "pydict \<Rightarrow> string list \<Rightarrow> pydict \<Rightarrow> pydict" where
  "read_view defaults ks c = map (\<lambda>k. (k, dget_dflt c k (the (dget defaults k)))) ks"

lemma dget_read_view:
  "k \<in> set ks \<Longrightarrow> dget d k = Some v \<Longrightarrow> dget_dflt (read_view d ks c) k v = dget_dflt c k v"
  by (induction ks) (auto simp: read_view_def dget_dflt_def split: option.splits)

locale configurable_node =
  fixes defaults :: pydict
    and read_keys :: "string list"
    and check :: "pydict \<Rightarrow> config_error list res"
  assumes keys_have_defaults: "k \<in> set read_keys \<Longrightarrow> dget defaults k \<noteq> None"
    and reads: "check c = check (read_view defaults read_keys c)"
    and check_nothing: "check [] = Inr []"
begin

lemma view_merged: "dict_wf c \<Longrightarrow> read_view defaults read_keys (dmerge defaults c) = read_view defaults read_keys c"
  using keys_have_defaults by (force simp: read_view_def dget_dflt_merged)

lemma check_merged: "dict_wf c \<Longrightarrow> check (dmerge defaults c) = check c"
  using reads [of "dmerge defaults c"] reads [of c] view_merged [of c] by simp

lemma defaults_accepted: "check defaults = Inr []"
  using check_merged [of "[]"] check_nothing by (simp add: dmerge_def)

lemma accepted_merged: "dict_wf c \<Longrightarrow> check c = Inr [] \<Longrightarrow> check (dmerge defaults c) = Inr []"
  by (simp add: check_merged)

end

section \<open>Properties\<close>

text \<open>
  In a node context a value just set is read back, other keys keep their value, and a key
  that is not in the context falls back to the parent context and then to the given default.
\<close>

theorem context_get_set:
  "context_get (context_set ctx k v) k' d = (if k' = k then v else context_get ctx k' d) \<and>
   context_get (new_context t tr wid sid (Some parent)) k d = dget_dflt parent k d \<and>
   context_get (new_context t tr wid sid None) k d = d"
  by (auto simp: context_get_def context_set_def new_context_def dget_dflt_def split: option.splits)

end
