(* ===== verification/Chunking_Nodes.thy ===== *)
theory Chunking_Nodes
  imports Node_Base
begin

text \<open>
  The two chunking nodes of \<open>nodes/chunking.py\<close>: splitting text at a separator with overlap, and
  splitting markdown at header lines.
\<close>

section \<open>RecursiveTextSplitterNode\<close>

abbreviation nl :: char where
  "nl \<equiv> CHR 0x0A"

definition splitter_defaults :: pydict where
  "splitter_defaults =
     [(''chunk_size'', PInt 1000), (''chunk_overlap'', PInt 200),
      (''separators'', PList [PStr [nl, nl], PStr [nl], PStr ''. '', PStr '' '', PStr []])]"

text \<open>\<open>separators[0]\<close>, when \<open>separators\<close> is truthy.\<close>

fun first_separator :: "pyval \<Rightarrow> pyval res" where
  "first_separator (PList (x # xs)) = Inr x"
| "first_separator (PStr (c # cs)) = Inr (PStr [c])"
| "first_separator (PDict d) = Inl KeyError"
| "first_separator _ = Inl TypeError"

text \<open>
  The parts and the separator re-appended to each. \<open>text.split(None)\<close> splits at whitespace; its
  first part then fails to be concatenated with \<open>None\<close>, so only blank text gets through.
\<close>

definition split_parts :: "string \<Rightarrow> pyval \<Rightarrow> (string list \<times> string) res" where
  "split_parts text separators =
     (if \<not> truthy separators then Inr ([text], [])
      else bindE (first_separator separators) (\<lambda>sep.
        case sep of
          PStr s \<Rightarrow> bindE (py_split text s) (\<lambda>parts. Inr (parts, s))
        | PNone \<Rightarrow> if strip text = [] then Inr ([], []) else Inl TypeError
        | _ \<Rightarrow> Inl TypeError))"

text \<open>
  \<open>max(0, len(current_chunk) - chunk_overlap)\<close> as a slice bound: a float bound is an error unless
  the maximum is the integer 0.
\<close>

fun overlap_start :: "nat \<Rightarrow> pyval \<Rightarrow> int res" where
  "overlap_start n (PInt i) = Inr (max 0 (int n - i))"
| "overlap_start n (PBool b) = Inr (max 0 (int n - (if b then 1 else 0)))"
| "overlap_start n (PFloat q) = (if of_nat n \<le> q then Inr 0 else Inl TypeError)"
| "overlap_start n _ = Inl TypeError"

fun chunk_loop ::
  "string list \<Rightarrow> string \<Rightarrow> pyval \<Rightarrow> pyval \<Rightarrow> string list \<Rightarrow> string \<Rightarrow> (string list \<times> string) res" where
  "chunk_loop [] sep csize ovl chunks current = Inr (chunks, current)"
| "chunk_loop (part # parts) sep csize ovl chunks current =
     bindE (num_le (PInt (int (length current) + int (length part))) csize) (\<lambda>fits.
       if fits then chunk_loop parts sep csize ovl chunks (current @ part @ sep)
       else bindE (overlap_start (length current) ovl) (\<lambda>start.
         chunk_loop parts sep csize ovl
           (if current \<noteq> [] then chunks @ [strip current] else chunks)
           (slice_from current start @ part @ sep)))"

definition split_recursive :: "string \<Rightarrow> pyval \<Rightarrow> pyval \<Rightarrow> pyval \<Rightarrow> string list res" where
  "split_recursive text csize ovl separators =
     bindE (split_parts text separators) (\<lambda>ps.
     bindE (chunk_loop (fst ps) (snd ps) csize ovl [] []) (\<lambda>st.
     Inr (if snd st \<noteq> [] then fst st @ [strip (snd st)] else fst st)))"

text \<open>
  A truthy input that is not a string has no \<open>split\<close>, and without separators cannot be
  concatenated with one.
\<close>

definition splitter_run :: "pydict \<Rightarrow> pydict \<Rightarrow> pydict res" where
  "splitter_run input_data config =
     (let merged = dmerge splitter_defaults config; text = dget_dflt input_data ''text'' (PStr []) in
      if \<not> truthy text then Inr [(''chunks'', PList []), (''chunk_count'', PInt 0)]
      else bindE (dget_or_raise merged ''chunk_size'') (\<lambda>csize.
           bindE (dget_or_raise merged ''chunk_overlap'') (\<lambda>ovl.
           bindE (dget_or_raise merged ''separators'') (\<lambda>seps.
           bindE (case text of PStr t \<Rightarrow> split_recursive t csize ovl seps
                  | _ \<Rightarrow> Inl (if truthy seps then AttributeError else TypeError)) (\<lambda>chunks.
           Inr [(''chunks'', PList (map PStr chunks)), (''chunk_count'', PInt (int (length chunks))),
                (''chunk_size'', csize), (''chunk_overlap'', ovl)])))))"

definition splitter_validate_config :: "pydict \<Rightarrow> config_error list res" where
  "splitter_validate_config config =
     (let csize = dget_dflt config ''chunk_size'' (PInt 1000);
          ovl = dget_dflt config ''chunk_overlap'' (PInt 200) in
      bindE (num_less csize (PInt 100)) (\<lambda>a.
      bindE (num_less (PInt 10000) csize) (\<lambda>b.
      bindE (num_le csize ovl) (\<lambda>c.
      bindE (num_less ovl (PInt 0)) (\<lambda>d.
      Inr (complain a ChunkSizeMin @ complain b ChunkSizeMax @ complain c OverlapNotLess @
           complain d OverlapNegative))))))"

section \<open>MarkdownHeaderSplitterNode\<close>

definition markdown_defaults :: pydict where
  "markdown_defaults =
     [(''headers_to_split_on'', PList [PStr ''#'', PStr ''##'', PStr ''###'']),
      (''return_each_line'', PBool False)]"

text \<open>
  \<open>re.match("^(h1|...|hn) ", line)\<close> with escaped alternatives: the line starts with one of the
  literals followed by a blank. No alternatives leave the empty group, matched by a leading blank.
\<close>

definition header_match :: "string list \<Rightarrow> string \<Rightarrow> bool" where
  "header_match headers line =
     (if headers = [] then startswith line '' ''
      else list_ex (\<lambda>h. startswith line (h @ '' '')) headers)"

definition header_strings :: "pyval \<Rightarrow> string list res" where
  "header_strings v = bindE (py_iter v)
     (mapE (\<lambda>h. case h of PStr s \<Rightarrow> Inr s | _ \<Rightarrow> Inl TypeError))"

type_synonym section_chunk = "string \<times> string" \<comment> \<open>content and header\<close>

fun markdown_loop ::
  "(string \<Rightarrow> bool) \<Rightarrow> string list \<Rightarrow> section_chunk list \<Rightarrow> string \<Rightarrow> string \<Rightarrow>
   section_chunk list \<times> string \<times> string" where
  "markdown_loop is_header [] chunks current header = (chunks, current, header)"
| "markdown_loop is_header (line # lines) chunks current header =
     (if is_header line then
        markdown_loop is_header lines
          (if current \<noteq> [] then chunks @ [(strip current, header)] else chunks)
          (line @ [nl]) (strip line)
      else markdown_loop is_header lines chunks (current @ line @ [nl]) header)"

definition markdown_split :: "(string \<Rightarrow> bool) \<Rightarrow> string \<Rightarrow> section_chunk list" where
  "markdown_split is_header text =
     (case markdown_loop is_header (split_on [nl] [] text) [] [] [] of
        (chunks, current, header) \<Rightarrow>
          if current \<noteq> [] then chunks @ [(strip current, header)] else chunks)"

definition markdown_run :: "pydict \<Rightarrow> pydict \<Rightarrow> pydict res" where
  "markdown_run input_data config =
     (let merged = dmerge markdown_defaults config; text = dget_dflt input_data ''text'' (PStr []) in
      if \<not> truthy text then Inr [(''chunks'', PList []), (''headers'', PList [])]
      else bindE (dget_or_raise merged ''headers_to_split_on'') (\<lambda>hv.
           bindE (header_strings hv) (\<lambda>headers.
           bindE (as_str text) (\<lambda>t.
           let chunks = markdown_split (header_match headers) t in
           Inr [(''chunks'', PList (map (\<lambda>(c, h). PDict [(''content'', PStr c), (''header'', PStr h)]) chunks)),
                (''chunk_count'', PInt (int (length chunks))),
                (''headers'', PList (map PStr (filter (\<lambda>h. h \<noteq> []) (map snd chunks))))]))))"

section \<open>Lemmas\<close>

text \<open>An infix survives the stripping of its surroundings, once it is stripped itself.\<close>

lemma lstrip_suffix: "\<exists>u. s = u @ lstrip s \<and> (\<forall>c\<in>set u. is_ws c)"
  unfolding lstrip_def by (metis set_takeWhileD takeWhile_dropWhile_id)

lemma rstrip_prefix_ws: "\<exists>v. s = rstrip s @ v \<and> (\<forall>c\<in>set v. is_ws c)"
proof -
  have "s = rev (dropWhile is_ws (rev s)) @ rev (takeWhile is_ws (rev s))"
    by (metis rev_append rev_rev_ident takeWhile_dropWhile_id)
  moreover have "\<forall>c\<in>set (rev (takeWhile is_ws (rev s))). is_ws c"
    by (auto dest: set_takeWhileD)
  ultimately show ?thesis unfolding rstrip_def by blast
qed

lemma strip_decomp: "\<exists>u v. s = u @ strip s @ v \<and> (\<forall>c\<in>set u \<union> set v. is_ws c)"
proof -
  obtain u where u: "s = u @ lstrip s" "\<forall>c\<in>set u. is_ws c" using lstrip_suffix by blast
  obtain v where v: "lstrip s = strip s @ v" "\<forall>c\<in>set v. is_ws c"
    using rstrip_prefix_ws [of "lstrip s"] by (auto simp: strip_def)
  show ?thesis using u v by (metis UnE)
qed

lemma ws_prefix_split:
  assumes "u @ x = u' @ x'" "\<forall>c\<in>set u. is_ws c" "x' \<noteq> []" "\<not> is_ws (hd x')"
  shows "\<exists>w. x = w @ x'"
proof -
  from assms(1) consider w where "u = u' @ w" "w @ x = x'" | w where "u' = u @ w" "x = w @ x'"
    by (auto simp: append_eq_append_conv2)
  then show ?thesis
  proof cases
    case 1
    with assms(2-4) have "w = []" by (cases w) auto
    with 1 show ?thesis by simp
  qed blast
qed

lemma ws_suffix_split:
  assumes "x @ v = x' @ v'" "\<forall>c\<in>set v. is_ws c" "x' \<noteq> []" "\<not> is_ws (last x')"
  shows "\<exists>w. x = x' @ w"
proof -
  have "rev v @ rev x = rev v' @ rev x'" using assms(1) by (metis rev_append)
  then have "\<exists>w. rev x = w @ rev x'"
    by (rule ws_prefix_split) (use assms(2-4) in \<open>auto simp: hd_rev\<close>)
  then show ?thesis by (metis rev_append rev_rev_ident)
qed

lemma strip_keeps_infix:
  assumes "str_in p s"
  shows "str_in (strip p) (strip s)"
proof (cases "strip p = []")
  case True
  then show ?thesis by (metis append_Nil str_in_iff)
next
  case False
  obtain a b where s: "s = a @ p @ b" using assms by (auto simp: str_in_iff)
  obtain u v where uv: "s = u @ strip s @ v" "\<forall>c\<in>set u \<union> set v. is_ws c" using strip_decomp by blast
  obtain c d where p: "p = c @ strip p @ d" using strip_decomp by blast
  note ends = strip_ends [OF False]
  have "u @ (strip s @ v) = (a @ c) @ (strip p @ d @ b)" using s uv(1) p by simp
  then obtain w where w: "strip s @ v = w @ strip p @ d @ b"
    using ws_prefix_split [of u "strip s @ v" "a @ c" "strip p @ d @ b"] uv(2) False ends by auto
  then have "strip s @ v = (w @ strip p) @ (d @ b)" by simp
  then obtain t where "strip s = (w @ strip p) @ t"
    using ws_suffix_split [of "strip s" v "w @ strip p" "d @ b"] uv(2) False ends by auto
  then show ?thesis by (auto simp: str_in_iff)
qed

lemma str_in_refl [simp]: "str_in p p"
  unfolding str_in_iff by (metis append_Nil append_Nil2)

lemma str_in_append: "str_in p s \<Longrightarrow> str_in p (u @ s @ v)"
  unfolding str_in_iff by (metis append.assoc)

text \<open>The chunk loop on integer settings: it returns, loses no part, and bounds the raw chunks.\<close>

definition covered :: "string \<Rightarrow> string list \<Rightarrow> string \<Rightarrow> bool" where
  "covered p chunks current \<longleftrightarrow> (\<exists>c\<in>set chunks. str_in (strip p) c) \<or> str_in p current"

lemma num_le_int [simp]: "num_le (PInt a) (PInt b) = Inr (a \<le> b)"
  by (simp add: num_le_def)

lemma chunk_loop_covers:
  assumes "chunk_loop parts sep (PInt n) (PInt v) chunks current = Inr (cs, cur)"
    and "current \<noteq> [] \<or> done = []" and "\<forall>p\<in>set done. covered p chunks current"
    and "sep \<noteq> [] \<or> (\<forall>p\<in>set parts. p \<noteq> [])"
  shows "(cur \<noteq> [] \<or> done @ parts = []) \<and> (\<forall>p\<in>set (done @ parts). covered p cs cur)"
  using assms
proof (induction parts arbitrary: chunks current "done")
  case (Cons part parts)
  have ne: "x @ part @ sep \<noteq> []" for x using Cons.prems(4) by auto
  have sp: "sep \<noteq> [] \<or> (\<forall>p\<in>set parts. p \<noteq> [])" using Cons.prems(4) by auto
  show ?case
  proof (cases "int (length current) + int (length part) \<le> n")
    case True
    then have run: "chunk_loop parts sep (PInt n) (PInt v) chunks (current @ part @ sep) = Inr (cs, cur)"
      using Cons.prems(1) by simp
    have "covered p chunks (current @ part @ sep)" if "p \<in> set done" for p
      using Cons.prems(3) that str_in_append [of p current "[]" "part @ sep"]
      by (auto simp: covered_def)
    moreover have "covered part chunks (current @ part @ sep)"
      using str_in_append [of part part current sep] by (simp add: covered_def)
    ultimately have "\<forall>p\<in>set (done @ [part]). covered p chunks (current @ part @ sep)" by simp
    from Cons.IH [OF run disjI1 [OF ne] this sp] show ?thesis by simp
  next
    case False
    let ?chunks = "if current \<noteq> [] then chunks @ [strip current] else chunks"
    let ?cur = "slice_from current (max 0 (int (length current) - v)) @ part @ sep"
    have run: "chunk_loop parts sep (PInt n) (PInt v) ?chunks ?cur = Inr (cs, cur)"
      using Cons.prems(1) False by simp
    have "covered p ?chunks ?cur" if "p \<in> set done" for p
    proof -
      have "current \<noteq> []" "covered p chunks current" using that Cons.prems(2,3) by auto
      then show ?thesis by (auto simp: covered_def strip_keeps_infix)
    qed
    moreover have "covered part ?chunks ?cur"
      using str_in_append [of part part "slice_from current (max 0 (int (length current) - v))" sep]
      by (simp add: covered_def)
    ultimately have "\<forall>p\<in>set (done @ [part]). covered p ?chunks ?cur" by simp
    from Cons.IH [OF run disjI1 [OF ne] this sp] show ?thesis by simp
  qed
qed simp

lemma chunk_loop_total:
  "\<exists>st. chunk_loop parts sep (PInt n) (PInt v) chunks current = Inr st"
  by (induction parts arbitrary: chunks current) auto

lemma chunk_loop_bound:
  assumes "chunk_loop parts sep (PInt n) (PInt v) chunks current = Inr (cs, cur)"
    and "\<forall>p\<in>set parts. int (length p) \<le> m" and "0 \<le> v"
    and "int (length current) \<le> max n (v + m) + int (length sep)"
    and "\<forall>c\<in>set chunks. int (length c) \<le> max n (v + m) + int (length sep)"
  shows "int (length cur) \<le> max n (v + m) + int (length sep) \<and>
    (\<forall>c\<in>set cs. int (length c) \<le> max n (v + m) + int (length sep))"
  using assms
proof (induction parts arbitrary: chunks current)
  case (Cons part parts)
  let ?B = "max n (v + m) + int (length sep)"
  have part: "int (length part) \<le> m" using Cons.prems(2) by simp
  show ?case
  proof (cases "int (length current) + int (length part) \<le> n")
    case True
    then have "chunk_loop parts sep (PInt n) (PInt v) chunks (current @ part @ sep) = Inr (cs, cur)"
      using Cons.prems(1) by simp
    then show ?thesis by (rule Cons.IH) (use Cons.prems True in auto)
  next
    case False
    let ?chunks = "if current \<noteq> [] then chunks @ [strip current] else chunks"
    let ?tail = "slice_from current (max 0 (int (length current) - v))"
    have "int (length ?tail) \<le> v" using Cons.prems(3) by (auto simp: slice_from_def)
    then have len: "int (length (?tail @ part @ sep)) \<le> ?B" using part by simp
    have all: "\<forall>c\<in>set ?chunks. int (length c) \<le> ?B"
      using Cons.prems(4,5) length_strip_le [of current] by auto
    have "chunk_loop parts sep (PInt n) (PInt v) ?chunks (?tail @ part @ sep) = Inr (cs, cur)"
      using Cons.prems(1) False by simp
    then show ?thesis
      by (rule Cons.IH [OF _ _ Cons.prems(3) len all]) (use Cons.prems(2) in simp)
  qed
qed simp

lemma split_on_absent: "\<not> str_in sep s \<Longrightarrow> split_on sep acc s = [acc @ s]"
  by (induction s arbitrary: acc) auto

lemma split_parts_str:
  "sep \<noteq> [] \<Longrightarrow> split_parts text (PList (PStr sep # seps)) = Inr (split_on sep [] text, sep)"
  by (simp add: split_parts_def py_split_def)

text \<open>The header loop.\<close>

lemma markdown_loop_headers:
  "current \<noteq> [] \<Longrightarrow> markdown_loop P lines chunks current header = (cs, c, h) \<Longrightarrow>
     c \<noteq> [] \<and> map snd cs @ [h] = map snd chunks @ header # map strip (filter P lines)"
proof (induction lines arbitrary: chunks current header)
  case (Cons line lines)
  show ?case
  proof (cases "P line")
    case True
    with Cons.prems have "markdown_loop P lines (chunks @ [(strip current, header)]) (line @ [nl]) (strip line) = (cs, c, h)"
      by simp
    from Cons.IH [OF _ this] True show ?thesis by simp
  next
    case False
    with Cons.prems have "markdown_loop P lines chunks (current @ line @ [nl]) header = (cs, c, h)" by simp
    from Cons.IH [OF _ this] False show ?thesis by simp
  qed
qed simp

lemma markdown_loop_covers:
  assumes "markdown_loop P lines chunks current header = (cs, c, h)"
    and "\<forall>l\<in>set seen. covered l (map fst chunks) current"
    and "seen \<noteq> [] \<longrightarrow> current \<noteq> []"
  shows "\<forall>l\<in>set (seen @ lines). covered l (map fst cs) c"
  using assms
proof (induction lines arbitrary: chunks current header seen)
  case (Cons line lines)
  show ?case
  proof (cases "P line")
    case True
    let ?chunks = "if current \<noteq> [] then chunks @ [(strip current, header)] else chunks"
    have "covered l (map fst ?chunks) (line @ [nl])" if "l \<in> set seen" for l
    proof -
      have "current \<noteq> []" "covered l (map fst chunks) current" using that Cons.prems(2,3) by auto
      then show ?thesis by (auto simp: covered_def strip_keeps_infix)
    qed
    moreover have "covered line (map fst ?chunks) (line @ [nl])"
      using str_in_append [of line line "[]" "[nl]"] by (simp add: covered_def)
    ultimately have "\<forall>l\<in>set (seen @ [line]). covered l (map fst ?chunks) (line @ [nl])" by simp
    from Cons.IH [OF _ this] Cons.prems(1) True show ?thesis by simp
  next
    case False
    have "covered l (map fst chunks) (current @ line @ [nl])" if "l \<in> set seen" for l
      using Cons.prems(2) that str_in_append [of l current "[]" "line @ [nl]"]
      by (auto simp: covered_def)
    moreover have "covered line (map fst chunks) (current @ line @ [nl])"
      using str_in_append [of line line current "[nl]"] by (simp add: covered_def)
    ultimately have "\<forall>l\<in>set (seen @ [line]). covered l (map fst chunks) (current @ line @ [nl])" by simp
    from Cons.IH [OF _ this] Cons.prems(1) False show ?thesis by simp
  qed
qed simp

lemma markdown_loop_start:
  assumes "markdown_loop P (l # ls) [] [] [] = (cs, c, h)"
  shows "c \<noteq> [] \<and> map snd cs @ [h] = (if P l then [] else [[]]) @ map strip (filter P (l # ls))"
proof (cases "P l")
  case True
  with assms have "markdown_loop P ls [] (l @ [nl]) (strip l) = (cs, c, h)" by simp
  from markdown_loop_headers [OF _ this] True show ?thesis by simp
next
  case False
  with assms have "markdown_loop P ls [] (l @ [nl]) [] = (cs, c, h)" by simp
  from markdown_loop_headers [OF _ this] False show ?thesis by simp
qed

section \<open>The nodes' configuration contracts\<close>

interpretation splitter_cfg: configurable_node splitter_defaults "[''chunk_size'', ''chunk_overlap'']" splitter_validate_config
proof
  show "splitter_validate_config [] = Inr []"
    by (simp add: splitter_validate_config_def dget_dflt_def num_less_def num_le_def complain_def)
qed (auto simp: splitter_validate_config_def splitter_defaults_def dget_read_view)

interpretation markdown_cfg: configurable_node markdown_defaults "[]" default_validate_config
  by unfold_locales (simp_all add: default_validate_config_def)

lemma splitter_accepts_iff:
  "splitter_validate_config c = Inr [] \<longleftrightarrow>
     (\<exists>n v. num_of (dget_dflt c ''chunk_size'' (PInt 1000)) = Some n \<and>
            num_of (dget_dflt c ''chunk_overlap'' (PInt 200)) = Some v \<and>
            100 \<le> n \<and> n \<le> 10000 \<and> 0 \<le> v \<and> v < n)"
  by (auto simp: splitter_validate_config_def bindE_eq_Inr num_less_def num_le_def Let_def
      split: option.splits)

section \<open>Properties\<close>

text \<open>
  C30: On integer settings and a non-empty separator the splitter always returns, and it loses
  nothing: every separator-delimited part of the text occurs, up to surrounding whitespace, inside
  one of the chunks.
\<close>

theorem split_recursive_covers:
  assumes "sep \<noteq> []"
  shows "\<exists>chunks. split_recursive text (PInt n) (PInt v) (PList (PStr sep # seps)) = Inr chunks \<and>
    (\<forall>part\<in>set (split_on sep [] text). \<exists>c\<in>set chunks. str_in (strip part) c)"
proof -
  let ?parts = "split_on sep [] text"
  obtain cs cur where run: "chunk_loop ?parts sep (PInt n) (PInt v) [] [] = Inr (cs, cur)"
    using chunk_loop_total by (metis surj_pair)
  have "(cur \<noteq> [] \<or> ?parts = []) \<and> (\<forall>p\<in>set ?parts. covered p cs cur)"
    using chunk_loop_covers [OF run, of "[]"] assms by simp
  then have "cur \<noteq> []" and "\<forall>p\<in>set ?parts. covered p cs cur" by auto
  then have "\<forall>p\<in>set ?parts. \<exists>c\<in>set (cs @ [strip cur]). str_in (strip p) c"
    by (auto simp: covered_def intro: strip_keeps_infix)
  then show ?thesis
    using run \<open>cur \<noteq> []\<close> by (simp add: split_recursive_def split_parts_str [OF assms])
qed

theorem split_recursive_covers_witness:
  "\<exists>chunks. split_recursive ''one. two. three'' (PInt 8) (PInt 2) (PList [PStr ''. '']) = Inr chunks \<and>
    (\<exists>c\<in>set chunks. str_in ''two'' c)"
proof -
  have "strip ''two'' = ''two''" "''two'' \<in> set (split_on ''. '' [] ''one. two. three'')" by code_simp+
  then show ?thesis
    using split_recursive_covers [of "''. ''" "''one. two. three''" 8 2 "[]"] by fastforce
qed

text \<open>
  C31: The size of a chunk is bounded by the larger of the configured size and overlap plus the
  longest part, plus one separator; the configured size alone is not a bound.
\<close>

theorem split_recursive_bound:
  assumes "split_recursive text (PInt n) (PInt v) (PList (PStr sep # seps)) = Inr chunks"
    and "sep \<noteq> []" and "0 \<le> v"
    and "\<forall>part\<in>set (split_on sep [] text). int (length part) \<le> m"
    and "c \<in> set chunks"
  shows "int (length c) \<le> max n (v + m) + int (length sep)"
proof -
  obtain cs cur where run: "chunk_loop (split_on sep [] text) sep (PInt n) (PInt v) [] [] = Inr (cs, cur)"
    using chunk_loop_total by (metis surj_pair)
  obtain p where "p \<in> set (split_on sep [] text)" by (meson list.set_sel(1) split_on_nonempty)
  with assms(4) have "0 \<le> m" by fastforce
  with assms(3) have B: "int (length cur) \<le> max n (v + m) + int (length sep) \<and>
      (\<forall>c\<in>set cs. int (length c) \<le> max n (v + m) + int (length sep))"
    by (intro chunk_loop_bound [OF run assms(4,3)]) auto
  have "c \<in> set (cs @ [strip cur])"
    using assms(1,5) run by (auto simp: split_recursive_def split_parts_str [OF assms(2)] split: if_splits)
  then show ?thesis using B length_strip_le [of cur] by auto
qed

theorem split_recursive_bound_witness:
  "split_recursive ''one. two. three'' (PInt 8) (PInt 2) (PList [PStr ''. '']) =
     Inr [''one. two.'', ''. three.''] \<and> int (length ''one. two.'') \<le> 12"
proof -
  have run: "split_recursive ''one. two. three'' (PInt 8) (PInt 2) (PList [PStr ''. '']) =
      Inr [''one. two.'', ''. three.'']" by code_simp
  have m: "\<forall>part\<in>set (split_on ''. '' [] ''one. two. three''). int (length part) \<le> 5" by code_simp
  have "int (length ''one. two.'') \<le> max 8 (2 + 5) + int (length ''. '')"
    by (rule split_recursive_bound [OF run _ _ m]) simp_all
  then show ?thesis using run by simp
qed

text \<open>
  Only the first separator is ever used: a text in which it does not occur comes back as one
  chunk, however long it is and whatever the configured size and the remaining separators are.
\<close>

theorem split_recursive_no_recursion:
  assumes "sep \<noteq> []" and "\<not> str_in sep text"
  shows "split_recursive text (PInt n) (PInt v) (PList (PStr sep # seps)) = Inr [strip (text @ sep)]"
  using assms by (simp add: split_recursive_def split_parts_str split_on_absent slice_from_def)

text \<open>The default separators and a configuration the node accepts, on a text of one long line.\<close>

theorem split_recursive_no_recursion_witness:
  "splitter_validate_config [(''chunk_size'', PInt 100), (''chunk_overlap'', PInt 0)] = Inr [] \<and>
   split_recursive (replicate 150 CHR ''a'') (PInt 100) (PInt 0)
     (PList [PStr [nl, nl], PStr [nl], PStr ''. '', PStr '' '', PStr []]) =
     Inr [strip (replicate 150 CHR ''a'' @ [nl, nl])]"
proof -
  have "\<not> str_in [nl, nl] (replicate 150 CHR ''a'')"
    by (auto simp: str_in_iff dest!: arg_cong [where f = set])
  then show ?thesis
    using split_recursive_no_recursion [of "[nl, nl]" "replicate 150 CHR ''a''"]
    by (simp add: splitter_accepts_iff dget_dflt_def)
qed

text \<open>
  A chunking configuration that passes validation yields, after merging with the defaults, the
  settings the node runs with: a size between 100 and 10000 and a non-negative overlap below it.
\<close>

theorem splitter_accepted_settings:
  assumes "dict_wf c" and "splitter_validate_config c = Inr []"
  shows "\<exists>n v. num_of (dget_dflt (dmerge splitter_defaults c) ''chunk_size'' (PInt 1000)) = Some n \<and>
    num_of (dget_dflt (dmerge splitter_defaults c) ''chunk_overlap'' (PInt 200)) = Some v \<and>
    100 \<le> n \<and> n \<le> 10000 \<and> 0 \<le> v \<and> v < n"
  using splitter_cfg.accepted_merged [OF assms] by (simp only: splitter_accepts_iff)

theorem splitter_accepted_settings_witness:
  "\<exists>n v. num_of (dget_dflt (dmerge splitter_defaults [(''chunk_size'', PInt 500)]) ''chunk_size'' (PInt 1000)) = Some n \<and>
    num_of (dget_dflt (dmerge splitter_defaults [(''chunk_size'', PInt 500)]) ''chunk_overlap'' (PInt 200)) = Some v \<and>
    100 \<le> n \<and> n \<le> 10000 \<and> 0 \<le> v \<and> v < n"
  by (rule splitter_accepted_settings) (simp_all add: splitter_accepts_iff dget_dflt_def)

text \<open>
  Splitting markdown gives one section per header line, in order and titled by the stripped
  line, preceded by an untitled section exactly when the text does not start with a header; every
  line of the text is inside some section, up to surrounding whitespace.
\<close>

theorem markdown_sections:
  "map snd (markdown_split (header_match headers) text) =
     (if header_match headers (hd (split_on [nl] [] text)) then [] else [[]]) @
     map strip (filter (header_match headers) (split_on [nl] [] text)) \<and>
   (\<forall>line\<in>set (split_on [nl] [] text).
      \<exists>c\<in>set (markdown_split (header_match headers) text). str_in (strip line) (fst c))"
proof -
  let ?P = "header_match headers"
  obtain l ls where ls: "split_on [nl] [] text = l # ls"
    by (meson neq_Nil_conv split_on_nonempty)
  obtain cs c h where r: "markdown_loop ?P (l # ls) [] [] [] = (cs, c, h)" by (metis prod_cases3)
  have split: "markdown_split ?P text = cs @ [(strip c, h)]"
    using r markdown_loop_start [OF r] by (simp add: markdown_split_def ls)
  have "\<forall>x\<in>set (l # ls). covered x (map fst cs) c"
    using markdown_loop_covers [OF r, of "[]"] by simp
  then have "\<forall>x\<in>set (l # ls). \<exists>d\<in>set (cs @ [(strip c, h)]). str_in (strip x) (fst d)"
    using strip_keeps_infix by (auto simp: covered_def)
  then show ?thesis using markdown_loop_start [OF r] by (simp add: split ls)
qed

text \<open>A document with a preamble and two headers.\<close>

theorem markdown_sections_witness:
  "map snd (markdown_split (header_match [''#'', ''##''])
       (join [nl] [''intro'', ''# One'', ''body'', ''## Two''])) = [[], ''# One'', ''## Two'']"
proof -
  let ?text = "join [nl] [''intro'', ''# One'', ''body'', ''## Two'']"
  have "split_on [nl] [] ?text = [''intro'', ''# One'', ''body'', ''## Two'']" by code_simp
  moreover have "filter (header_match [''#'', ''##'']) [''intro'', ''# One'', ''body'', ''## Two''] =
      [''# One'', ''## Two'']" "\<not> header_match [''#'', ''##''] ''intro''"
    "strip ''# One'' = ''# One''" "strip ''## Two'' = ''## Two''" by code_simp+
  ultimately show ?thesis using markdown_sections [of "[''#'', ''##'']" ?text] by simp
qed

end
