(* ===== verification/Pipeline_Nodes.thy ===== *)
theory Pipeline_Nodes
  imports Node_Base
begin

text \<open>
  The embedding, retrieval, reranking and generation nodes of \<open>app/domain/workflows/nodes\<close>, in the
  order a pipeline runs them. Each has its default configuration, its \<open>run\<close> and, where the class
  overrides it, its \<open>validate_config\<close>; the contract of \<open>configurable_node\<close> is discharged for each.
  The \<open>context\<close> argument is not read by any of them. Log calls are left out; they evaluate nothing
  that can raise here.
\<close>

section \<open>Embedding\<close>

definition openai_defaults :: pydict where
  "openai_defaults =
     [(''model'', PStr ''text-embedding-3-small''), (''dimensions'', PInt 1536), (''batch_size'', PInt 100)]"

text \<open>\<open>texts = input.get("texts") or input.get("chunks", [])\<close>, a single string wrapped.\<close>

definition input_texts :: "pydict \<Rightarrow> pyval" where
  "input_texts input_data =
     (let texts = py_or (dget_dflt input_data ''texts'' PNone) (dget_dflt input_data ''chunks'' (PList [])) in
      case texts of PStr s \<Rightarrow> PList [PStr s] | _ \<Rightarrow> texts)"

text \<open>\<open>[[0.0] * n for _ in xs]\<close>.\<close>

definition zero_vectors :: "nat \<Rightarrow> int \<Rightarrow> pyval" where
  "zero_vectors count n = PList (replicate count (PList (replicate (nat n) (PFloat 0))))"

definition openai_run :: "pydict \<Rightarrow> pydict \<Rightarrow> pydict res" where
  "openai_run input_data config =
     (let merged = dmerge openai_defaults config; texts = input_texts input_data in
      bindE (dget_or_raise merged ''dimensions'') (\<lambda>dimensions.
      if \<not> truthy texts then Inr [(''embeddings'', PList []), (''dimensions'', dimensions)]
      else bindE (py_iter texts) (\<lambda>items.
           bindE (py_index dimensions) (\<lambda>n.
           bindE (dget_or_raise merged ''model'') (\<lambda>model.
           Inr [(''embeddings'', zero_vectors (length items) n), (''dimensions'', dimensions),
                (''model'', model), (''count'', PInt (int (length items)))])))))"

definition openai_models :: "pyval list" where
  "openai_models =
     map PStr [''text-embedding-3-small'', ''text-embedding-3-large'', ''text-embedding-ada-002'']"

definition openai_validate_config :: "pydict \<Rightarrow> config_error list res" where
  "openai_validate_config config =
     (let model = dget_dflt config ''model'' (PStr ''text-embedding-3-small'');
          dimensions = dget_dflt config ''dimensions'' (PInt 1536) in
      bindE (num_between 256 dimensions 3072) (\<lambda>in_range.
      Inr (complain (model \<notin> set openai_models) ModelNotAllowed @
           complain (\<not> in_range) DimensionsRange)))"

definition ollama_defaults :: pydict where
  "ollama_defaults =
     [(''model'', PStr ''nomic-embed-text''), (''base_url'', PStr ''http://localhost:11434'')]"

definition ollama_run :: "pydict \<Rightarrow> pydict \<Rightarrow> pydict res" where
  "ollama_run input_data config =
     (let merged = dmerge ollama_defaults config; texts = input_texts input_data in
      bindE (dget_or_raise merged ''model'') (\<lambda>model.
      if \<not> truthy texts then Inr [(''embeddings'', PList []), (''model'', model)]
      else bindE (py_len texts) (\<lambda>_.
           bindE (py_iter texts) (\<lambda>items.
           Inr [(''embeddings'', zero_vectors (length items) 768), (''model'', model),
                (''count'', PInt (int (length items)))]))))"

section \<open>Retrieval\<close>

text \<open>\<open>a - (i * s)\<close> on floats, for the literals \<open>a\<close> and \<open>s\<close>.\<close>

definition decayed :: "rat \<Rightarrow> rat \<Rightarrow> nat \<Rightarrow> rat" where
  "decayed a s i = fsub (flit a) (fmul (of_nat i) (flit s))"

definition vector_defaults :: pydict where
  "vector_defaults = [(''top_k'', PInt 5), (''collection_name'', PStr ''default''), (''filter'', PNone)]"

definition vector_result :: "nat \<Rightarrow> pyval" where
  "vector_result i = PDict
     [(''id'', PStr (''doc_'' @ digits i)), (''content'', PStr (''Retrieved document '' @ digits i)),
      (''score'', PFloat (decayed 0.95 0.05 i)), (''metadata'', PDict [(''source'', PStr ''mock'')])]"

text \<open>\<open>range(min(top_k, 5))\<close>.\<close>

definition top_range :: "pyval \<Rightarrow> nat list res" where
  "top_range top_k = bindE (py_min top_k (PInt 5)) (\<lambda>m. bindE (py_index m) (\<lambda>n. Inr [0..<nat n]))"

definition vector_run :: "(pyval \<Rightarrow> string) \<Rightarrow> pydict \<Rightarrow> pydict \<Rightarrow> pydict res" where
  "vector_run fmt input_data config =
     (let merged = dmerge vector_defaults config;
          query_embedding = py_or (dget_dflt input_data ''query_embedding'' PNone)
                                  (dget_dflt input_data ''embedding'' PNone) in
      if \<not> truthy query_embedding \<and> dget input_data ''query'' \<noteq> None then
        Inl (NodeExecutionError ''retrieval'' (str_of fmt (dget_dflt merged ''step_id'' (PStr ''unknown'')))
               ''Query embedding required. Add embedding step before retrieval.'' [])
      else bindE (dget_or_raise merged ''top_k'') (\<lambda>top_k.
           bindE (top_range top_k) (\<lambda>is.
           Inr [(''results'', PList (map vector_result is)), (''count'', PInt (int (length is))),
                (''query_embedding'', query_embedding)])))"

definition top_k_check :: "pydict \<Rightarrow> config_error list res" where
  "top_k_check config =
     bindE (num_between 1 (dget_dflt config ''top_k'' (PInt 5)) 100) (\<lambda>in_range.
     Inr (complain (\<not> in_range) TopKRange))"

definition vector_validate_config :: "pydict \<Rightarrow> config_error list res" where
  "vector_validate_config config = top_k_check config"

definition hybrid_defaults :: pydict where
  "hybrid_defaults =
     [(''vector_weight'', PFloat (flit 0.7)), (''keyword_weight'', PFloat (flit 0.3)), (''top_k'', PInt 5)]"

definition hybrid_result :: "string \<Rightarrow> nat \<Rightarrow> pyval" where
  "hybrid_result query i = PDict
     [(''id'', PStr (''hybrid_'' @ digits i)),
      (''content'', PStr (''Hybrid result '' @ digits i @ '' for: '' @ query @ ''...'')),
      (''vector_score'', PFloat (decayed 0.9 0.05 i)), (''keyword_score'', PFloat (decayed 0.85 0.05 i)),
      (''combined_score'', PFloat (decayed 0.88 0.05 i))]"

text \<open>The slice of the query is only evaluated inside the comprehension, once per result.\<close>

definition hybrid_run :: "(pyval \<Rightarrow> string) \<Rightarrow> pydict \<Rightarrow> pydict \<Rightarrow> pydict res" where
  "hybrid_run fmt input_data config =
     (let merged = dmerge hybrid_defaults config; query = dget_dflt input_data ''query'' (PStr []) in
      bindE (dget_or_raise merged ''top_k'') (\<lambda>top_k.
      bindE (top_range top_k) (\<lambda>is.
      bindE (mapE (\<lambda>i. bindE (py_slice_to query (PInt 50)) (\<lambda>q. Inr (hybrid_result (str_of fmt q) i))) is)
        (\<lambda>results.
      bindE (py_min top_k (PInt 5)) (\<lambda>count.
      Inr [(''results'', PList results), (''count'', count)])))))"

section \<open>Reranking\<close>

definition reranker_defaults :: pydict where
  "reranker_defaults =
     [(''model'', PStr ''cross-encoder/ms-marco-MiniLM-L-6-v2''), (''top_k'', PInt 5), (''batch_size'', PInt 32)]"

text \<open>\<open>x.get("score", 0) * 1.1\<close>; only numbers can be multiplied by a float.\<close>

definition rerank_key :: "pyval \<Rightarrow> rat res" where
  "rerank_key x = bindE (py_get x ''score'' (PInt 0)) (\<lambda>s.
     case num_of s of None \<Rightarrow> Inl TypeError | Some q \<Rightarrow> Inr (fmul (flit q) (flit 1.1)))"

text \<open>
  The documents are objects of the caller: a store indexed by position. Sorting and slicing select
  positions; the rank fields are written into the selected objects, so the caller's documents
  change too (the list is taken to hold each object once). \<open>sorted\<close> with \<open>reverse=True\<close> keeps equal keys in their original order.
\<close>

definition rerank_positions :: "rat list \<Rightarrow> int \<Rightarrow> nat list" where
  "rerank_positions ks top_k = slice_to (sort_key (\<lambda>p. - (ks ! p)) [0..<length ks]) top_k"

fun rank_doc :: "pyval \<Rightarrow> nat \<Rightarrow> pyval" where
  "rank_doc (PDict d) i =
     PDict (dset (dset d ''rerank_score'' (PFloat (decayed 0.95 0.02 i))) ''rerank_position'' (PInt (int i + 1)))"
| "rank_doc v i = v"

fun write_ranks :: "nat list \<Rightarrow> nat \<Rightarrow> pyval list \<Rightarrow> pyval list" where
  "write_ranks [] i docs = docs"
| "write_ranks (p # ps) i docs = write_ranks ps (i + 1) (docs[p := rank_doc (docs ! p) i])"

text \<open>The output, and the caller's documents afterwards.\<close>

definition reranker_run :: "pydict \<Rightarrow> pydict \<Rightarrow> (pydict \<times> pyval list) res" where
  "reranker_run input_data config =
     (let merged = dmerge reranker_defaults config; query = dget_dflt input_data ''query'' (PStr []);
          documents = py_or (dget_dflt input_data ''results'' PNone) (dget_dflt input_data ''documents'' (PList []))
      in if \<not> truthy documents then Inr ([(''results'', PList []), (''query'', query)], [])
      else bindE (dget_or_raise merged ''top_k'') (\<lambda>cfg_k.
           bindE (py_len documents) (\<lambda>n.
           bindE (py_min cfg_k (PInt n)) (\<lambda>top_k.
           bindE (dget_or_raise merged ''model'') (\<lambda>model.
           bindE (py_iter documents) (\<lambda>docs.
           bindE (mapE rerank_key docs) (\<lambda>ks.
           bindE (py_index top_k) (\<lambda>k.
           let ps = rerank_positions ks k; docs' = write_ranks ps 0 docs in
           Inr ([(''results'', PList (map (\<lambda>p. docs' ! p) ps)), (''count'', PInt (int (length ps))),
                 (''query'', query), (''model'', model)], docs')))))))))"

definition reranker_validate_config :: "pydict \<Rightarrow> config_error list res" where
  "reranker_validate_config config = top_k_check config"

section \<open>Generation\<close>

definition generation_defaults :: pydict where
  "generation_defaults =
     [(''model'', PStr ''gpt-4o-mini''), (''temperature'', PFloat (flit 0.7)), (''max_tokens'', PInt 1000),
      (''system_prompt'', PStr ''You are a helpful assistant.'')]"

abbreviation newline :: char where
  "newline \<equiv> char_of (10 :: nat)"

definition doc_line :: "(pyval \<Rightarrow> string) \<Rightarrow> nat \<times> pyval \<Rightarrow> string res" where
  "doc_line fmt = (\<lambda>(i, doc). bindE (py_get doc ''content'' (PStr (str_of fmt doc))) (\<lambda>c.
     Inr (''Document '' @ digits (i + 1) @ '': '' @ str_of fmt c)))"

definition build_prompt :: "(pyval \<Rightarrow> string) \<Rightarrow> pyval \<Rightarrow> pyval \<Rightarrow> pyval res" where
  "build_prompt fmt context_docs query =
     (if truthy context_docs then
        bindE (py_slice_to context_docs (PInt 5)) (\<lambda>sl.
        bindE (py_iter sl) (\<lambda>docs.
        bindE (mapE (doc_line fmt) (enumerate 0 docs)) (\<lambda>ls.
        Inr (PStr (''Context:'' @ [newline] @ join [newline, newline] ls @ [newline, newline] @
               ''Question: '' @ str_of fmt query @ [newline, newline] @ ''Answer:'')))))
      else Inr query)"

definition generation_run :: "(pyval \<Rightarrow> string) \<Rightarrow> pydict \<Rightarrow> pydict \<Rightarrow> pydict res" where
  "generation_run fmt input_data config =
     (let merged = dmerge generation_defaults config;
          query = dget_dflt input_data ''query'' (dget_dflt input_data ''question'' (PStr []));
          context_docs = dget_dflt input_data ''results'' (dget_dflt input_data ''context'' (PList [])) in
      bindE (build_prompt fmt context_docs query) (\<lambda>prompt.
      bindE (dget_or_raise merged ''model'') (\<lambda>model.
      bindE (dget_or_raise merged ''temperature'') (\<lambda>temperature.
      bindE (dget_or_raise merged ''max_tokens'') (\<lambda>max_tokens.
      bindE (py_slice_to query (PInt 50)) (\<lambda>q.
      Inr [(''answer'', PStr (''Based on the context provided, I can answer: '' @ str_of fmt q @ ''...'')),
           (''prompt'', prompt), (''model'', model), (''temperature'', temperature),
           (''max_tokens'', max_tokens), (''finish_reason'', PStr ''stop'')]))))))"

definition generation_validate_config :: "pydict \<Rightarrow> config_error list res" where
  "generation_validate_config config =
     bindE (num_between 0 (dget_dflt config ''temperature'' (PFloat (flit 0.7))) 2) (\<lambda>temp_ok.
     bindE (num_between 1 (dget_dflt config ''max_tokens'' (PInt 1000)) 32000) (\<lambda>tokens_ok.
     Inr (complain (\<not> temp_ok) TemperatureRange @ complain (\<not> tokens_ok) MaxTokensRange)))"

section \<open>Lemmas\<close>

lemma top_k_check_reads:
  "dget d ''top_k'' = Some (PInt 5) \<Longrightarrow> top_k_check (read_view d [''top_k''] c) = top_k_check c"
  by (simp add: top_k_check_def dget_read_view)

lemma top_k_check_nothing: "top_k_check [] = Inr []"
  by (simp add: top_k_check_def dget_dflt_def num_of_PInt_between complain_def)

interpretation openai_cfg: configurable_node openai_defaults "[''model'', ''dimensions'']" openai_validate_config
proof
  show "openai_validate_config [] = Inr []"
    by (simp add: openai_validate_config_def openai_models_def dget_dflt_def num_of_PInt_between)
qed (auto simp: openai_validate_config_def openai_defaults_def dget_read_view)

interpretation ollama_cfg: configurable_node ollama_defaults "[]" default_validate_config
  by unfold_locales (simp_all add: default_validate_config_def)

interpretation vector_cfg: configurable_node vector_defaults "[''top_k'']" vector_validate_config
  by unfold_locales
    (simp_all add: vector_validate_config_def top_k_check_reads top_k_check_nothing vector_defaults_def)

interpretation hybrid_cfg: configurable_node hybrid_defaults "[]" default_validate_config
  by unfold_locales (simp_all add: default_validate_config_def)

interpretation reranker_cfg: configurable_node reranker_defaults "[''top_k'']" reranker_validate_config
  by unfold_locales
    (simp_all add: reranker_validate_config_def top_k_check_reads top_k_check_nothing reranker_defaults_def)

interpretation generation_cfg: configurable_node generation_defaults "[''temperature'', ''max_tokens'']" generation_validate_config
proof
  show "generation_validate_config [] = Inr []" by code_simp
qed (auto simp: generation_validate_config_def generation_defaults_def dget_read_view)

text \<open>Ranks are written to the selected positions and to nothing else.\<close>

lemma write_ranks_nth:
  assumes "distinct ps" and "set ps \<subseteq> {..<length docs}"
  shows "length (write_ranks ps i docs) = length docs \<and>
    (\<forall>j<length ps. write_ranks ps i docs ! (ps ! j) = rank_doc (docs ! (ps ! j)) (i + j)) \<and>
    (\<forall>q. q \<notin> set ps \<longrightarrow> write_ranks ps i docs ! q = docs ! q)"
  using assms
proof (induction ps arbitrary: i docs)
  case (Cons p ps)
  let ?docs = "docs[p := rank_doc (docs ! p) i]"
  have p: "p < length docs" "p \<notin> set ps" "distinct ps" "set ps \<subseteq> {..<length ?docs}"
    using Cons.prems by auto
  note IH = Cons.IH [OF p(3,4), of "i + 1"]
  have "write_ranks (p # ps) i docs ! ((p # ps) ! j) = rank_doc (docs ! ((p # ps) ! j)) (i + j)"
    if "j < length (p # ps)" for j
  proof (cases j)
    case 0
    then show ?thesis using IH p by simp
  next
    case (Suc m)
    then have "m < length ps" "ps ! m \<noteq> p" using that p(2) by (auto simp: in_set_conv_nth)
    then show ?thesis using IH Suc by simp
  qed
  then show ?case using IH by auto
qed simp

definition selects_best :: "rat list \<Rightarrow> nat list \<Rightarrow> bool" where
  "selects_best ks ps \<longleftrightarrow> distinct ps \<and> set ps \<subseteq> {..<length ks} \<and>
     (\<forall>i j. i < j \<and> j < length ps \<longrightarrow> ks ! (ps ! j) \<le> ks ! (ps ! i)) \<and>
     (\<forall>p\<in>set ps. \<forall>q<length ks. q \<notin> set ps \<longrightarrow> ks ! q \<le> ks ! p)"

lemma rerank_positions_best:
  assumes "0 \<le> k"
  shows "selects_best ks (rerank_positions ks k) \<and>
    length (rerank_positions ks k) = min (nat k) (length ks)"
proof -
  let ?f = "\<lambda>p. - (ks ! p)" and ?n = "nat k"
  let ?all = "sort_key ?f [0..<length ks]"
  have ps: "rerank_positions ks k = take ?n ?all" using assms by (simp add: rerank_positions_def slice_to_def)
  have all: "distinct ?all" "set ?all = {..<length ks}" "length ?all = length ks" by auto
  have desc: "ks ! (?all ! j) \<le> ks ! (?all ! i)" if "i \<le> j" "j < length ks" for i j
  proof -
    have "sorted (map ?f ?all)" by simp
    then have "map ?f ?all ! i \<le> map ?f ?all ! j" using that by (intro sorted_nth_mono) auto
    then show ?thesis using that by simp
  qed
  have "ks ! q \<le> ks ! p" if "p \<in> set (take ?n ?all)" "q < length ks" "q \<notin> set (take ?n ?all)" for p q
  proof -
    have "\<exists>i<length (take ?n ?all). take ?n ?all ! i = p" using that(1) by (simp only: in_set_conv_nth)
    then obtain i where i: "p = ?all ! i" "i < ?n" "i < length ks" by auto
    have "q \<in> set ?all" using that(2) all(2) by simp
    then obtain j where j: "q = ?all ! j" "j < length ks" using all(3) by (metis in_set_conv_nth)
    have "?n \<le> j"
    proof (rule ccontr)
      assume "\<not> ?n \<le> j"
      then have "take ?n ?all ! j = q" "j < length (take ?n ?all)" using j by auto
      then show False using that(3) nth_mem by blast
    qed
    then show ?thesis using i j desc [of i j] by simp
  qed
  moreover have "ks ! (take ?n ?all ! j) \<le> ks ! (take ?n ?all ! i)"
    if "i < j" "j < length (take ?n ?all)" for i j
    using desc [of i j] that by simp
  moreover have "set (take ?n ?all) \<subseteq> {..<length ks}" using set_take_subset [of ?n ?all] all(2) by simp
  ultimately show ?thesis using all(1) by (auto simp: ps selects_best_def)
qed

lemma reranker_run_docs:
  assumes "dget input_data ''results'' = Some (PList docs)" and "docs \<noteq> []"
    and "mapE rerank_key docs = Inr ks" and "dict_wf config"
    and "dget_dflt config ''top_k'' (PInt 5) = PInt k"
  shows "reranker_run input_data config =
    (let ps = rerank_positions ks (min k (int (length docs))); docs' = write_ranks ps 0 docs in
     Inr ([(''results'', PList (map (\<lambda>p. docs' ! p) ps)), (''count'', PInt (int (length ps))),
           (''query'', dget_dflt input_data ''query'' (PStr [])),
           (''model'', dget_dflt config ''model'' (PStr ''cross-encoder/ms-marco-MiniLM-L-6-v2''))], docs'))"
proof -
  have "dget_or_raise (dmerge reranker_defaults config) ''top_k'' = Inr (PInt k)"
    "dget_or_raise (dmerge reranker_defaults config) ''model'' =
       Inr (dget_dflt config ''model'' (PStr ''cross-encoder/ms-marco-MiniLM-L-6-v2''))"
    using assms(4,5) by (simp_all add: dget_merged reranker_defaults_def)
  then show ?thesis
    using assms by (simp add: reranker_run_def py_or_def dget_dflt_def [of input_data "''results''"] Let_def)
qed

text \<open>Five decaying scores.\<close>

lemma decayed_desc:
  "i < j \<Longrightarrow> j < 5 \<Longrightarrow> decayed 0.95 0.05 j < decayed 0.95 0.05 i"
proof -
  assume ij: "i < j" "j < 5"
  have "sorted_wrt (\<lambda>x y. y < x) (map (decayed 0.95 0.05) [0..<5])" by code_simp
  then show ?thesis using ij sorted_wrt_nth_less [of _ "map (decayed 0.95 0.05) [0..<5]" i j] by simp
qed

lemma top_range_PInt: "top_range (PInt k) = Inr [0..<nat (min k 5)]"
  by (simp add: top_range_def)

section \<open>Properties\<close>

text \<open>
  C27: The reranker returns the best documents: the selected positions are distinct, as many as the
  smaller of \<open>top_k\<close> and the number of documents, in descending order of boosted score, and no
  unselected document scores higher than a selected one. The document at place \<open>i\<close> carries the
  rank fields for \<open>i\<close>; every other document of the caller is unchanged.
\<close>

theorem reranker_selects_best:
  assumes "dget input_data ''results'' = Some (PList docs)" and "docs \<noteq> []"
    and "mapE rerank_key docs = Inr ks" and "dict_wf config"
    and "dget_dflt config ''top_k'' (PInt 5) = PInt k" and "0 \<le> k"
  shows "\<exists>ps out docs'. reranker_run input_data config = Inr (out, docs') \<and>
    dget out ''results'' = Some (PList (map (\<lambda>p. docs' ! p) ps)) \<and>
    selects_best ks ps \<and> length ps = min (nat k) (length docs) \<and>
    (\<forall>i<length ps. docs' ! (ps ! i) = rank_doc (docs ! (ps ! i)) i) \<and>
    (\<forall>q. q \<notin> set ps \<longrightarrow> docs' ! q = docs ! q)"
proof -
  let ?ps = "rerank_positions ks (min k (int (length docs)))"
  have len: "length ks = length docs" using assms(3) by (rule length_mapE)
  have best: "selects_best ks ?ps \<and> length ?ps = min (nat k) (length docs)"
    using rerank_positions_best [of "min k (int (length docs))" ks] assms(6) len by auto
  then have "distinct ?ps" "set ?ps \<subseteq> {..<length docs}" by (simp_all add: selects_best_def len)
  from write_ranks_nth [OF this, of 0] best show ?thesis
    by (subst reranker_run_docs [OF assms(1-5)]) (auto simp: Let_def)
qed

theorem reranker_selects_best_witness:
  "\<exists>ps out docs'. reranker_run [(''results'', PList [PDict [(''score'', PFloat (1/2))], PDict [], PDict [(''score'', PInt 1)]])]
      [(''top_k'', PInt 2)] = Inr (out, docs') \<and>
    dget out ''results'' = Some (PList (map (\<lambda>p. docs' ! p) ps)) \<and> length ps = 2"
proof -
  let ?docs = "[PDict [(''score'', PFloat (1/2))], PDict [], PDict [(''score'', PInt 1)]]"
  have "is_ok (mapE rerank_key ?docs)" by code_simp
  then obtain ks where "mapE rerank_key ?docs = Inr ks" by (auto simp: is_ok_iff)
  from reranker_selects_best [OF _ _ this, of "[(''results'', PList ?docs)]" "[(''top_k'', PInt 2)]" 2]
  show ?thesis by (simp add: dget_dflt_def eval_nat_numeral) blast
qed

text \<open>
  Under an accepted configuration the embedding node returns one vector per text, each of the
  configured dimension, which is between 256 and 3072. Validation only compares the dimension, so
  a fractional number passes it; running with such a configuration raises a TypeError.
\<close>

theorem openai_accepted_run:
  assumes "dict_wf c" and "openai_validate_config c = Inr []"
    and "input_texts input_data = PList texts" and "texts \<noteq> []"
  shows "(\<exists>n. dget_dflt c ''dimensions'' (PInt 1536) = PInt n \<and> 256 \<le> n \<and> n \<le> 3072 \<and>
      openai_run input_data c =
        Inr [(''embeddings'', zero_vectors (length texts) n), (''dimensions'', PInt n),
             (''model'', dget_dflt c ''model'' (PStr ''text-embedding-3-small'')),
             (''count'', PInt (int (length texts)))]) \<or>
    (\<exists>q. dget_dflt c ''dimensions'' (PInt 1536) = PFloat q \<and> openai_run input_data c = Inl TypeError)"
proof -
  let ?d = "dget_dflt c ''dimensions'' (PInt 1536)"
  have "num_between 256 ?d 3072 = Inr True"
    using assms(2) by (auto simp: openai_validate_config_def bindE_eq_Inr)
  then obtain q where q: "num_of ?d = Some q" "256 \<le> q" "q \<le> 3072" by (auto simp: num_between_iff)
  have run: "openai_run input_data c = bindE (py_index ?d) (\<lambda>n.
      Inr [(''embeddings'', zero_vectors (length texts) n), (''dimensions'', ?d),
           (''model'', dget_dflt c ''model'' (PStr ''text-embedding-3-small'')),
           (''count'', PInt (int (length texts)))])"
    using assms(1,3,4) by (simp add: openai_run_def openai_defaults_def dget_merged)
  show ?thesis
  proof (cases ?d)
    case (PInt n)
    with q have "256 \<le> n" "n \<le> 3072" by auto
    with run PInt show ?thesis by simp
  qed (use q run in \<open>auto split: if_splits\<close>)
qed

theorem openai_accepted_run_witness:
  "(\<exists>n. 256 \<le> n \<and> openai_run [(''texts'', PStr ''hello'')] [] =
      Inr [(''embeddings'', zero_vectors 1 n), (''dimensions'', PInt n),
           (''model'', PStr ''text-embedding-3-small''), (''count'', PInt 1)]) \<and>
   openai_validate_config [(''dimensions'', PFloat (1025/2))] = Inr [] \<and>
   openai_run [(''texts'', PStr ''hello'')] [(''dimensions'', PFloat (1025/2))] = Inl TypeError"
proof -
  have acc: "openai_validate_config [] = Inr []" "openai_validate_config [(''dimensions'', PFloat (1025/2))] = Inr []"
    and t: "input_texts [(''texts'', PStr ''hello'')] = PList [PStr ''hello'']" by code_simp+
  from openai_accepted_run [OF _ acc(1) t] openai_accepted_run [OF _ acc(2) t] acc(2)
  show ?thesis by (auto simp: dget_dflt_def)
qed

text \<open>
  With an integer \<open>top_k\<close> and an embedded query, vector retrieval returns the smaller of
  \<open>top_k\<close> and five results, numbered from zero and with strictly decreasing scores; a query that
  has not been embedded is refused with a node error, whatever the configuration.
\<close>

theorem vector_run_outcomes:
  assumes "dict_wf c" and "dget_dflt c ''top_k'' (PInt 5) = PInt k"
  shows "(if \<not> truthy (py_or (dget_dflt d ''query_embedding'' PNone) (dget_dflt d ''embedding'' PNone)) \<and>
            dget d ''query'' \<noteq> None
     then \<exists>sid. vector_run fmt d c = Inl (NodeExecutionError ''retrieval'' sid
            ''Query embedding required. Add embedding step before retrieval.'' [])
     else \<exists>out. vector_run fmt d c = Inr out \<and>
            dget out ''results'' = Some (PList (map vector_result [0..<nat (min k 5)])) \<and>
            dget out ''count'' = Some (PInt (max 0 (min k 5)))) \<and>
    (\<forall>i j. i < j \<and> j < nat (min k 5) \<longrightarrow> decayed 0.95 0.05 j < decayed 0.95 0.05 i)"
proof -
  have "dget_or_raise (dmerge vector_defaults c) ''top_k'' = Inr (PInt k)"
    using assms by (simp add: dget_merged vector_defaults_def)
  then show ?thesis using decayed_desc by (auto simp: vector_run_def top_range_PInt)
qed

theorem vector_run_outcomes_witness:
  "(\<exists>out. vector_run (\<lambda>_. []) [(''embedding'', PList [PFloat 1])] [(''top_k'', PInt 3)] = Inr out \<and>
      dget out ''count'' = Some (PInt 3)) \<and>
   (\<exists>sid. vector_run (\<lambda>_. []) [(''query'', PStr ''q'')] [] = Inl (NodeExecutionError ''retrieval'' sid
      ''Query embedding required. Add embedding step before retrieval.'' []))"
  using vector_run_outcomes [of "[(''top_k'', PInt 3)]" 3 "[(''embedding'', PList [PFloat 1])]" "\<lambda>_. []"]
    vector_run_outcomes [of "[]" 5 "[(''query'', PStr ''q'')]" "\<lambda>_. []"]
  by (simp add: dget_dflt_def py_or_def) blast

end
