(* ===== verification/Redaction.thy ===== *)
theory Redaction
  imports Prelude
begin

text \<open>
  The PII redaction of the output guardrail (\<open>OutputGuardrailNode._redact_pii\<close> in
  \<open>app/domain/workflows/nodes/guardrails.py\<close>): its three regular expressions, the greedy
  backtracking search that \<open>re.sub\<close> performs on them, and the proof that no phone number and no
  social security number is left in the result.
\<close>

section \<open>Redaction patterns\<close>

text \<open>
  The three patterns are sequences of greedy character-class repetitions and word boundaries. The
  matcher returns the text after the first match that greedy backtracking finds.
\<close>

datatype re_item = Boundary | Rep "char \<Rightarrow> bool" nat "nat option"

definition code_in :: "nat \<Rightarrow> nat \<Rightarrow> char \<Rightarrow> bool" where
  "code_in lo hi c \<longleftrightarrow> lo \<le> of_char c \<and> of_char c \<le> (hi :: nat)"

definition is_digit :: "char \<Rightarrow> bool" where "is_digit = code_in 48 57"
definition is_alpha :: "char \<Rightarrow> bool" where "is_alpha c \<longleftrightarrow> code_in 65 90 c \<or> code_in 97 122 c"

text \<open>\<open>\w\<close> on the modelled range: letters, digits and numerics of Latin-1, and the underscore.\<close>

definition is_word :: "char \<Rightarrow> bool" where
  "is_word c \<longleftrightarrow> is_digit c \<or> is_alpha c \<or> c = CHR ''_'' \<or>
     (of_char c :: nat) \<in> {170, 178, 179, 181, 185, 186, 188, 189, 190} \<or>
     (code_in 192 255 c \<and> of_char c \<noteq> (215 :: nat) \<and> of_char c \<noteq> (247 :: nat))"

definition at_boundary :: "char option \<Rightarrow> string \<Rightarrow> bool" where
  "at_boundary prev s \<longleftrightarrow>
     (case prev of None \<Rightarrow> False | Some c \<Rightarrow> is_word c) \<noteq> (case s of [] \<Rightarrow> False | c # _ \<Rightarrow> is_word c)"

function re_match :: "re_item list \<Rightarrow> char option \<Rightarrow> string \<Rightarrow> string option" where
  "re_match [] prev s = Some s"
| "re_match (Boundary # items) prev s = (if at_boundary prev s then re_match items prev s else None)"
| "re_match (Rep c lo hi # items) prev s =
     (case s of
        x # xs \<Rightarrow>
          if c x \<and> hi \<noteq> Some 0 then
            (case re_match (Rep c (lo - 1) (map_option (\<lambda>n. n - 1) hi) # items) (Some x) xs of
               Some rest \<Rightarrow> Some rest
             | None \<Rightarrow> if lo = 0 then re_match items prev s else None)
          else if lo = 0 then re_match items prev s else None
      | [] \<Rightarrow> if lo = 0 then re_match items prev s else None)"
  by pat_completeness auto
termination
  by (relation "measures [\<lambda>(items, _, _). length items, \<lambda>(_, _, s). length s]") auto

declare re_match.simps [simp del]

text \<open>\<open>re.sub(pattern, repl, s)\<close> for a pattern that never matches the empty string.\<close>

fun re_sub :: "re_item list \<Rightarrow> string \<Rightarrow> char option \<Rightarrow> string \<Rightarrow> string" where
  "re_sub items repl prev [] = []"
| "re_sub items repl prev (x # xs) =
     (case re_match items prev (x # xs) of
        None \<Rightarrow> x # re_sub items repl (Some x) xs
      | Some rest \<Rightarrow>
          if length rest \<le> length xs then
            repl @ re_sub items repl (Some ((x # xs) ! (length xs - length rest))) rest
          else x # re_sub items repl (Some x) xs)"

definition lit :: "char \<Rightarrow> re_item" where
  "lit c = Rep (\<lambda>x. x = c) 1 (Some 1)"

definition email_pattern :: "re_item list" where
  "email_pattern =
     [Boundary, Rep (\<lambda>c. is_alpha c \<or> is_digit c \<or> c \<in> set ''._%+-'') 1 None, lit CHR ''@'',
      Rep (\<lambda>c. is_alpha c \<or> is_digit c \<or> c \<in> set ''.-'') 1 None, lit CHR ''.'',
      Rep (\<lambda>c. is_alpha c \<or> c = CHR ''|'') 2 None, Boundary]"

definition phone_items :: "re_item list" where
  "phone_items =
     [Rep is_digit 3 (Some 3), Rep (\<lambda>c. c \<in> set ''-.'') 0 (Some 1), Rep is_digit 3 (Some 3),
      Rep (\<lambda>c. c \<in> set ''-.'') 0 (Some 1), Rep is_digit 4 (Some 4)]"

definition ssn_items :: "re_item list" where
  "ssn_items = [Rep is_digit 3 (Some 3), lit CHR ''-'', Rep is_digit 2 (Some 2), lit CHR ''-'', Rep is_digit 4 (Some 4)]"

definition redact_pii :: "string \<Rightarrow> string" where
  "redact_pii text =
     (let text = re_sub email_pattern ''[EMAIL]'' None text;
          text = re_sub (Boundary # phone_items @ [Boundary]) ''[PHONE]'' None text in
      re_sub (Boundary # ssn_items @ [Boundary]) ''[SSN]'' None text)"

section \<open>What a search decides\<close>

text \<open>
  The declarative reading of a pattern: \<open>re_lang items prev s t\<close> if the pattern can consume the
  part of \<open>s\<close> before \<open>t\<close> when \<open>prev\<close> is the character to the left.
\<close>

inductive re_lang :: "re_item list \<Rightarrow> char option \<Rightarrow> string \<Rightarrow> string \<Rightarrow> bool" where
  nothing: "re_lang [] prev s s"
| boundary: "at_boundary prev s \<Longrightarrow> re_lang items prev s t \<Longrightarrow> re_lang (Boundary # items) prev s t"
| stop: "re_lang items prev s t \<Longrightarrow> re_lang (Rep c 0 hi # items) prev s t"
| more: "c x \<Longrightarrow> hi \<noteq> Some 0 \<Longrightarrow>
    re_lang (Rep c (lo - 1) (map_option (\<lambda>n. n - 1) hi) # items) (Some x) xs t \<Longrightarrow>
    re_lang (Rep c lo hi # items) prev (x # xs) t"

inductive_cases re_lang_NilE: "re_lang [] prev s t"
inductive_cases re_lang_BoundaryE: "re_lang (Boundary # items) prev s t"
inductive_cases re_lang_RepE: "re_lang (Rep c lo hi # items) prev s t"

lemma re_match_sound: "re_match items prev s = Some t \<Longrightarrow> re_lang items prev s t"
proof (induction items prev s arbitrary: t rule: re_match.induct)
  case (1 prev s)
  then show ?case by (simp add: re_match.simps re_lang.nothing)
next
  case (2 items prev s)
  then show ?case by (auto simp: re_match.simps split: if_splits intro: re_lang.boundary)
next
  case (3 c lo hi items prev s)
  show ?case
  proof (cases s)
    case Nil
    with 3 show ?thesis by (auto simp: re_match.simps(3) split: if_splits intro: re_lang.stop)
  next
    case (Cons x xs)
    let ?step = "re_match (Rep c (lo - 1) (map_option (\<lambda>n. n - 1) hi) # items) (Some x) xs"
    show ?thesis
    proof (cases "c x \<and> hi \<noteq> Some 0 \<and> ?step = Some t")
      case True
      then have "re_lang (Rep c (lo - 1) (map_option (\<lambda>n. n - 1) hi) # items) (Some x) xs t"
        using 3(2) Cons by blast
      then show ?thesis using True Cons re_lang.more by blast
    next
      case False
      have step: "lo = 0 \<and> re_match items prev s = Some t \<and> (c x \<and> hi \<noteq> Some 0 \<longrightarrow> ?step = None)"
        using 3(5) False Cons by (auto simp: re_match.simps(3) [of c lo] split: if_splits option.splits)
      then have "re_lang items prev s t" using 3(3,4) Cons by blast
      then show ?thesis using step by (simp add: re_lang.stop)
    qed
  qed
qed

lemma re_match_complete: "re_lang items prev s t \<Longrightarrow> re_match items prev s \<noteq> None"
proof (induction rule: re_lang.induct)
  case (stop items prev s t c hi)
  then show ?case
    by (subst re_match.simps(3)) (auto split: list.splits option.splits)
next
  case (more c x hi lo items xs t prev)
  then show ?case by (auto simp: re_match.simps(3) [of c lo])
qed (auto simp: re_match.simps)

lemma re_lang_suffix: "re_lang items p s t \<Longrightarrow> \<exists>seg. s = seg @ t"
  by (induction rule: re_lang.induct) auto

text \<open>A pattern without boundaries consumes a segment that does not depend on the context.\<close>

lemma re_lang_segment:
  "re_lang items p s t \<Longrightarrow> Boundary \<notin> set items \<Longrightarrow>
     \<exists>seg. s = seg @ t \<and> (\<forall>p' t'. re_lang items p' (seg @ t') t')"
proof (induction rule: re_lang.induct)
  case (more c x hi lo items xs t prev)
  then obtain seg where seg: "xs = seg @ t"
    "\<forall>p' t'. re_lang (Rep c (lo - 1) (map_option (\<lambda>n. n - 1) hi) # items) p' (seg @ t') t'" by auto
  then have "\<forall>p' t'. re_lang (Rep c lo hi # items) p' ((x # seg) @ t') t'"
    using re_lang.more [of c x hi, OF more(1,2)] by simp
  with seg(1) show ?case by (metis append_Cons)
next
  case (stop items prev s t c hi)
  then show ?case using re_lang.stop by fastforce
qed (auto intro: re_lang.nothing)

text \<open>The character to the left after consuming a segment.\<close>

definition lastc :: "char option \<Rightarrow> string \<Rightarrow> char option" where
  "lastc p seg = (if seg = [] then p else Some (last seg))"

lemma lastc_simps [simp]: "lastc p [] = p" "lastc p (x # seg) = lastc (Some x) seg"
  by (simp_all add: lastc_def)

lemma re_lang_appendD:
  "re_lang (items @ rest) p s t \<Longrightarrow> Boundary \<notin> set items \<Longrightarrow>
     \<exists>seg m. s = seg @ m \<and> re_lang items p s m \<and> re_lang rest (lastc p seg) m t"
proof (induction "items @ rest" p s t arbitrary: items rule: re_lang.induct)
  case (nothing prev s)
  then show ?case by (auto intro: re_lang.nothing exI [of _ "[]"])
next
  case (boundary prev s items' t)
  then have "items = []" by (cases items) auto
  with boundary show ?case
    by (intro exI [of _ "[]"] exI [of _ s]) (auto intro: re_lang.intros)
next
  case (stop items' prev s t c hi)
  show ?case
  proof (cases items)
    case Nil
    then show ?thesis using stop
      by (intro exI [of _ "[]"] exI [of _ s]) (auto intro: re_lang.intros)
  next
    case (Cons a as)
    then have a: "a = Rep c 0 hi" "items' = as @ rest" "Boundary \<notin> set as"
      using stop.hyps(3) stop.prems by auto
    with stop.hyps(2) [of as] obtain seg m where
      m: "s = seg @ m" "re_lang as prev s m" "re_lang rest (lastc prev seg) m t" by blast
    have "re_lang items prev s m" unfolding Cons a(1) by (rule re_lang.stop [OF m(2)])
    with m show ?thesis by blast
  qed
next
  case (more c x hi lo items' xs t prev)
  show ?case
  proof (cases items)
    case Nil
    then show ?thesis using more re_lang.more [of c x hi, OF more(1,2,3)]
      by (intro exI [of _ "[]"] exI [of _ "x # xs"]) (auto intro: re_lang.intros)
  next
    case (Cons a as)
    then have a: "a = Rep c lo hi" "items' = as @ rest" using more.hyps(5) by auto
    with more Cons obtain seg m where m: "xs = seg @ m"
      "re_lang (Rep c (lo - 1) (map_option (\<lambda>n. n - 1) hi) # as) (Some x) xs m"
      "re_lang rest (lastc (Some x) seg) m t"
      using more.hyps(4) [of "Rep c (lo - 1) (map_option (\<lambda>n. n - 1) hi) # as"] by auto
    then have "re_lang items prev (x # xs) m" using Cons a re_lang.more [of c x hi, OF more(1,2)] by blast
    with m show ?thesis by (intro exI [of _ "x # seg"] exI [of _ m]) simp
  qed
qed

lemma re_lang_appendI:
  "re_lang items p s m \<Longrightarrow> s = seg @ m \<Longrightarrow> re_lang rest (lastc p seg) m t \<Longrightarrow> re_lang (items @ rest) p s t"
proof (induction arbitrary: seg rule: re_lang.induct)
  case (more c x hi lo items xs m prev)
  have "\<exists>seg'. seg = x # seg' \<and> xs = seg' @ m"
  proof (cases seg)
    case Nil
    obtain seg0 where "xs = seg0 @ m" using re_lang_suffix [OF more(3)] by blast
    with Nil more.prems(1) show ?thesis by simp
  qed (use more.prems in auto)
  then obtain seg' where seg': "seg = x # seg'" "xs = seg' @ m" by blast
  then have "re_lang (Rep c (lo - 1) (map_option (\<lambda>n. n - 1) hi) # items @ rest) (Some x) xs t"
    using more.IH [OF seg'(2)] more.prems(2) by (simp only: lastc_simps append_Cons)
  from re_lang.more [of c x hi, OF more(1,2) this] show ?case by (simp only: append_Cons)
qed (auto intro: re_lang.intros)

section \<open>Tokens between word boundaries\<close>

definition token_char :: "char \<Rightarrow> bool" where
  "token_char c \<longleftrightarrow> is_digit c \<or> c = CHR ''-'' \<or> c = CHR ''.''"

definition word_before :: "char option \<Rightarrow> bool" where
  "word_before p = (case p of None \<Rightarrow> False | Some c \<Rightarrow> is_word c)"

definition word_after :: "string \<Rightarrow> bool" where
  "word_after s = (case s of [] \<Rightarrow> False | c # _ \<Rightarrow> is_word c)"

lemma word_simps [simp]:
  "\<not> word_before None" "word_before (Some c) = is_word c"
  "\<not> word_after []" "word_after (c # s) = is_word c"
  by (simp_all add: word_before_def word_after_def)

lemma at_boundary_iff: "at_boundary p s \<longleftrightarrow> word_before p \<noteq> word_after s"
  by (simp add: at_boundary_def word_before_def word_after_def)

lemma digit_word [simp]: "is_digit c \<Longrightarrow> is_word c"
  by (simp add: is_word_def)

text \<open>\<open>items\<close> describes tokens: they start and end with a digit and have no other characters than \<open>token_char\<close>.\<close>

locale token_pattern =
  fixes items :: "re_item list"
  assumes plain: "Boundary \<notin> set items"
    and shape: "re_lang items p s t \<Longrightarrow> s = seg @ t \<Longrightarrow>
      seg \<noteq> [] \<and> is_digit (hd seg) \<and> is_digit (last seg) \<and> list_all token_char seg"
begin

definition token :: "string \<Rightarrow> bool" where
  "token seg \<longleftrightarrow> (\<forall>p t. re_lang items p (seg @ t) t)"

lemma token_shape: "token seg \<Longrightarrow> seg \<noteq> [] \<and> is_digit (hd seg) \<and> is_digit (last seg) \<and> list_all token_char seg"
  using shape [of None "seg @ []" "[]" seg] unfolding token_def by blast

lemma delimited_iff:
  "re_lang (Boundary # items @ [Boundary]) p s t \<longleftrightarrow>
     (\<exists>seg. s = seg @ t \<and> token seg \<and> \<not> word_before p \<and> \<not> word_after t)"
proof
  assume "re_lang (Boundary # items @ [Boundary]) p s t"
  then have b: "at_boundary p s" "re_lang (items @ [Boundary]) p s t" by (auto elim: re_lang_BoundaryE)
  from re_lang_appendD [OF b(2) plain] obtain seg m where
    m: "s = seg @ m" "re_lang items p s m" "re_lang [Boundary] (lastc p seg) m t" by blast
  from m(3) have t: "m = t" "at_boundary (lastc p seg) m"
    by (auto elim!: re_lang_BoundaryE re_lang_NilE)
  have sh: "seg \<noteq> [] \<and> is_digit (hd seg) \<and> is_digit (last seg)" using shape [OF m(2,1)] by blast
  obtain seg' where "s = seg' @ m" "\<forall>p' t'. re_lang items p' (seg' @ t') t'"
    using re_lang_segment [OF m(2) plain] by blast
  then have "token seg" using m(1) by (simp add: token_def)
  moreover have "\<not> word_before p" using b(1) sh m(1) by (cases seg) (auto simp: at_boundary_iff)
  moreover have "\<not> word_after t" using t sh by (simp add: at_boundary_iff lastc_def)
  ultimately show "\<exists>seg. s = seg @ t \<and> token seg \<and> \<not> word_before p \<and> \<not> word_after t" using m(1) t by blast
next
  assume "\<exists>seg. s = seg @ t \<and> token seg \<and> \<not> word_before p \<and> \<not> word_after t"
  then obtain seg where seg: "s = seg @ t" "token seg" "\<not> word_before p" "\<not> word_after t" by blast
  have sh: "seg \<noteq> [] \<and> is_digit (hd seg) \<and> is_digit (last seg)" using token_shape [OF seg(2)] by blast
  have "re_lang [Boundary] (lastc p seg) t t"
    using sh seg(4) by (intro re_lang.boundary re_lang.nothing) (simp add: at_boundary_iff lastc_def)
  moreover have "re_lang items p s t" using seg(1,2) by (simp add: token_def)
  ultimately have "re_lang (items @ [Boundary]) p s t" using seg(1) re_lang_appendI by blast
  moreover have "at_boundary p s" using sh seg(1,3) by (cases seg) (auto simp: at_boundary_iff)
  ultimately show "re_lang (Boundary # items @ [Boundary]) p s t" by (rule re_lang.boundary [rotated])
qed

text \<open>A text has a delimited token somewhere.\<close>

definition occurs :: "char option \<Rightarrow> string \<Rightarrow> bool" where
  "occurs p s \<longleftrightarrow> (\<exists>u seg v. s = u @ seg @ v \<and> token seg \<and> \<not> word_before (lastc p u) \<and> \<not> word_after v)"

end

text \<open>\<open>re.search\<close>: some position matches.\<close>

fun re_search :: "re_item list \<Rightarrow> char option \<Rightarrow> string \<Rightarrow> bool" where
  "re_search items prev [] = (re_match items prev [] \<noteq> None)"
| "re_search items prev (x # xs) = (re_match items prev (x # xs) \<noteq> None \<or> re_search items (Some x) xs)"

lemma re_search_iff:
  "re_search items p s \<longleftrightarrow> (\<exists>u v t. s = u @ v \<and> re_lang items (lastc p u) v t)"
proof (induction s arbitrary: p)
  case Nil
  then show ?case using re_match_sound re_match_complete by fastforce
next
  case (Cons x xs)
  have "(\<exists>u v t. x # xs = u @ v \<and> re_lang items (lastc p u) v t) \<longleftrightarrow>
      (\<exists>t. re_lang items p (x # xs) t) \<or> (\<exists>u v t. xs = u @ v \<and> re_lang items (lastc (Some x) u) v t)"
  proof
    assume "\<exists>u v t. x # xs = u @ v \<and> re_lang items (lastc p u) v t"
    then obtain u v t where "x # xs = u @ v" "re_lang items (lastc p u) v t" by blast
    then show "(\<exists>t. re_lang items p (x # xs) t) \<or> (\<exists>u v t. xs = u @ v \<and> re_lang items (lastc (Some x) u) v t)"
      by (cases u) auto
  next
    assume "(\<exists>t. re_lang items p (x # xs) t) \<or> (\<exists>u v t. xs = u @ v \<and> re_lang items (lastc (Some x) u) v t)"
    then show "\<exists>u v t. x # xs = u @ v \<and> re_lang items (lastc p u) v t"
    proof
      assume "\<exists>t. re_lang items p (x # xs) t"
      then have "\<exists>t. x # xs = [] @ (x # xs) \<and> re_lang items (lastc p []) (x # xs) t" by simp
      then show ?thesis by blast
    next
      assume "\<exists>u v t. xs = u @ v \<and> re_lang items (lastc (Some x) u) v t"
      then obtain u v t where "xs = u @ v" "re_lang items (lastc (Some x) u) v t" by blast
      then show ?thesis by (intro exI [of _ "x # u"] exI [of _ v] exI [of _ t]) simp
    qed
  qed
  moreover have "re_match items p (x # xs) \<noteq> None \<longleftrightarrow> (\<exists>t. re_lang items p (x # xs) t)"
    using re_match_sound re_match_complete by blast
  ultimately show ?case using Cons.IH by simp
qed

section \<open>Substitution leaves no token behind\<close>

text \<open>
  \<open>items\<close> are replaced by \<open>repl\<close>, which shares no character with tokens and ends in a non-word
  character; \<open>seen\<close> are the tokens looked for afterwards.
\<close>

locale redactor = tok: token_pattern items + seen: token_pattern seen for items seen +
  fixes repl :: string
  assumes repl_ne: "repl \<noteq> []"
    and repl_chars: "list_all (\<lambda>c. \<not> token_char c) repl"
begin

abbreviation sub :: "char option \<Rightarrow> string \<Rightarrow> string" where
  "sub \<equiv> re_sub (Boundary # items @ [Boundary]) repl"

lemma match_delimited:
  assumes "re_match (Boundary # items @ [Boundary]) p s = Some t"
  shows "\<exists>seg. s = seg @ t \<and> seg \<noteq> [] \<and> is_digit (last seg) \<and> \<not> word_before p \<and> \<not> word_after t"
  using re_match_sound [OF assms] tok.delimited_iff tok.token_shape by blast

text \<open>The two shapes of one step of the substitution.\<close>

lemma sub_Cons_cases:
  obtains (kept) "re_match (Boundary # items @ [Boundary]) p (x # xs) = None" "sub p (x # xs) = x # sub (Some x) xs"
  | (hit) seg t where "x # xs = seg @ t" "seg \<noteq> []" "is_digit (last seg)" "\<not> word_before p" "\<not> word_after t"
      "sub p (x # xs) = repl @ sub (Some (last seg)) t"
proof (cases "re_match (Boundary # items @ [Boundary]) p (x # xs)")
  case None
  then show ?thesis using kept by simp
next
  case (Some t)
  then obtain seg where seg: "x # xs = seg @ t" "seg \<noteq> []" "is_digit (last seg)" "\<not> word_before p" "\<not> word_after t"
    using match_delimited by blast
  then have "length xs - length t = length seg - 1" "length t \<le> length xs"
    by (auto simp: Cons_eq_append_conv)
  moreover have "(x # xs) ! (length seg - 1) = last seg"
    unfolding seg(1) using seg(2) by (simp add: last_conv_nth nth_append)
  ultimately have "sub p (x # xs) = repl @ sub (Some (last seg)) t" using Some by simp
  with seg show ?thesis using hit by blast
qed

text \<open>A run of token characters in the output that starts in kept text was there before.\<close>

lemma kept_run:
  assumes "sub (Some x) xs = seg @ v" and "list_all token_char seg"
    and "is_digit (last (x # seg))" and "\<not> word_after v"
  shows "\<exists>v0. xs = seg @ v0 \<and> \<not> word_after v0"
  using assms
proof (induction seg arbitrary: x xs)
  case Nil
  show ?case
  proof (cases xs)
    case (Cons y ys)
    show ?thesis
      using Nil.prems Cons by (cases rule: sub_Cons_cases [of "Some x" y ys]) auto
  qed simp
next
  case (Cons y seg)
  then obtain z zs where xs: "xs = z # zs" by (cases xs) auto
  show ?case
  proof (cases rule: sub_Cons_cases [of "Some x" z zs])
    case kept
    then have "z = y" "sub (Some y) zs = seg @ v" using Cons.prems(1) xs by auto
    then show ?thesis using Cons.IH [of y zs] Cons.prems xs by auto
  next
    case (hit w t)
    then have "hd repl = y" using Cons.prems(1) xs repl_ne by (cases repl) auto
    then show ?thesis using Cons.prems(2) repl_chars repl_ne by (cases repl) auto
  qed
qed

text \<open>Token characters cannot come from a replacement.\<close>

lemma outside_repl:
  assumes "repl @ out = u @ seg @ v" and "seg \<noteq> []" and "token_char (hd seg)"
  shows "\<exists>u'. u = repl @ u' \<and> out = u' @ seg @ v"
proof -
  have "length repl \<le> length u"
  proof (rule ccontr)
    assume "\<not> length repl \<le> length u"
    then have "(repl @ out) ! length u \<in> set repl" by (simp add: nth_append)
    moreover have "(repl @ out) ! length u = hd seg" using assms(2) by (simp add: assms(1) nth_append hd_conv_nth)
    ultimately show False using assms(3) repl_chars by (auto simp: list_all_iff)
  qed
  then show ?thesis using assms(1) by (metis append_eq_append_conv_if append_eq_conv_conj append_take_drop_id append.assoc)
qed

lemma sub_transfer:
  assumes "sub p s = u @ seg @ v" and "seen.token seg"
    and "\<not> word_before (lastc p' u)" and "\<not> word_after v" and "p' = p \<or> \<not> word_after s"
  shows "\<exists>u0 v0. s = u0 @ seg @ v0 \<and> \<not> word_before (lastc p u0) \<and> \<not> word_after v0 \<and>
    re_match (Boundary # items @ [Boundary]) (lastc p u0) (seg @ v0) = None"
  using assms
proof (induction s arbitrary: p p' u rule: length_induct)
  case (1 s)
  note sh = seen.token_shape [OF 1(3)]
  show ?case
  proof (cases s)
    case Nil
    then show ?thesis using 1(2) sh by simp
  next
    case (Cons x xs)
    show ?thesis
    proof (cases rule: sub_Cons_cases [of p x xs])
      case kept
      show ?thesis
      proof (cases u)
        case Nil
        then obtain seg' where seg': "seg = x # seg'" "sub (Some x) xs = seg' @ v"
          using 1(2) Cons kept sh by (cases seg) auto
        then obtain v0 where "xs = seg' @ v0" "\<not> word_after v0"
          using kept_run [OF seg'(2)] sh 1(5) by auto
        moreover have "\<not> word_before p" using 1(4,6) Nil Cons seg'(1) sh by auto
        ultimately show ?thesis using Cons seg'(1) kept(1) by (intro exI [of _ "[]"] exI [of _ v0]) simp
      next
        case u: (Cons y u')
        then have "y = x" "sub (Some x) xs = u' @ seg @ v" using 1(2) Cons kept by auto
        then obtain u0 v0 where "xs = u0 @ seg @ v0" "\<not> word_before (lastc (Some x) u0)" "\<not> word_after v0"
          "re_match (Boundary # items @ [Boundary]) (lastc (Some x) u0) (seg @ v0) = None"
          using 1(1) [rule_format, of xs "Some x" u' "Some x"] 1(3,4,5) u Cons by auto
        then show ?thesis using Cons by (intro exI [of _ "x # u0"] exI [of _ v0]) simp
      qed
    next
      case (hit w t)
      have "repl @ sub (Some (last w)) t = u @ seg @ v" using 1(2) Cons hit by simp
      moreover have "token_char (hd seg)" using sh by (auto simp: token_char_def)
      ultimately obtain u' where u': "u = repl @ u'" "sub (Some (last w)) t = u' @ seg @ v"
        using outside_repl sh by blast
      have "length t < length s" using hit(1,2) Cons by (metis length_append length_greater_0_conv less_add_same_cancel2)
      moreover have "lastc p' u = lastc (Some (last repl)) u'" using u'(1) repl_ne by (simp add: lastc_def)
      ultimately obtain u0 v0 where r: "t = u0 @ seg @ v0" "\<not> word_before (lastc (Some (last w)) u0)" "\<not> word_after v0"
        "re_match (Boundary # items @ [Boundary]) (lastc (Some (last w)) u0) (seg @ v0) = None"
        using 1(1) [rule_format, of t "Some (last w)" u' "Some (last repl)"] 1(3,4,5) u'(2) hit(5) by auto
      have "lastc p (w @ u0) = lastc (Some (last w)) u0" using hit(2) by (simp add: lastc_def)
      then show ?thesis using r hit(1) Cons by (intro exI [of _ "w @ u0"] exI [of _ v0]) simp
    qed
  qed
qed

lemma sub_no_new:
  "\<not> re_search (Boundary # seen @ [Boundary]) None s \<Longrightarrow>
   \<not> re_search (Boundary # seen @ [Boundary]) None (sub None s)"
  using sub_transfer [of None s _ _ _ None] unfolding re_search_iff seen.delimited_iff
  by (metis append.assoc)

end

lemma sub_leaves_none:
  assumes "redactor items items repl"
  shows "\<not> re_search (Boundary # items @ [Boundary]) None (re_sub (Boundary # items @ [Boundary]) repl None s)"
proof
  assume "re_search (Boundary # items @ [Boundary]) None (re_sub (Boundary # items @ [Boundary]) repl None s)"
  moreover have tp: "token_pattern items" using assms by (simp add: redactor_def)
  ultimately obtain u seg v where occ: "re_sub (Boundary # items @ [Boundary]) repl None s = u @ seg @ v"
    "token_pattern.token items seg" "\<not> word_before (lastc None u)" "\<not> word_after v"
    unfolding re_search_iff token_pattern.delimited_iff [OF tp] by blast
  from redactor.sub_transfer [OF assms this] obtain u0 v0 where
    "s = u0 @ seg @ v0" "\<not> word_before (lastc None u0)" "\<not> word_after v0"
    "re_match (Boundary # items @ [Boundary]) (lastc None u0) (seg @ v0) = None" by blast
  then show False
    using re_match_complete token_pattern.delimited_iff [OF tp] occ(2) by blast
qed

section \<open>Phone numbers and social security numbers are tokens\<close>

lemma rep_segment:
  "re_lang (Rep c lo hi # items) p s t \<Longrightarrow>
     \<exists>seg m p'. s = seg @ m \<and> lo \<le> length seg \<and> list_all c seg \<and> re_lang items p' m t"
proof (induction "Rep c lo hi # items" p s t arbitrary: lo hi rule: re_lang.induct)
  case (stop prev s t)
  then show ?case by (intro exI [of _ "[]"] exI [of _ s] exI [of _ prev]) auto
next
  case (more x hi lo xs t prev)
  then obtain seg m p' where "xs = seg @ m" "lo - 1 \<le> length seg" "list_all c seg" "re_lang items p' m t" by blast
  then show ?case using more(1) by (intro exI [of _ "x # seg"] exI [of _ m]) auto
qed

text \<open>Five repetitions, the outer two of digits.\<close>

lemma five_reps_shape:
  assumes "re_lang [Rep is_digit (Suc k) h1, Rep c2 l2 h2, Rep is_digit l3 h3, Rep c4 l4 h4, Rep is_digit (Suc l) h5] p s t"
    and "\<And>x. c2 x \<Longrightarrow> token_char x" "\<And>x. c4 x \<Longrightarrow> token_char x" and "s = seg @ t"
  shows "seg \<noteq> [] \<and> is_digit (hd seg) \<and> is_digit (last seg) \<and> list_all token_char seg"
proof -
  obtain s1 m1 p1 where 1: "s = s1 @ m1" "Suc k \<le> length s1" "list_all is_digit s1"
    "re_lang [Rep c2 l2 h2, Rep is_digit l3 h3, Rep c4 l4 h4, Rep is_digit (Suc l) h5] p1 m1 t"
    using rep_segment [OF assms(1)] by blast
  obtain s2 m2 p2 where 2: "m1 = s2 @ m2" "list_all c2 s2"
    "re_lang [Rep is_digit l3 h3, Rep c4 l4 h4, Rep is_digit (Suc l) h5] p2 m2 t"
    using rep_segment [OF 1(4)] by blast
  obtain s3 m3 p3 where 3: "m2 = s3 @ m3" "list_all is_digit s3"
    "re_lang [Rep c4 l4 h4, Rep is_digit (Suc l) h5] p3 m3 t" using rep_segment [OF 2(3)] by blast
  obtain s4 m4 p4 where 4: "m3 = s4 @ m4" "list_all c4 s4" "re_lang [Rep is_digit (Suc l) h5] p4 m4 t"
    using rep_segment [OF 3(3)] by blast
  obtain s5 m5 p5 where 5: "m4 = s5 @ m5" "Suc l \<le> length s5" "list_all is_digit s5" "re_lang [] p5 m5 t"
    using rep_segment [OF 4(3)] by blast
  then have "m5 = t" by (auto elim: re_lang_NilE)
  then have seg: "seg = s1 @ s2 @ s3 @ s4 @ s5" using 1(1) 2(1) 3(1) 4(1) 5(1) assms(4) by simp
  have ends: "s1 \<noteq> []" "s5 \<noteq> []" using 1(2) 5(2) by auto
  then have "is_digit (hd s1)" "is_digit (last s5)" using 1(3) 5(3) by (auto simp: list_all_iff)
  moreover have "list_all token_char s" if "list_all is_digit s" for s
    using that by (auto simp: list_all_iff token_char_def)
  moreover have "list_all token_char s2" "list_all token_char s4"
    using 2(2) 4(2) assms(2,3) by (auto simp: list_all_iff)
  ultimately show ?thesis using ends 1(3) 3(2) 5(3) by (simp add: seg)
qed

interpretation phone: token_pattern phone_items
proof
  show "Boundary \<notin> set phone_items" by (simp add: phone_items_def)
  fix p s t seg assume r: "re_lang phone_items p s t" and s: "s = seg @ t"
  show "seg \<noteq> [] \<and> is_digit (hd seg) \<and> is_digit (last seg) \<and> list_all token_char seg"
    by (rule five_reps_shape [OF r [unfolded phone_items_def eval_nat_numeral] _ _ s]) (auto simp: token_char_def)
qed

interpretation ssn: token_pattern ssn_items
proof
  show "Boundary \<notin> set ssn_items" by (simp add: ssn_items_def lit_def)
  fix p s t seg assume r: "re_lang ssn_items p s t" and s: "s = seg @ t"
  show "seg \<noteq> [] \<and> is_digit (hd seg) \<and> is_digit (last seg) \<and> list_all token_char seg"
    by (rule five_reps_shape [OF r [unfolded ssn_items_def lit_def eval_nat_numeral] _ _ s]) (auto simp: token_char_def)
qed

interpretation phone_sub: redactor phone_items phone_items "''[PHONE]''"
  by unfold_locales (simp_all add: token_char_def is_digit_def code_in_def)

interpretation ssn_sub: redactor ssn_items ssn_items "''[SSN]''"
  by unfold_locales (simp_all add: token_char_def is_digit_def code_in_def)

interpretation ssn_keeps: redactor ssn_items phone_items "''[SSN]''"
  by unfold_locales (simp_all add: token_char_def is_digit_def code_in_def)

lemma re_sub_unchanged: "\<not> re_search items p s \<Longrightarrow> re_sub items repl p s = s"
  by (induction s arbitrary: p) auto

lemma redact_pii_finds_none:
  "\<not> re_search (Boundary # phone_items @ [Boundary]) None (redact_pii text)"
  "\<not> re_search (Boundary # ssn_items @ [Boundary]) None (redact_pii text)"
  unfolding redact_pii_def Let_def
  by (rule ssn_keeps.sub_no_new [OF sub_leaves_none [OF phone_sub.redactor_axioms]],
      rule sub_leaves_none [OF ssn_sub.redactor_axioms])

section \<open>Properties\<close>

text \<open>
  C7: Redaction is complete for phone numbers and social security numbers: searching the redacted
  text for either pattern finds nothing, whatever the input was.
\<close>

theorem redact_pii_complete:
  "\<not> re_search (Boundary # phone_items @ [Boundary]) None (redact_pii text) \<and>
   \<not> re_search (Boundary # ssn_items @ [Boundary]) None (redact_pii text)"
  using redact_pii_finds_none by blast

text \<open>
  Redaction touches nothing else: a text in which none of the three patterns is found comes
  back unchanged.
\<close>

theorem redact_pii_unchanged:
  assumes "\<not> re_search email_pattern None text"
    and "\<not> re_search (Boundary # phone_items @ [Boundary]) None text"
    and "\<not> re_search (Boundary # ssn_items @ [Boundary]) None text"
  shows "redact_pii text = text"
  using assms by (simp add: redact_pii_def re_sub_unchanged)

text \<open>A text without personal data, and one that mentions all three kinds.\<close>

theorem redact_pii_unchanged_witness:
  "redact_pii ''42 at x.y'' = ''42 at x.y'' \<and>
   redact_pii ''a.b@c.org 555-123.4567 123-45-6789!'' = ''[EMAIL] [PHONE] [SSN]!''"
proof
  show "redact_pii ''42 at x.y'' = ''42 at x.y''" by (rule redact_pii_unchanged) code_simp+
  show "redact_pii ''a.b@c.org 555-123.4567 123-45-6789!'' = ''[EMAIL] [PHONE] [SSN]!''" by code_simp
qed

end
