(* ===== verification/Guard_Nodes.thy ===== *)
theory Guard_Nodes
  imports Node_Base Redaction
begin

text \<open>
  The evaluation node (\<open>nodes/evaluation.py\<close>) and the two guardrail nodes (\<open>nodes/guardrails.py\<close>)
  Blocked patterns come from the configuration and are arbitrary expressions, so \<open>search\<close>
  (\<open>re.search(pattern, text, re.IGNORECASE)\<close>, which may raise) is a parameter; \<open>draw seed i\<close> is the
  \<open>i\<close>-th value of \<open>random.uniform(0.6, 0.95)\<close> after seeding from the hash of \<open>seed\<close>.
\<close>

section \<open>RagasEvalNode\<close>

definition ragas_defaults :: pydict where
  "ragas_defaults =
     [(''metrics'', PList [PStr ''faithfulness'', PStr ''answer_relevancy'']),
      (''llm_model'', PStr ''gpt-4o-mini''), (''embedding_model'', PStr ''text-embedding-3-small'')]"

text \<open>\<open>sum\<close> of floats in the interpreter the service runs on carries a compensation term.\<close>

fun comp_sum :: "rat \<Rightarrow> rat \<Rightarrow> rat list \<Rightarrow> rat" where
  "comp_sum hi lo [] = (if lo \<noteq> 0 then fadd hi lo else hi)"
| "comp_sum hi lo (x # xs) =
     (let t = fadd hi x in
      comp_sum t (if \<bar>x\<bar> \<le> \<bar>hi\<bar> then fadd lo (fadd (fsub hi t) x) else fadd lo (fadd (fsub x t) hi)) xs)"

fun py_sum :: "rat list \<Rightarrow> rat" where
  "py_sum [] = 0"
| "py_sum (x # xs) = comp_sum x 0 xs"

text \<open>
  The scoring loop. The seed of the last metric stays in force for the draw after the loop: the
  state is the score table and the last seed, \<open>None\<close> while \<open>random\<close> is still unbound.
\<close>

fun score_loop ::
  "(string \<Rightarrow> nat \<Rightarrow> rat) \<Rightarrow> pyval \<Rightarrow> pyval list \<Rightarrow> (string, rat) dict \<Rightarrow> string option \<Rightarrow>
   ((string, rat) dict \<times> string option) res" where
  "score_loop draw question [] scores seed = Inr (scores, seed)"
| "score_loop draw question (m # ms) scores seed =
     (case (question, m) of
        (PStr q, PStr k) \<Rightarrow>
          score_loop draw question ms (dset scores k (round2 (draw (q @ k) 0))) (Some (q @ k))
      | _ \<Rightarrow> Inl TypeError)"

definition ragas_run :: "(string \<Rightarrow> nat \<Rightarrow> rat) \<Rightarrow> pydict \<Rightarrow> pydict \<Rightarrow> pydict res" where
  "ragas_run draw input_data config =
     (let merged = dmerge ragas_defaults config;
          question = dget_dflt input_data ''question'' (dget_dflt input_data ''query'' (PStr []));
          ground_truth = dget_dflt input_data ''ground_truth'' PNone in
      bindE (dget_or_raise merged ''metrics'') (\<lambda>metrics.
      bindE (py_len question) (\<lambda>_.
      bindE (py_iter metrics) (\<lambda>ms.
      bindE (score_loop draw question ms [] None) (\<lambda>(scores, seed).
      let result =
        [(''scores'', PDict (map (\<lambda>(k, s). (k, PFloat s)) scores)), (''metrics'', metrics),
         (''overall_score'', if scores \<noteq> []
            then PFloat (round2 (fdiv (py_sum (dvalues scores)) (of_nat (length scores)))) else PInt 0),
         (''passed'', PBool (list_all (\<lambda>s. flit 0.7 \<le> s) (dvalues scores)))] in
      if truthy ground_truth then
        (case seed of None \<Rightarrow> Inl UnboundLocalError
         | Some sd \<Rightarrow> Inr (result @ [(''ground_truth_comparison'',
             PDict [(''answer_similarity'', PFloat (round2 (draw sd 1)))])]))
      else Inr result)))))"

definition ragas_valid_metrics :: "pyval list" where
  "ragas_valid_metrics =
     map PStr [''faithfulness'', ''answer_relevancy'', ''context_precision'', ''context_recall'',
       ''context_relevance'', ''hallucination'']"

definition ragas_validate_config :: "pydict \<Rightarrow> config_error list res" where
  "ragas_validate_config config =
     bindE (py_iter (dget_dflt config ''metrics''
              (PList [PStr ''faithfulness'', PStr ''answer_relevancy'']))) (\<lambda>ms.
     let invalid = filter (\<lambda>m. m \<notin> set ragas_valid_metrics) ms in
     Inr (complain (invalid \<noteq> []) (InvalidMetrics invalid)))"

section \<open>InputGuardrailNode\<close>

definition input_guard_defaults :: pydict where
  "input_guard_defaults =
     [(''max_length'', PInt 10000), (''blocked_patterns'', PList []), (''required_fields'', PList []),
      (''pii_detection'', PBool False)]"

text \<open>Pattern and subject of a search have to be strings.\<close>

definition search_value :: "(string \<Rightarrow> string \<Rightarrow> bool res) \<Rightarrow> pyval \<Rightarrow> pyval \<Rightarrow> bool res" where
  "search_value search pattern text =
     (case (pattern, text) of (PStr p, PStr t) \<Rightarrow> search p t | _ \<Rightarrow> Inl TypeError)"

text \<open>\<open>field not in input_data or not input_data[field]\<close>; an unhashable field raises.\<close>

fun field_missing :: "pydict \<Rightarrow> pyval \<Rightarrow> bool res" where
  "field_missing input_data (PStr f) =
     (case dget input_data f of None \<Rightarrow> Inr True | Some v \<Rightarrow> Inr (\<not> truthy v))"
| "field_missing input_data (PList xs) = Inl TypeError"
| "field_missing input_data (PDict d) = Inl TypeError"
| "field_missing input_data _ = Inr True"

definition violation_if :: "bool \<Rightarrow> string \<Rightarrow> string list" where
  "violation_if b msg = (if b then [msg] else [])"

text \<open>The violations in the order they are found: length, patterns, fields.\<close>

definition input_violations ::
  "(string \<Rightarrow> string \<Rightarrow> bool res) \<Rightarrow> (pyval \<Rightarrow> string) \<Rightarrow> pydict \<Rightarrow> pydict \<Rightarrow> string list res" where
  "input_violations search fmt input_data merged =
     (let text = dget_dflt input_data ''text'' (PStr []) in
      bindE (py_len text) (\<lambda>n.
      bindE (dget_or_raise merged ''max_length'') (\<lambda>max_length.
      bindE (num_less max_length (PInt n)) (\<lambda>too_long.
      bindE (dget_or_raise merged ''blocked_patterns'') (\<lambda>pv. bindE (py_iter pv) (\<lambda>patterns.
      bindE (mapE (\<lambda>p. bindE (search_value search p text) (\<lambda>hit.
               Inr (violation_if hit (''Input contains blocked pattern: '' @ str_of fmt p)))) patterns) (\<lambda>blocked.
      bindE (dget_or_raise merged ''required_fields'') (\<lambda>fv. bindE (py_iter fv) (\<lambda>fields.
      bindE (mapE (\<lambda>f. bindE (field_missing input_data f) (\<lambda>miss.
               Inr (violation_if miss (''Required field missing: '' @ str_of fmt f)))) fields) (\<lambda>missing.
      Inr (violation_if too_long (''Input exceeds max length of '' @ str_of fmt max_length) @
           concat blocked @ concat missing)))))))))))"

definition input_guard_run ::
  "(string \<Rightarrow> string \<Rightarrow> bool res) \<Rightarrow> (pyval \<Rightarrow> string) \<Rightarrow> pydict \<Rightarrow> pydict \<Rightarrow> pydict res" where
  "input_guard_run search fmt input_data config =
     (let merged = dmerge input_guard_defaults config in
      bindE (input_violations search fmt input_data merged) (\<lambda>violations.
      if violations \<noteq> [] \<and> truthy (dget_dflt merged ''block_on_violation'' (PBool True)) then
        Inl (NodeExecutionError ''guardrails'' ''input_guardrail''
               (''Input guardrail violations: '' @ join ''; '' violations) violations)
      else bindE (dget_or_raise merged ''max_length'') (\<lambda>max_length.
           bindE (py_slice_to (dget_dflt input_data ''text'' (PStr [])) max_length) (\<lambda>sanitized.
           Inr [(''passed'', PBool (violations = [])), (''violations'', PList (map PStr violations)),
                (''sanitized_text'', sanitized)]))))"

section \<open>OutputGuardrailNode\<close>

definition output_guard_defaults :: pydict where
  "output_guard_defaults =
     [(''max_length'', PInt 50000), (''blocked_patterns'', PList []), (''sensitive_topics'', PList []),
      (''pii_redaction'', PBool False)]"

fun redact_value :: "pyval \<Rightarrow> pyval res" where
  "redact_value (PStr s) = Inr (PStr (redact_pii s))"
| "redact_value _ = Inl TypeError"

definition output_guard_run :: "(string \<Rightarrow> string \<Rightarrow> bool res) \<Rightarrow> pydict \<Rightarrow> pydict \<Rightarrow> pydict res" where
  "output_guard_run search input_data config =
     (let merged = dmerge output_guard_defaults config;
          answer = dget_dflt input_data ''answer'' (dget_dflt input_data ''text'' (PStr [])) in
      bindE (py_len answer) (\<lambda>n.
      bindE (dget_or_raise merged ''max_length'') (\<lambda>max_length.
      bindE (num_less max_length (PInt n)) (\<lambda>too_long.
      bindE (dget_or_raise merged ''blocked_patterns'') (\<lambda>pv. bindE (py_iter pv) (\<lambda>patterns.
      bindE (mapE (\<lambda>p. bindE (search_value search p answer) (\<lambda>hit.
               Inr (violation_if hit ''Output contains blocked content''))) patterns) (\<lambda>blocked.
      bindE (dget_or_raise merged ''pii_redaction'') (\<lambda>redact.
      bindE (if truthy redact then redact_value answer else Inr answer) (\<lambda>redacted.
      let violations = violation_if too_long ''Output exceeds max length'' @ concat blocked in
      Inr [(''passed'', PBool (violations = [])), (''violations'', PList (map PStr violations)),
           (''filtered_answer'', redacted), (''was_modified'', PBool (redacted \<noteq> answer))])))))))))"

section \<open>Lemmas\<close>

interpretation ragas_cfg: configurable_node ragas_defaults "[''metrics'']" ragas_validate_config
proof
  show "ragas_validate_config [] = Inr []"
    by (simp add: ragas_validate_config_def dget_dflt_def ragas_valid_metrics_def complain_def)
qed (auto simp: ragas_validate_config_def ragas_defaults_def dget_read_view)

interpretation input_guard_cfg: configurable_node input_guard_defaults "[]" default_validate_config
  by unfold_locales (simp_all add: default_validate_config_def)

interpretation output_guard_cfg: configurable_node output_guard_defaults "[]" default_validate_config
  by unfold_locales (simp_all add: default_validate_config_def)

lemma violation_if_simps [simp]: "violation_if b m = [] \<longleftrightarrow> \<not> b" "violation_if False m = []"
  by (simp_all add: violation_if_def)

lemma score_loop_strings:
  "score_loop draw (PStr q) (map PStr ks) scores seed =
     Inr (fold (\<lambda>k acc. dset acc k (round2 (draw (q @ k) 0))) ks scores,
          if ks = [] then seed else Some (q @ last ks))"
  by (induction ks arbitrary: scores seed) auto

lemma score_table:
  "dget (fold (\<lambda>k acc. dset acc k (f k)) ks scores) m = (if m \<in> set ks then Some (f m) else dget scores m)"
  by (induction ks arbitrary: scores) auto

lemma score_keys: "dict_wf scores \<Longrightarrow> dict_wf (fold (\<lambda>k acc. dset acc k (f k)) ks scores)"
  by (induction ks arbitrary: scores) auto

lemma ragas_accepted_names:
  assumes "ragas_validate_config c = Inr []"
  shows "\<exists>ms. py_iter (dget_dflt c ''metrics'' (PList [PStr ''faithfulness'', PStr ''answer_relevancy''])) = Inr (map PStr ms)"
proof -
  obtain vs where vs: "py_iter (dget_dflt c ''metrics'' (PList [PStr ''faithfulness'', PStr ''answer_relevancy''])) = Inr vs"
    "\<forall>m\<in>set vs. m \<in> set ragas_valid_metrics"
    using assms by (auto simp: ragas_validate_config_def bindE_eq_Inr Let_def filter_empty_conv)
  then have "\<forall>m\<in>set vs. \<exists>s. m = PStr s" by (auto simp: ragas_valid_metrics_def)
  then have "\<exists>ms. vs = map PStr ms" by (metis ex_map_conv)
  with vs(1) show ?thesis by blast
qed

lemma mapE_hits:
  "\<forall>p\<in>set ps. search p t = Inr (hit p) \<Longrightarrow>
   mapE (\<lambda>p. bindE (search_value search p (PStr t)) (\<lambda>h. Inr (violation_if h (msg p)))) (map PStr ps) =
     Inr (map (\<lambda>p. violation_if (hit p) (msg (PStr p))) ps)"
  by (induction ps) (auto simp: search_value_def)

lemma mapE_fields:
  "mapE (\<lambda>f. bindE (field_missing d f) (\<lambda>m. Inr (violation_if m (msg f)))) (map PStr fs) =
     Inr (map (\<lambda>f. violation_if (case dget d f of None \<Rightarrow> True | Some v \<Rightarrow> \<not> truthy v) (msg (PStr f))) fs)"
  by (induction fs) (auto split: option.splits)

lemma ragas_run_loop:
  assumes "dict_wf c" and "dget_dflt d ''question'' (dget_dflt d ''query'' (PStr [])) = PStr q"
    and "py_iter (dget_dflt c ''metrics'' (PList [PStr ''faithfulness'', PStr ''answer_relevancy''])) = Inr (map PStr ms)"
  shows "ragas_run draw d c =
    (let scores = fold (\<lambda>k acc. dset acc k (round2 (draw (q @ k) 0))) ms [];
         gt = truthy (dget_dflt d ''ground_truth'' PNone) in
     if ms = [] \<and> gt then Inl UnboundLocalError
     else Inr ([(''scores'', PDict (map (\<lambda>(k, s). (k, PFloat s)) scores)),
         (''metrics'', dget_dflt c ''metrics'' (PList [PStr ''faithfulness'', PStr ''answer_relevancy''])),
         (''overall_score'', if scores \<noteq> []
            then PFloat (round2 (fdiv (py_sum (dvalues scores)) (of_nat (length scores)))) else PInt 0),
         (''passed'', PBool (list_all (\<lambda>s. flit 0.7 \<le> s) (dvalues scores)))] @
       (if gt then [(''ground_truth_comparison'',
          PDict [(''answer_similarity'', PFloat (round2 (draw (q @ last ms) 1)))])] else [])))"
proof -
  have merged: "dget_or_raise (dmerge ragas_defaults c) ''metrics'' =
      Inr (dget_dflt c ''metrics'' (PList [PStr ''faithfulness'', PStr ''answer_relevancy'']))"
    using assms(1) by (simp add: dget_merged ragas_defaults_def)
  show ?thesis
    by (simp add: ragas_run_def Let_def merged assms(2,3) score_loop_strings)
qed

section \<open>Properties\<close>

text \<open>
  C25: The input guardrail passes a text exactly when it is within the length limit, no blocked
  pattern is found in it and every required field is present and truthy; the text then comes back
  whole. Otherwise the run fails with the violations it found, or, with blocking switched off,
  reports them with the text cut to the limit.
\<close>

theorem input_guard_outcomes:
  assumes "dict_wf c"
    and "dget_dflt d ''text'' (PStr []) = PStr t"
    and "dget_dflt c ''max_length'' (PInt 10000) = PInt n"
    and "dget_dflt c ''blocked_patterns'' (PList []) = PList (map PStr ps)"
    and "dget_dflt c ''required_fields'' (PList []) = PList (map PStr fs)"
    and "\<forall>p\<in>set ps. search p t = Inr (hit p)"
  shows "if int (length t) \<le> n \<and> (\<forall>p\<in>set ps. \<not> hit p) \<and> (\<forall>f\<in>set fs. \<exists>v. dget d f = Some v \<and> truthy v)
    then input_guard_run search fmt d c =
      Inr [(''passed'', PBool True), (''violations'', PList []), (''sanitized_text'', PStr t)]
    else \<exists>vs. vs \<noteq> [] \<and> input_guard_run search fmt d c =
      (if truthy (dget_dflt c ''block_on_violation'' (PBool True)) then
         Inl (NodeExecutionError ''guardrails'' ''input_guardrail'' (''Input guardrail violations: '' @ join ''; '' vs) vs)
       else Inr [(''passed'', PBool False), (''violations'', PList (map PStr vs)),
                 (''sanitized_text'', PStr (slice_to t n))])"
proof -
  let ?m = "dmerge input_guard_defaults c"
  have m: "dget_or_raise ?m ''max_length'' = Inr (PInt n)"
    "dget_or_raise ?m ''blocked_patterns'' = Inr (PList (map PStr ps))"
    "dget_or_raise ?m ''required_fields'' = Inr (PList (map PStr fs))"
    using assms(1,3-5) by (simp_all add: dget_merged input_guard_defaults_def)
  have block: "dget_dflt ?m ''block_on_violation'' (PBool True) = dget_dflt c ''block_on_violation'' (PBool True)"
    using assms(1) by (auto simp: dget_dflt_def dget_dmerge input_guard_defaults_def split: option.splits)
  define vs where "vs = violation_if (n < int (length t)) (''Input exceeds max length of '' @ show_int n) @
    concat (map (\<lambda>p. violation_if (hit p) (''Input contains blocked pattern: '' @ p)) ps) @
    concat (map (\<lambda>f. violation_if (case dget d f of None \<Rightarrow> True | Some v \<Rightarrow> \<not> truthy v)
      (''Required field missing: '' @ f)) fs)"
  have vs: "input_violations search fmt d ?m = Inr vs"
    unfolding input_violations_def Let_def vs_def
    by (simp add: m assms(2) num_less_def mapE_hits [of ps search t hit, OF assms(6)] mapE_fields)
  have none: "vs = [] \<longleftrightarrow> int (length t) \<le> n \<and> (\<forall>p\<in>set ps. \<not> hit p) \<and>
      (\<forall>f\<in>set fs. \<exists>v. dget d f = Some v \<and> truthy v)"
    by (auto simp: vs_def split: option.splits)
  have run: "input_guard_run search fmt d c =
      (if vs \<noteq> [] \<and> truthy (dget_dflt c ''block_on_violation'' (PBool True)) then
         Inl (NodeExecutionError ''guardrails'' ''input_guardrail'' (''Input guardrail violations: '' @ join ''; '' vs) vs)
       else Inr [(''passed'', PBool (vs = [])), (''violations'', PList (map PStr vs)),
                 (''sanitized_text'', PStr (slice_to t n))])"
    by (simp only: input_guard_run_def Let_def vs bindE_simps m block assms(2) py_slice_to.simps py_index.simps)
  show ?thesis
  proof (cases "vs = []")
    case True
    then have "slice_to t n = t" using none by (auto simp: slice_to_def)
    then show ?thesis using run True none by simp
  next
    case False
    then have "vs \<noteq> [] \<and> input_guard_run search fmt d c =
      (if truthy (dget_dflt c ''block_on_violation'' (PBool True)) then
         Inl (NodeExecutionError ''guardrails'' ''input_guardrail'' (''Input guardrail violations: '' @ join ''; '' vs) vs)
       else Inr [(''passed'', PBool False), (''violations'', PList (map PStr vs)),
                 (''sanitized_text'', PStr (slice_to t n))])" by (simp only: run) simp
    then show ?thesis using False none by auto
  qed
qed

theorem input_guard_outcomes_witness:
  "input_guard_run (\<lambda>p t. Inr (str_in p t)) (\<lambda>_. []) [(''text'', PStr ''hello''), (''user'', PStr ''u'')]
     [(''blocked_patterns'', PList [PStr ''drop'']), (''required_fields'', PList [PStr ''user''])] =
   Inr [(''passed'', PBool True), (''violations'', PList []), (''sanitized_text'', PStr ''hello'')]"
  using input_guard_outcomes [of "[(''blocked_patterns'', PList [PStr ''drop'']), (''required_fields'', PList [PStr ''user''])]"
      "[(''text'', PStr ''hello''), (''user'', PStr ''u'')]" "''hello''" 10000 "[''drop'']" "[''user'']"
      "\<lambda>p t. Inr (str_in p t)" "\<lambda>p. False" "\<lambda>_. []"]
  by (simp add: dget_dflt_def startswith_def)

text \<open>
  C26: The output guardrail never blocks. On a string answer it reports whether the answer is within
  the limit and free of blocked patterns, and hands on the answer itself or, with redaction
  switched on, that answer with its e-mail addresses, then its phone numbers, then its social security numbers
  replaced by their markers, which contains no phone number and no social security number.
\<close>

theorem output_guard_outcomes:
  assumes "dict_wf c"
    and "dget_dflt d ''answer'' (dget_dflt d ''text'' (PStr [])) = PStr a"
    and "dget_dflt c ''max_length'' (PInt 50000) = PInt n"
    and "dget_dflt c ''blocked_patterns'' (PList []) = PList (map PStr ps)"
    and "\<forall>p\<in>set ps. search p a = Inr (hit p)"
  shows "\<exists>out r. output_guard_run search d c = Inr out \<and>
    dget out ''passed'' = Some (PBool (int (length a) \<le> n \<and> (\<forall>p\<in>set ps. \<not> hit p))) \<and>
    dget out ''filtered_answer'' = Some (PStr r) \<and> dget out ''was_modified'' = Some (PBool (r \<noteq> a)) \<and>
    (if truthy (dget_dflt c ''pii_redaction'' (PBool False))
     then r = re_sub (Boundary # ssn_items @ [Boundary]) ''[SSN]'' None
            (re_sub (Boundary # phone_items @ [Boundary]) ''[PHONE]'' None (re_sub email_pattern ''[EMAIL]'' None a)) \<and>
          \<not> re_search (Boundary # phone_items @ [Boundary]) None r \<and>
          \<not> re_search (Boundary # ssn_items @ [Boundary]) None r
     else r = a)"
proof -
  let ?m = "dmerge output_guard_defaults c" and ?b = "truthy (dget_dflt c ''pii_redaction'' (PBool False))"
  have m: "dget_or_raise ?m ''max_length'' = Inr (PInt n)"
    "dget_or_raise ?m ''blocked_patterns'' = Inr (PList (map PStr ps))"
    "dget_or_raise ?m ''pii_redaction'' = Inr (dget_dflt c ''pii_redaction'' (PBool False))"
    using assms(1,3,4) by (simp_all add: dget_merged output_guard_defaults_def)
  define vs where "vs = violation_if (n < int (length a)) ''Output exceeds max length'' @
    concat (map (\<lambda>p. violation_if (hit p) ''Output contains blocked content'') ps)"
  have none: "vs = [] \<longleftrightarrow> int (length a) \<le> n \<and> (\<forall>p\<in>set ps. \<not> hit p)" by (auto simp: vs_def)
  have run: "output_guard_run search d c =
      Inr [(''passed'', PBool (vs = [])), (''violations'', PList (map PStr vs)),
           (''filtered_answer'', PStr (if ?b then redact_pii a else a)),
           (''was_modified'', PBool ((if ?b then redact_pii a else a) \<noteq> a))]"
    unfolding output_guard_run_def Let_def vs_def
    by (simp add: m assms(2) num_less_def mapE_hits [of ps search a hit, OF assms(5)])
  have "redact_pii a = re_sub (Boundary # ssn_items @ [Boundary]) ''[SSN]'' None
      (re_sub (Boundary # phone_items @ [Boundary]) ''[PHONE]'' None (re_sub email_pattern ''[EMAIL]'' None a))"
    by (simp add: redact_pii_def)
  then show ?thesis
    unfolding run using redact_pii_finds_none [of a] by (cases ?b) (simp_all add: none)
qed

theorem output_guard_outcomes_witness:
  "\<exists>out. output_guard_run (\<lambda>p t. Inr (str_in p t)) [(''answer'', PStr ''a@b.org 555-123-4567'')]
      [(''pii_redaction'', PBool True)] = Inr out \<and>
    dget out ''passed'' = Some (PBool True) \<and> dget out ''filtered_answer'' = Some (PStr ''[EMAIL] [PHONE]'')"
proof -
  have "re_sub (Boundary # ssn_items @ [Boundary]) ''[SSN]'' None
      (re_sub (Boundary # phone_items @ [Boundary]) ''[PHONE]'' None
        (re_sub email_pattern ''[EMAIL]'' None ''a@b.org 555-123-4567'')) = ''[EMAIL] [PHONE]''"
    by code_simp
  then show ?thesis
    using output_guard_outcomes [of "[(''pii_redaction'', PBool True)]" "[(''answer'', PStr ''a@b.org 555-123-4567'')]"
        "''a@b.org 555-123-4567''" 50000 "[]" "\<lambda>p t. Inr (str_in p t)"]
    by (auto simp: dget_dflt_def)
qed

text \<open>
  Under an accepted configuration and for a question that is a string, the evaluation node
  scores exactly the configured metrics and passes exactly when each of them reaches 0.7. The one
  failure is an empty metric list together with a ground truth: the random module is then unbound.
\<close>

theorem ragas_run_outcomes:
  assumes "dict_wf c" and "ragas_validate_config c = Inr []"
    and "dget_dflt d ''question'' (dget_dflt d ''query'' (PStr [])) = PStr q"
  shows "\<exists>ms. py_iter (dget_dflt c ''metrics'' (PList [PStr ''faithfulness'', PStr ''answer_relevancy''])) =
      Inr (map PStr ms) \<and>
    (if ms = [] \<and> truthy (dget_dflt d ''ground_truth'' PNone) then ragas_run draw d c = Inl UnboundLocalError
     else \<exists>out scores. ragas_run draw d c = Inr out \<and> dget out ''scores'' = Some (PDict scores) \<and>
       dict_wf scores \<and>
       (\<forall>m. dget scores m = (if m \<in> set ms then Some (PFloat (round2 (draw (q @ m) 0))) else None)) \<and>
       dget out ''passed'' = Some (PBool (\<forall>m\<in>set ms. flit 0.7 \<le> round2 (draw (q @ m) 0))))"
proof -
  obtain ms where ms: "py_iter (dget_dflt c ''metrics'' (PList [PStr ''faithfulness'', PStr ''answer_relevancy''])) =
      Inr (map PStr ms)" using ragas_accepted_names [OF assms(2)] by blast
  let ?gt = "truthy (dget_dflt d ''ground_truth'' PNone)"
  define sc where "sc = fold (\<lambda>k acc. dset acc k (round2 (draw (q @ k) 0))) ms []"
  have sc: "dget sc m = (if m \<in> set ms then Some (round2 (draw (q @ m) 0)) else None)" for m
    by (simp add: sc_def score_table)
  have sc_wf: "dict_wf sc" by (simp add: sc_def score_keys)
  have pass: "list_all (\<lambda>s. flit 0.7 \<le> s) (dvalues sc) \<longleftrightarrow> (\<forall>m\<in>set ms. flit 0.7 \<le> round2 (draw (q @ m) 0))"
  proof -
    have "(k, s) \<in> set sc \<longleftrightarrow> k \<in> set ms \<and> s = round2 (draw (q @ k) 0)" for k s
      using sc [of k] map_of_eq_Some_iff [OF sc_wf, of k s] by (auto split: if_splits)
    then show ?thesis by (fastforce simp: list_all_iff)
  qed
  let ?scores = "map (\<lambda>(k, s). (k, PFloat s)) sc"
  have scores: "dget ?scores m = (if m \<in> set ms then Some (PFloat (round2 (draw (q @ m) 0))) else None)"
    for m
    using sc [of m] by (simp only: map_of_map comp_apply) simp
  have scores_wf: "dict_wf ?scores" using sc_wf by (simp add: case_prod_unfold comp_def)
  note run = ragas_run_loop [OF assms(1,3) ms, of draw, folded sc_def]
  show ?thesis
  proof (cases "ms = [] \<and> ?gt")
    case True
    then show ?thesis using ms run by (intro exI [of _ ms]) simp
  next
    case False
    then obtain out where "ragas_run draw d c = Inr out" "dget out ''scores'' = Some (PDict ?scores)"
      "dget out ''passed'' = Some (PBool (list_all (\<lambda>s. flit 0.7 \<le> s) (dvalues sc)))"
      using run by (cases ?gt) simp_all
    with False show ?thesis using ms scores scores_wf unfolding pass by (intro exI [of _ ms]) auto
  qed
qed

theorem ragas_run_outcomes_witness:
  "ragas_run (\<lambda>_ _. 3/4) [(''ground_truth'', PStr ''x'')] [(''metrics'', PList [])] = Inl UnboundLocalError"
proof -
  have "ragas_validate_config [(''metrics'', PList [])] = Inr []" by code_simp
  from ragas_run_outcomes [OF _ this, of "[(''ground_truth'', PStr ''x'')]" "[]" "\<lambda>_ _. 3/4"]
  show ?thesis by (simp add: dget_dflt_def)
qed

end
