(* ===== verification/Node_Registry.thy ===== *)
theory Node_Registry
  imports Chunking_Nodes Pipeline_Nodes Guard_Nodes
begin

text \<open>
  The node registry of \<open>app/domain/workflows/registry.py\<close>: a dictionary from names to node objects,
  its operations, the grouping of names into categories, and the registry the service starts with.
  The node objects carry no state of their own beyond their class, so a node is its class.
\<close>

section \<open>Nodes\<close>

datatype node =
    RecursiveTextSplitterNode | MarkdownHeaderSplitterNode
  | OpenAIEmbeddingNode | OllamaEmbeddingNode
  | VectorRetrievalNode | HybridRetrievalNode
  | CrossEncoderRerankerNode
  | LLMGenerationNode
  | RagasEvalNode
  | InputGuardrailNode | OutputGuardrailNode

fun node_defaults :: "node \<Rightarrow> pydict" where
  "node_defaults RecursiveTextSplitterNode = splitter_defaults"
| "node_defaults MarkdownHeaderSplitterNode = markdown_defaults"
| "node_defaults OpenAIEmbeddingNode = openai_defaults"
| "node_defaults OllamaEmbeddingNode = ollama_defaults"
| "node_defaults VectorRetrievalNode = vector_defaults"
| "node_defaults HybridRetrievalNode = hybrid_defaults"
| "node_defaults CrossEncoderRerankerNode = reranker_defaults"
| "node_defaults LLMGenerationNode = generation_defaults"
| "node_defaults RagasEvalNode = ragas_defaults"
| "node_defaults InputGuardrailNode = input_guard_defaults"
| "node_defaults OutputGuardrailNode = output_guard_defaults"

text \<open>Method dispatch; the classes without an override inherit the protocol's \<open>validate_config\<close>.\<close>

fun node_validate_config :: "node \<Rightarrow> pydict \<Rightarrow> config_error list res" where
  "node_validate_config RecursiveTextSplitterNode = splitter_validate_config"
| "node_validate_config OpenAIEmbeddingNode = openai_validate_config"
| "node_validate_config VectorRetrievalNode = vector_validate_config"
| "node_validate_config CrossEncoderRerankerNode = reranker_validate_config"
| "node_validate_config LLMGenerationNode = generation_validate_config"
| "node_validate_config RagasEvalNode = ragas_validate_config"
| "node_validate_config _ = default_validate_config"

section \<open>The registry\<close>

type_synonym registry = "(string, node) dict"

definition empty_registry :: registry where
  "empty_registry = []"

definition register :: "registry \<Rightarrow> string \<Rightarrow> node \<Rightarrow> registry" where
  "register reg name node = dset reg name node"

definition get_node :: "registry \<Rightarrow> string \<Rightarrow> node option" where
  "get_node reg name = dget reg name"

definition has_node :: "registry \<Rightarrow> string \<Rightarrow> bool" where
  "has_node reg name \<longleftrightarrow> name \<in> set (dkeys reg)"

definition list_nodes :: "registry \<Rightarrow> string list" where
  "list_nodes reg = dkeys reg"

definition category_of :: "string \<Rightarrow> string" where
  "category_of name =
     (let n = lower name in
      if str_in ''chunk'' n then ''chunking''
      else if str_in ''embed'' n then ''embedding''
      else if str_in ''retriev'' n then ''retrieval''
      else if str_in ''rerank'' n then ''reranking''
      else if str_in ''generat'' n \<or> str_in ''llm'' n then ''generation''
      else if str_in ''eval'' n then ''evaluation''
      else if str_in ''guard'' n then ''guardrails''
      else ''other'')"

definition add_to_category :: "string \<Rightarrow> (string, string list) dict \<Rightarrow> (string, string list) dict" where
  "add_to_category name categories =
     dset categories (category_of name) (dget_dflt categories (category_of name) [] @ [name])"

definition get_node_types :: "registry \<Rightarrow> (string, string list) dict" where
  "get_node_types reg = fold add_to_category (dkeys reg) []"

definition NODE_REGISTRY :: registry where
  "NODE_REGISTRY = fold (\<lambda>(name, node) reg. register reg name node)
     [(''recursive_text_splitter'', RecursiveTextSplitterNode),
      (''markdown_header_splitter'', MarkdownHeaderSplitterNode),
      (''openai_embedding'', OpenAIEmbeddingNode),
      (''ollama_embedding'', OllamaEmbeddingNode),
      (''vector_retrieval'', VectorRetrievalNode),
      (''hybrid_retrieval'', HybridRetrievalNode),
      (''cross_encoder_reranker'', CrossEncoderRerankerNode),
      (''llm_generation'', LLMGenerationNode),
      (''ragas_eval'', RagasEvalNode),
      (''input_guardrail'', InputGuardrailNode),
      (''output_guardrail'', OutputGuardrailNode)] empty_registry"

section \<open>What the validator relies on\<close>

locale node_lookup =
  fixes empty :: 'r and reg_add :: "'r \<Rightarrow> string \<Rightarrow> 'n \<Rightarrow> 'r"
    and lookup :: "'r \<Rightarrow> string \<Rightarrow> 'n option" and member :: "'r \<Rightarrow> string \<Rightarrow> bool"
  assumes lookup_empty: "lookup empty k = None"
    and lookup_add: "lookup (reg_add r k n) k' = (if k' = k then Some n else lookup r k')"
    and member_iff: "member r k \<longleftrightarrow> lookup r k \<noteq> None"
begin

lemma member_add: "member (reg_add r k n) k' \<longleftrightarrow> k' = k \<or> member r k'"
  by (simp add: member_iff lookup_add)

text \<open>A series of registrations: the last one of a name counts.\<close>

lemma lookup_adds:
  "lookup (fold (\<lambda>(k, n) r. reg_add r k n) kns r) k =
     (case map_of (rev kns) k of Some n \<Rightarrow> Some n | None \<Rightarrow> lookup r k)"
  by (induction kns arbitrary: r) (auto simp: lookup_add map_add_Some_iff map_add_def split: option.splits)

end

interpretation nr: node_lookup empty_registry register get_node has_node
  by unfold_locales
    (auto simp: empty_registry_def register_def get_node_def has_node_def map_of_eq_None_iff)

text \<open>Every class keeps the contract between its defaults and its \<open>validate_config\<close>.\<close>

fun node_keys :: "node \<Rightarrow> string list" where
  "node_keys RecursiveTextSplitterNode = [''chunk_size'', ''chunk_overlap'']"
| "node_keys OpenAIEmbeddingNode = [''model'', ''dimensions'']"
| "node_keys VectorRetrievalNode = [''top_k'']"
| "node_keys CrossEncoderRerankerNode = [''top_k'']"
| "node_keys LLMGenerationNode = [''temperature'', ''max_tokens'']"
| "node_keys RagasEvalNode = [''metrics'']"
| "node_keys _ = []"

lemma node_contract: "configurable_node (node_defaults n) (node_keys n) (node_validate_config n)"
  by (cases n)
    (simp_all add: splitter_cfg.configurable_node_axioms markdown_cfg.configurable_node_axioms
      openai_cfg.configurable_node_axioms ollama_cfg.configurable_node_axioms
      vector_cfg.configurable_node_axioms hybrid_cfg.configurable_node_axioms
      reranker_cfg.configurable_node_axioms generation_cfg.configurable_node_axioms
      ragas_cfg.configurable_node_axioms input_guard_cfg.configurable_node_axioms
      output_guard_cfg.configurable_node_axioms)

lemma category_groups:
  "dget (fold add_to_category names cats) c =
     (case filter (\<lambda>n. category_of n = c) names of
        [] \<Rightarrow> dget cats c | ns \<Rightarrow> Some (dget_dflt cats c [] @ ns))"
proof (induction names arbitrary: cats)
  case (Cons n names)
  then show ?case
    by (cases "filter (\<lambda>n. category_of n = c) names")
      (auto simp: add_to_category_def dget_dflt_def split: option.splits)
qed simp

section \<open>Properties\<close>

text \<open>
  A configuration that a node class accepts is still accepted after it has been merged over the
  defaults the node runs with, for each of the eleven registered classes, and the defaults
  themselves are accepted.
\<close>

theorem registered_configs_merge:
  assumes "dict_wf c" and "node_validate_config n c = Inr []"
  shows "node_validate_config n (dmerge (node_defaults n) c) = Inr [] \<and>
    node_validate_config n (node_defaults n) = Inr []"
  using configurable_node.accepted_merged [OF node_contract assms]
    configurable_node.defaults_accepted [OF node_contract] by blast

theorem registered_configs_merge_witness:
  "node_validate_config RecursiveTextSplitterNode
     (dmerge (node_defaults RecursiveTextSplitterNode) [(''chunk_size'', PInt 300)]) = Inr []"
proof -
  have "node_validate_config RecursiveTextSplitterNode [(''chunk_size'', PInt 300)] = Inr []" by code_simp
  from registered_configs_merge [OF _ this] show ?thesis by simp
qed

text \<open>
  Grouping the registry by category loses and invents nothing: a category lists exactly the
  registered names that fall into it, in registration order, and is absent when there is none.
\<close>

theorem get_node_types_groups:
  "dget (get_node_types reg) c =
     (case filter (\<lambda>n. category_of n = c) (list_nodes reg) of [] \<Rightarrow> None | ns \<Rightarrow> Some ns)"
  by (simp add: get_node_types_def category_groups list_nodes_def dget_dflt_def split: list.splits)

text \<open>
  The registry the service starts with resolves its eleven names; the two text splitters are
  not grouped as chunking nodes but fall into the category of other nodes.
\<close>

theorem default_registry_groups:
  "list_nodes NODE_REGISTRY =
     [''recursive_text_splitter'', ''markdown_header_splitter'', ''openai_embedding'', ''ollama_embedding'',
      ''vector_retrieval'', ''hybrid_retrieval'', ''cross_encoder_reranker'', ''llm_generation'',
      ''ragas_eval'', ''input_guardrail'', ''output_guardrail''] \<and>
   dget (get_node_types NODE_REGISTRY) ''chunking'' = None \<and>
   dget (get_node_types NODE_REGISTRY) ''other'' = Some [''recursive_text_splitter'', ''markdown_header_splitter'']"
  by code_simp

end
