(* ===== verification/Validator.thy ===== *)
theory Validator
  imports Step_Order Node_Registry
begin

text \<open>
  The workflow validator of \<open>app/domain/workflows/validator.py\<close>: steps, edges and connectivity, the
  breadth-first search for reachable steps, and the strict entry point that raises. The main result
  says what an empty error list means for the workflow graph.
\<close>

section \<open>Errors\<close>

text \<open>
  One constructor per message: "Duplicate step ID: s"; "Step 's': Unknown implementation 'i'";
  "Step 's': e"; "Edge i: Source step 's' not found"; "Edge i: Target step 's' not found";
  "Edge i: Self-loops are not allowed (s)"; "Unreachable steps: ..." (the set is joined in no fixed
  order); and the text of the ValueError of the order computation.
\<close>

datatype wf_error =
    DuplicateStep string
  | UnknownImplementation string string
  | StepConfig string config_error
  | EdgeSource nat string
  | EdgeTarget nat string
  | SelfLoop nat string
  | UnreachableSteps "string set"
  | OrderError string

text \<open>What a caller of the strict entry point or of the service sees.\<close>

datatype wf_failure =
    WorkflowValidationError "wf_error list"
  | Raised exn

section \<open>Steps\<close>

definition step_config_errors :: "registry \<Rightarrow> workflow_step \<Rightarrow> wf_error list res" where
  "step_config_errors reg s =
     (case get_node reg (implementation s) of
        Some node \<Rightarrow>
          if config_override s \<noteq> [] then
            bindE (node_validate_config node (config_override s)) (\<lambda>es. Inr (map (StepConfig (step_id s)) es))
          else Inr []
      | None \<Rightarrow> Inr [])"

fun validate_steps_loop ::
  "registry \<Rightarrow> workflow_step list \<Rightarrow> string set \<Rightarrow> wf_error list \<Rightarrow> wf_error list res" where
  "validate_steps_loop reg [] ids errors = Inr errors"
| "validate_steps_loop reg (s # ss) ids errors =
     (let errors = (if step_id s \<in> ids then errors @ [DuplicateStep (step_id s)] else errors);
          errors = (if \<not> has_node reg (implementation s)
                    then errors @ [UnknownImplementation (step_id s) (implementation s)] else errors) in
      bindE (step_config_errors reg s) (\<lambda>config_errors.
      validate_steps_loop reg ss (insert (step_id s) ids) (errors @ config_errors)))"

definition validate_steps :: "registry \<Rightarrow> workflow_definition \<Rightarrow> wf_error list res" where
  "validate_steps reg w = validate_steps_loop reg (steps w) {} []"

section \<open>Edges\<close>

definition edge_errors :: "string set \<Rightarrow> nat \<times> workflow_edge \<Rightarrow> wf_error list" where
  "edge_errors ids = (\<lambda>(i, e).
     (if from_step e \<notin> ids then [EdgeSource i (from_step e)] else []) @
     (if to_step e \<notin> ids then [EdgeTarget i (to_step e)] else []) @
     (if from_step e = to_step e then [SelfLoop i (from_step e)] else []))"

definition validate_edges :: "workflow_definition \<Rightarrow> wf_error list" where
  "validate_edges w = concat (map (edge_errors (set (step_ids w))) (enumerate 0 (edges w)))"

section \<open>Connectivity\<close>

fun reach_edges :: "workflow_edge list \<Rightarrow> graph \<Rightarrow> graph" where
  "reach_edges [] g = g"
| "reach_edges (e # es) g =
     (case dget g (from_step e) of
        Some ns \<Rightarrow> reach_edges es (dset g (from_step e) (ns @ [to_step e]))
      | None \<Rightarrow> reach_edges es g)"

lemma dget_dflt_no_key: "k \<notin> set (dkeys d) \<Longrightarrow> dget_dflt d k v = v"
  by (simp add: dget_dflt_def map_of_eq_None_iff [THEN iffD2] split: option.splits)

text \<open>
  The search visits a queue. A visited name that is no key of the graph adds nothing to the queue, so
  either the unvisited keys or the queue get fewer.
\<close>

function bfs :: "graph \<Rightarrow> string set \<Rightarrow> string list \<Rightarrow> string set" where
  "bfs g reachable [] = reachable"
| "bfs g reachable (current # queue) =
     (if current \<in> reachable then bfs g reachable queue
      else bfs g (insert current reachable) (queue @ dget_dflt g current []))"
  by pat_completeness auto

termination
proof (relation "measures [\<lambda>(g, r, q). card (set (dkeys g) - r), \<lambda>(g, r, q). length q]")
  fix g :: graph and r :: "string set" and c q assume c: "c \<notin> r"
  let ?K = "set (dkeys g)"
  show "((g, insert c r, q @ dget_dflt g c []), (g, r, c # q)) \<in>
      measures [\<lambda>(g, r, q). card (set (dkeys g) - r), \<lambda>(g, r, q). length q]"
  proof (cases "c \<in> ?K")
    case True
    then have "?K - insert c r \<subset> ?K - r" using c by auto
    then have "card (?K - insert c r) < card (?K - r)" by (intro psubset_card_mono) auto
    then show ?thesis by simp
  next
    case False
    then have "?K - insert c r = ?K - r" "dget_dflt g c [] = []" by (auto simp: dget_dflt_no_key)
    then show ?thesis by simp
  qed
qed auto

definition get_reachable_steps :: "workflow_definition \<Rightarrow> string set" where
  "get_reachable_steps w =
     (case steps w of [] \<Rightarrow> {}
      | s # _ \<Rightarrow> bfs (reach_edges (edges w) (init_graph (steps w))) {} [step_id s])"

definition validate_connectivity :: "workflow_definition \<Rightarrow> wf_error list res" where
  "validate_connectivity w =
     (if steps w = [] then Inr []
      else
        let unreachable = set (step_ids w) - get_reachable_steps w;
            errors = (if edges w \<noteq> [] \<and> unreachable \<noteq> {} then [UnreachableSteps unreachable] else []) in
        case get_step_order w of
          Inr _ \<Rightarrow> Inr errors
        | Inl (ValueError msg) \<Rightarrow> Inr (errors @ [OrderError msg])
        | Inl e \<Rightarrow> Inl e)"

section \<open>Entry points\<close>

definition validate :: "registry \<Rightarrow> workflow_definition \<Rightarrow> wf_error list res" where
  "validate reg w =
     bindE (validate_steps reg w) (\<lambda>es1.
     bindE (validate_connectivity w) (\<lambda>es3. Inr (es1 @ validate_edges w @ es3)))"

definition validate_strict :: "registry \<Rightarrow> workflow_definition \<Rightarrow> wf_failure + unit" where
  "validate_strict reg w =
     (case validate reg w of
        Inl e \<Rightarrow> Inl (Raised e)
      | Inr errors \<Rightarrow> if errors \<noteq> [] then Inl (WorkflowValidationError errors) else Inr ())"

text \<open>A dictionary is built into a definition first.\<close>

definition validate_dict :: "registry \<Rightarrow> workflow_fields \<Rightarrow> wf_error list res" where
  "validate_dict reg f = bindE (model_validate f) (validate reg)"

section \<open>What the checks decide\<close>

definition step_ok :: "registry \<Rightarrow> workflow_step \<Rightarrow> bool" where
  "step_ok reg s \<longleftrightarrow> (\<exists>n. get_node reg (implementation s) = Some n \<and>
     (config_override s = [] \<or> node_validate_config n (config_override s) = Inr []))"

definition valid_workflow :: "registry \<Rightarrow> workflow_definition \<Rightarrow> bool" where
  "valid_workflow reg w \<longleftrightarrow> distinct (step_ids w) \<and> (\<forall>s\<in>set (steps w). step_ok reg s) \<and>
     edges_known w \<and> acyclic (edge_rel w) \<and>
     (edges w \<noteq> [] \<longrightarrow> set (step_ids w) \<subseteq> (edge_rel w)\<^sup>* `` {hd (step_ids w)})"

lemma step_config_errors_nil:
  "has_node reg (implementation s) \<Longrightarrow> step_config_errors reg s = Inr [] \<longleftrightarrow> step_ok reg s"
  by (auto simp: step_config_errors_def step_ok_def nr.member_iff bindE_eq_Inr split: if_splits)

lemma steps_loop_nil:
  "validate_steps_loop reg ss ids es = Inr [] \<longleftrightarrow>
     es = [] \<and> distinct (map step_id ss) \<and> ids \<inter> step_id ` set ss = {} \<and> (\<forall>s\<in>set ss. step_ok reg s)"
proof (induction ss arbitrary: ids es)
  case (Cons s ss)
  have known: "step_ok reg s \<Longrightarrow> has_node reg (implementation s)" by (auto simp: step_ok_def nr.member_iff)
  have "validate_steps_loop reg (s # ss) ids es = Inr [] \<longleftrightarrow>
      es = [] \<and> step_id s \<notin> ids \<and> has_node reg (implementation s) \<and> step_config_errors reg s = Inr [] \<and>
      distinct (map step_id ss) \<and> insert (step_id s) ids \<inter> step_id ` set ss = {} \<and> (\<forall>s\<in>set ss. step_ok reg s)"
    by (auto simp: bindE_eq_Inr Let_def Cons.IH split: if_splits)
  also have "\<dots> \<longleftrightarrow> es = [] \<and> distinct (map step_id (s # ss)) \<and> ids \<inter> step_id ` set (s # ss) = {} \<and>
      (\<forall>s\<in>set (s # ss). step_ok reg s)"
    using step_config_errors_nil known by auto
  finally show ?case .
qed auto

lemma validate_edges_nil:
  "validate_edges w = [] \<longleftrightarrow> edges_known w \<and> (\<forall>(a, b)\<in>edge_rel w. a \<noteq> b)"
proof -
  have "validate_edges w = [] \<longleftrightarrow>
      (\<forall>e\<in>set (edges w). from_step e \<in> set (step_ids w) \<and> to_step e \<in> set (step_ids w) \<and> from_step e \<noteq> to_step e)"
  proof -
    have snd: "set (edges w) = snd ` set (enumerate 0 (edges w))" by (metis map_snd_enumerate list.set_map)
    show ?thesis unfolding snd by (auto simp: validate_edges_def edge_errors_def split: if_splits)
  qed
  also have "\<dots> \<longleftrightarrow> edges_known w \<and> (\<forall>(a, b)\<in>edge_rel w. a \<noteq> b)"
    by (auto simp: edges_known_def edge_rel_def edge_list_def)
  finally show ?thesis .
qed

text \<open>The search computes the closure of its start.\<close>

definition graph_rel :: "graph \<Rightarrow> (string \<times> string) set" where
  "graph_rel g = {(a, b). b \<in> set (dget_dflt g a [])}"

lemma bfs_closed:
  "graph_rel g `` r \<subseteq> r \<union> set q \<Longrightarrow>
     r \<union> set q \<subseteq> bfs g r q \<and> graph_rel g `` bfs g r q \<subseteq> bfs g r q"
proof (induction g r q rule: bfs.induct)
  case (2 g r c q)
  show ?case
  proof (cases "c \<in> r")
    case True
    with 2 show ?thesis by auto
  next
    case False
    have "graph_rel g `` insert c r \<subseteq> insert c r \<union> set (q @ dget_dflt g c [])"
      using 2(3) by (auto simp: graph_rel_def)
    with 2(2) False show ?thesis by auto
  qed
qed auto

lemma bfs_within:
  "r \<union> set q \<subseteq> S \<Longrightarrow> graph_rel g `` S \<subseteq> S \<Longrightarrow> bfs g r q \<subseteq> S"
proof (induction g r q rule: bfs.induct)
  case (2 g r c q)
  then have "set (dget_dflt g c []) \<subseteq> S" by (auto simp: graph_rel_def)
  with 2 show ?case by auto
qed auto

lemma bfs_reachable: "bfs g {} [a] = (graph_rel g)\<^sup>* `` {a}"
proof
  show "bfs g {} [a] \<subseteq> (graph_rel g)\<^sup>* `` {a}"
    by (rule bfs_within) (auto intro: rtrancl.rtrancl_into_rtrancl)
  have a: "a \<in> bfs g {} [a]" and cl: "graph_rel g `` bfs g {} [a] \<subseteq> bfs g {} [a]"
    using bfs_closed [of g "{}" "[a]"] by auto
  have "b \<in> bfs g {} [a]" if "(a, b) \<in> (graph_rel g)\<^sup>*" for b
    using that by (induction rule: rtrancl_induct) (use a cl in blast)+
  then show "(graph_rel g)\<^sup>* `` {a} \<subseteq> bfs g {} [a]" by auto
qed

lemma reach_edges_rel:
  "graph_rel (reach_edges es g) =
     graph_rel g \<union> {(a, b). (a, b) \<in> set (edge_list es) \<and> dget g a \<noteq> None}"
proof (induction es arbitrary: g)
  case (Cons e es)
  show ?case
  proof (cases "dget g (from_step e)")
    case None
    then show ?thesis using Cons.IH [of g] by (auto simp: edge_list_def)
  next
    case (Some ns)
    let ?g = "dset g (from_step e) (ns @ [to_step e])"
    have "graph_rel ?g = insert (from_step e, to_step e) (graph_rel g)"
      using Some by (auto simp: graph_rel_def dget_dflt_def split: if_splits)
    moreover have "dget ?g a \<noteq> None \<longleftrightarrow> dget g a \<noteq> None" for a using Some by simp
    ultimately show ?thesis using Cons.IH [of ?g] Some by (auto simp: edge_list_def)
  qed
qed (simp add: edge_list_def)

lemma init_graph_dget: "dget (init_graph ss) k = (if k \<in> step_id ` set ss then Some [] else None)"
  by (simp add: init_graph_def dget_const_dict_of)

lemma get_reachable_steps_rel:
  "steps w \<noteq> [] \<Longrightarrow> edges_known w \<Longrightarrow> get_reachable_steps w = (edge_rel w)\<^sup>* `` {hd (step_ids w)}"
proof -
  assume ne: "steps w \<noteq> []" and known: "edges_known w"
  have "graph_rel (reach_edges (edges w) (init_graph (steps w))) = edge_rel w"
    using known unfolding reach_edges_rel
    by (auto simp: graph_rel_def dget_dflt_def init_graph_dget edge_rel_def edges_known_def split: if_splits)
  with ne show ?thesis by (cases "steps w") (simp_all add: get_reachable_steps_def bfs_reachable del: bfs.simps)
qed

lemma validate_connectivity_nil:
  assumes "edges_known w"
  shows "validate_connectivity w = Inr [] \<longleftrightarrow>
    distinct (step_ids w) \<and> acyclic (edge_rel w) \<and>
    (edges w \<noteq> [] \<longrightarrow> set (step_ids w) \<subseteq> (edge_rel w)\<^sup>* `` {hd (step_ids w)})"
proof (cases "steps w = []")
  case True
  then have "edges w = []" using assms by (auto simp: edges_known_def edge_rel_def edge_list_def)
  then show ?thesis using True by (simp add: validate_connectivity_def edge_rel_def edge_list_def acyclic_def)
next
  case False
  have "is_ok (get_step_order w) \<longleftrightarrow> distinct (step_ids w) \<and> acyclic (edge_rel w)"
    using assms by (intro so.order_ok_iff) (simp only: edges_known_def)
  moreover have "validate_connectivity w = Inr [] \<longleftrightarrow> is_ok (get_step_order w) \<and>
      (edges w \<noteq> [] \<longrightarrow> set (step_ids w) - get_reachable_steps w = {})"
    using False by (auto simp: validate_connectivity_def Let_def is_ok_iff split: sum.splits exn.splits)
  ultimately show ?thesis using get_reachable_steps_rel [OF False assms] by auto
qed

lemma validate_nil: "validate reg w = Inr [] \<longleftrightarrow> valid_workflow reg w"
proof -
  have "validate reg w = Inr [] \<longleftrightarrow>
      validate_steps reg w = Inr [] \<and> validate_edges w = [] \<and> validate_connectivity w = Inr []"
    by (auto simp: validate_def bindE_eq_Inr)
  moreover have "validate_steps reg w = Inr [] \<longleftrightarrow> distinct (step_ids w) \<and> (\<forall>s\<in>set (steps w). step_ok reg s)"
    by (simp add: validate_steps_def steps_loop_nil)
  moreover have "a \<noteq> b" if "acyclic (edge_rel w)" "(a, b) \<in> edge_rel w" for a b
    using that by (auto simp: acyclic_def)
  ultimately show ?thesis
    unfolding valid_workflow_def using validate_edges_nil [of w] validate_connectivity_nil [of w] by blast
qed

section \<open>Properties\<close>

text \<open>
  C1: The validator reports no error exactly for the valid workflows: pairwise distinct step ids,
  registered implementations with accepted configurations, edges between declared steps, no cycle,
  and, if there are edges at all, every step reachable from the first one.
\<close>

theorem validate_correct:
  "validate reg w = Inr [] \<longleftrightarrow>
     distinct (step_ids w) \<and>
     (\<forall>s\<in>set (steps w). \<exists>n. get_node reg (implementation s) = Some n \<and>
        (config_override s = [] \<or> node_validate_config n (config_override s) = Inr [])) \<and>
     edge_rel w \<subseteq> set (step_ids w) \<times> set (step_ids w) \<and> acyclic (edge_rel w) \<and>
     (edges w \<noteq> [] \<longrightarrow> set (step_ids w) \<subseteq> (edge_rel w)\<^sup>* `` {hd (step_ids w)})"
  by (simp only: validate_nil valid_workflow_def step_ok_def edges_known_def)

text \<open>A chain validates, so it is acyclic; a detached step makes a workflow with edges invalid.\<close>

theorem validate_correct_witness:
  "acyclic (edge_rel (demo_workflow [''a'', ''b''] [(''a'', ''b'')])) \<and>
   validate NODE_REGISTRY (demo_workflow [''a'', ''b'', ''c''] [(''a'', ''b'')]) = Inr [UnreachableSteps {''c''}]"
proof
  have "validate NODE_REGISTRY (demo_workflow [''a'', ''b''] [(''a'', ''b'')]) = Inr []" by code_simp
  then show "acyclic (edge_rel (demo_workflow [''a'', ''b''] [(''a'', ''b'')]))"
    using validate_correct [of NODE_REGISTRY "demo_workflow [''a'', ''b''] [(''a'', ''b'')]"] by blast
  show "validate NODE_REGISTRY (demo_workflow [''a'', ''b'', ''c''] [(''a'', ''b'')]) = Inr [UnreachableSteps {''c''}]"
    by code_simp
qed

text \<open>
  C5: The breadth-first search returns, and it returns exactly the steps reachable from the first
  step along edges, whenever the edges connect declared steps.
\<close>

theorem get_reachable_steps_correct:
  assumes "edges_known w"
  shows "get_reachable_steps w = (case step_ids w of [] \<Rightarrow> {} | s # _ \<Rightarrow> (edge_rel w)\<^sup>* `` {s})"
proof (cases "steps w")
  case Nil
  then show ?thesis by (simp add: get_reachable_steps_def)
next
  case (Cons s ss)
  then show ?thesis using get_reachable_steps_rel [OF _ assms] by simp
qed

theorem get_reachable_steps_correct_witness:
  "get_reachable_steps (demo_workflow [''a'', ''b'', ''c''] [(''a'', ''b'')]) = {''a'', ''b''} \<and>
   (edge_rel (demo_workflow [''a'', ''b'', ''c''] [(''a'', ''b'')]))\<^sup>* `` {''a''} = {''a'', ''b''}"
proof -
  have "edges_known (demo_workflow [''a'', ''b'', ''c''] [(''a'', ''b'')])"
    "step_ids (demo_workflow [''a'', ''b'', ''c''] [(''a'', ''b'')]) = [''a'', ''b'', ''c'']" by code_simp+
  moreover have "get_reachable_steps (demo_workflow [''a'', ''b'', ''c''] [(''a'', ''b'')]) = {''a'', ''b''}" by code_simp
  ultimately show ?thesis
    using get_reachable_steps_correct [of "demo_workflow [''a'', ''b'', ''c''] [(''a'', ''b'')]"] by simp
qed

text \<open>
  C2: A validated workflow can be scheduled: the strict check passes only if the execution order
  exists, and that order lists every step once with each edge going forward.
\<close>

theorem validated_is_schedulable:
  assumes "validate_strict reg w = Inr ()"
  shows "\<exists>order. get_step_order w = Inr order \<and> distinct order \<and> set order = set (step_ids w) \<and>
    (\<forall>(a, b)\<in>edge_rel w. \<exists>i j. i < j \<and> j < length order \<and> order ! i = a \<and> order ! j = b)"
proof -
  have "validate reg w = Inr []" using assms by (auto simp: validate_strict_def split: sum.splits if_splits)
  then have "valid_workflow reg w" by (simp add: validate_nil)
  then have "is_ok (get_step_order w)"
    by (intro so.order_total) (auto simp: valid_workflow_def edges_known_def)
  then obtain order where "get_step_order w = Inr order" by (auto simp: is_ok_iff)
  with so.order_enum [OF this] so.order_before [OF this] show ?thesis by blast
qed

theorem validated_is_schedulable_witness:
  "\<exists>order. get_step_order (demo_workflow [''a'', ''c'', ''b''] [(''a'', ''b''), (''b'', ''c'')]) = Inr order \<and>
     distinct order"
proof -
  have "validate_strict NODE_REGISTRY (demo_workflow [''a'', ''c'', ''b''] [(''a'', ''b''), (''b'', ''c'')]) = Inr ()"
    by code_simp
  from validated_is_schedulable [OF this] show ?thesis by blast
qed

end
