(* ===== verification/Workflow_Service.thy ===== *)
theory Workflow_Service
  imports Validator
begin

text \<open>
  The workflow service of \<open>app/domain/workflows/service.py\<close>: creating a version, validating without
  saving, the unfinished publish operation and the dry run. \<open>new_uuid\<close> is the generated record id and
  \<open>exn_text\<close> the text of a raised exception; the serialiser and the digest of the definition hash are
  parameters as before.
\<close>

section \<open>Operations\<close>

definition nil_uuid :: string where
  "nil_uuid = ''00000000-0000-0000-0000-000000000000''"

text \<open>The tenant is only logged: it reaches neither the definition nor the version.\<close>

definition create_workflow ::
  "(pyval \<Rightarrow> string) \<Rightarrow> (string \<Rightarrow> string) \<Rightarrow> registry \<Rightarrow> string \<Rightarrow> workflow_fields \<Rightarrow> string \<Rightarrow> string option \<Rightarrow>
   wf_failure + workflow_version" where
  "create_workflow json_dumps sha256_hex reg new_uuid payload tenant created =
     (case model_validate payload of
        Inl e \<Rightarrow> Inl (Raised e)
      | Inr w \<Rightarrow>
          bindE (validate_strict reg w) (\<lambda>_.
          Inr \<lparr>v_id = new_uuid, v_workflow_id = nil_uuid, v_version = 1, v_definition = w,
               v_definition_hash = compute_hash json_dumps sha256_hex w, v_status = Draft,
               v_created_by = created, v_changelog = None, v_published_at = None\<rparr>))"

record validation_result =
  vr_valid :: bool
  vr_errors :: "wf_error list + string"
    \<comment> \<open>the validator's errors, or the text of the one exception\<close>
  vr_step_count :: nat
  vr_edge_count :: nat
  vr_hash :: "string option"

definition validate_workflow ::
  "(pyval \<Rightarrow> string) \<Rightarrow> (string \<Rightarrow> string) \<Rightarrow> (exn \<Rightarrow> string) \<Rightarrow> registry \<Rightarrow> workflow_fields \<Rightarrow> validation_result" where
  "validate_workflow json_dumps sha256_hex exn_text reg payload =
     (case bindE (model_validate payload) (\<lambda>w. bindE (validate reg w) (\<lambda>errors. Inr (w, errors))) of
        Inr (w, errors) \<Rightarrow>
          \<lparr>vr_valid = (length errors = 0), vr_errors = Inl errors, vr_step_count = length (steps w),
           vr_edge_count = length (edges w), vr_hash = Some (compute_hash json_dumps sha256_hex w)\<rparr>
      | Inl e \<Rightarrow>
          \<lparr>vr_valid = False, vr_errors = Inr (exn_text e), vr_step_count = 0, vr_edge_count = 0, vr_hash = None\<rparr>)"

definition publish_version :: "string \<Rightarrow> string option \<Rightarrow> workflow_version res" where
  "publish_version version_id published_by =
     Inl (NotImplementedError ''Repository required for publish operation'')"

record dry_run_result =
  dr_success :: bool
  dr_errors :: "wf_error list + string"
  dr_estimated_steps :: "nat option"

definition get_workflow_dry_run_result ::
  "(pyval \<Rightarrow> string) \<Rightarrow> (string \<Rightarrow> string) \<Rightarrow> (exn \<Rightarrow> string) \<Rightarrow> registry \<Rightarrow> workflow_fields \<Rightarrow> dry_run_result" where
  "get_workflow_dry_run_result json_dumps sha256_hex exn_text reg payload =
     (let v = validate_workflow json_dumps sha256_hex exn_text reg payload in
      if \<not> vr_valid v then \<lparr>dr_success = False, dr_errors = vr_errors v, dr_estimated_steps = None\<rparr>
      else \<lparr>dr_success = True, dr_errors = Inl [], dr_estimated_steps = Some (vr_step_count v)\<rparr>)"

section \<open>Lemmas\<close>

lemma validate_strict_ok: "validate_strict reg w = Inr () \<longleftrightarrow> validate reg w = Inr []"
  by (auto simp: validate_strict_def split: sum.splits)

lemma vr_valid_iff:
  "vr_valid (validate_workflow j h x reg f) \<longleftrightarrow> (\<exists>w. model_validate f = Inr w \<and> validate reg w = Inr [])"
  by (cases "model_validate f")
    (auto simp: validate_workflow_def bindE_eq_Inr split: sum.splits prod.splits)

section \<open>Properties\<close>

text \<open>
  C6: Creating a workflow succeeds exactly when the dry validation of the same definition reports it
  valid, and then yields a draft first version of that very definition with its hash; the dry run
  agrees too. A definition that cannot be built or breaks a rule creates nothing.
\<close>

theorem create_agrees_with_validation:
  "((\<exists>v. create_workflow j h reg uid f tenant cr = Inr v) \<longleftrightarrow> vr_valid (validate_workflow j h x reg f)) \<and>
   (dr_success (get_workflow_dry_run_result j h x reg f) \<longleftrightarrow> vr_valid (validate_workflow j h x reg f)) \<and>
   (\<forall>v. create_workflow j h reg uid f tenant cr = Inr v \<longrightarrow>
      v_status v = Draft \<and> v_version v = 1 \<and> definition_wf (v_definition v) \<and>
      valid_workflow reg (v_definition v) \<and>
      Some (v_definition_hash v) = vr_hash (validate_workflow j h x reg f))"
proof -
  have ok: "create_workflow j h reg uid f tenant cr = Inr v \<longleftrightarrow>
      (\<exists>w. model_validate f = Inr w \<and> validate reg w = Inr [] \<and>
        v = \<lparr>v_id = uid, v_workflow_id = nil_uuid, v_version = 1, v_definition = w,
             v_definition_hash = compute_hash j h w, v_status = Draft, v_created_by = cr,
             v_changelog = None, v_published_at = None\<rparr>)" for v
    using validate_strict_ok [of reg]
    by (auto simp: create_workflow_def bindE_eq_Inr split: sum.splits)
  have hash: "vr_hash (validate_workflow j h x reg f) = Some (compute_hash j h w)"
    if "model_validate f = Inr w" "validate reg w = Inr []" for w
    using that by (simp add: validate_workflow_def)
  show ?thesis
    unfolding ok vr_valid_iff get_workflow_dry_run_result_def Let_def
    using model_validate_wf validate_nil hash by (auto simp: vr_valid_iff)
qed

theorem create_agrees_with_validation_witness:
  "\<exists>v. create_workflow (\<lambda>_. []) (\<lambda>s. s) NODE_REGISTRY ''u'' (demo_fields (Some [demo_step ''a'']) None) ''t'' None = Inr v \<and>
    v_status v = Draft \<and> v_version v = 1"
proof -
  have "vr_valid (validate_workflow (\<lambda>_. []) (\<lambda>s. s) (\<lambda>_. []) NODE_REGISTRY (demo_fields (Some [demo_step ''a'']) None))"
    by code_simp
  then show ?thesis
    using create_agrees_with_validation [of "\<lambda>_. []" "\<lambda>s. s" NODE_REGISTRY "''u''"
        "demo_fields (Some [demo_step ''a'']) None" "''t''" None "\<lambda>_. []"] by blast
qed

end
