(* ===== verification/Eval_Metrics.thy ===== *)
theory Eval_Metrics
  imports Float64
begin

text \<open>
  Offline classification metrics (\<open>app/utils/evaluation_metrics.py\<close>): the confusion counts of a
  prediction run, the summary built from them in binary64 arithmetic, and label distributions.
\<close>

section \<open>Definitions\<close>

definition safe_divide :: "rat \<Rightarrow> rat \<Rightarrow> rat" where
  "safe_divide numerator denominator =
     (if denominator \<noteq> 0 then fdiv numerator denominator else 0)"

record counts =
  tp :: int
  fp :: int
  tn :: int
  fn :: int

text \<open>
  The loop over \<open>zip(actual, predicted, strict=True)\<close>: when one list ends before the other the
  iterator raises.
\<close>

fun confusion_loop :: "string \<Rightarrow> string list \<Rightarrow> string list \<Rightarrow> counts \<Rightarrow> counts res" where
  "confusion_loop pl [] [] c = Inr c"
| "confusion_loop pl (a # as) (p # ps) c =
     confusion_loop pl as ps
       (if p = pl \<and> a = pl then c\<lparr>tp := tp c + 1\<rparr>
        else if p = pl \<and> a \<noteq> pl then c\<lparr>fp := fp c + 1\<rparr>
        else if p \<noteq> pl \<and> a \<noteq> pl then c\<lparr>tn := tn c + 1\<rparr>
        else c\<lparr>fn := fn c + 1\<rparr>)"
| "confusion_loop pl _ _ c = Inl (ValueError ''zip() arguments have different lengths'')"

definition confusion_counts :: "string list \<Rightarrow> string list \<Rightarrow> string \<Rightarrow> counts res" where
  "confusion_counts actual predicted pl =
     confusion_loop pl actual predicted \<lparr>tp = 0, fp = 0, tn = 0, fn = 0\<rparr>"

text \<open>\<open>sum(1 for a, p in zip(actual, predicted, strict=True) if a == p)\<close>.\<close>

fun correct_count :: "string list \<Rightarrow> string list \<Rightarrow> int res" where
  "correct_count [] [] = Inr 0"
| "correct_count (a # as) (p # ps) =
     bindE (correct_count as ps) (\<lambda>n. Inr (if a = p then n + 1 else n))"
| "correct_count _ _ = Inl (ValueError ''zip() arguments have different lengths'')"

record summary =
  samples :: int
  accuracy :: rat
  precision :: rat
  recall :: rat
  f1 :: rat
  summary_counts :: counts

definition classification_summary :: "string list \<Rightarrow> string list \<Rightarrow> string \<Rightarrow> summary res" where
  "classification_summary actual predicted pl =
     (if length actual \<noteq> length predicted
        then Inl (ValueError ''actual and predicted lengths must match'')
      else if actual = [] then Inl (ValueError ''at least one sample is required'')
      else bindE (confusion_counts actual predicted pl) (\<lambda>c.
           bindE (correct_count actual predicted) (\<lambda>correct.
           let p = safe_divide (of_int (tp c)) (of_int (tp c + fp c));
               r = safe_divide (of_int (tp c)) (of_int (tp c + fn c));
               f = safe_divide (fmul (fmul 2 p) r) (fadd p r);
               a = safe_divide (of_int correct) (of_int (int (length actual)))
           in Inr \<lparr>samples = int (length actual), accuracy = a, precision = p, recall = r, f1 = f,
                   summary_counts = c\<rparr>)))"

text \<open>\<open>dict(Counter(labels))\<close>.\<close>

definition class_distribution :: "string list \<Rightarrow> (string, int) dict" where
  "class_distribution labels = fold (\<lambda>l d. dset d l (dget_dflt d l 0 + 1)) labels []"

section \<open>Lemmas\<close>

text \<open>The counts as cardinalities over the list of pairs.\<close>

definition pair_count :: "(string \<Rightarrow> string \<Rightarrow> bool) \<Rightarrow> string list \<Rightarrow> string list \<Rightarrow> int" where
  "pair_count P as ps = int (length (filter (\<lambda>(a, p). P a p) (zip as ps)))"

lemma pair_count_simps [simp]:
  "pair_count P [] ps = 0"
  "pair_count P (a # as) (p # ps) = (if P a p then 1 else 0) + pair_count P as ps"
  by (simp_all add: pair_count_def)

lemma pair_count_nonneg [simp]: "0 \<le> pair_count P as ps"
  by (simp add: pair_count_def)

lemma pair_count_le: "pair_count P as ps \<le> int (length as)"
  unfolding pair_count_def
  by (metis length_filter_le length_zip min.cobounded1 of_nat_mono order_trans)

lemma confusion_loop_counts:
  "length as = length ps \<Longrightarrow> confusion_loop pl as ps c = Inr
     (c\<lparr>tp := tp c + pair_count (\<lambda>a p. a = pl \<and> p = pl) as ps,
       fp := fp c + pair_count (\<lambda>a p. a \<noteq> pl \<and> p = pl) as ps,
       tn := tn c + pair_count (\<lambda>a p. a \<noteq> pl \<and> p \<noteq> pl) as ps,
       fn := fn c + pair_count (\<lambda>a p. a = pl \<and> p \<noteq> pl) as ps\<rparr>)"
proof (induction pl as ps c rule: confusion_loop.induct)
  case (2 pl a as p ps c)
  then show ?case by (cases c) auto
qed auto

lemma confusion_loop_mismatch:
  "length as \<noteq> length ps \<Longrightarrow>
     confusion_loop pl as ps c = Inl (ValueError ''zip() arguments have different lengths'')"
  by (induction pl as ps c rule: confusion_loop.induct) auto

lemma correct_count_eq:
  "length as = length ps \<Longrightarrow> correct_count as ps = Inr (pair_count (\<lambda>a p. a = p) as ps)"
  by (induction as ps rule: correct_count.induct) auto

lemma pair_count_partition:
  "length as = length ps \<Longrightarrow>
     pair_count (\<lambda>a p. a = pl \<and> p = pl) as ps + pair_count (\<lambda>a p. a \<noteq> pl \<and> p = pl) as ps +
     pair_count (\<lambda>a p. a \<noteq> pl \<and> p \<noteq> pl) as ps + pair_count (\<lambda>a p. a = pl \<and> p \<noteq> pl) as ps =
     int (length as)"
  by (induction as ps rule: list_induct2) auto

lemma safe_divide_unit:
  "0 \<le> a \<Longrightarrow> a \<le> b \<Longrightarrow> 0 \<le> safe_divide a b \<and> safe_divide a b \<le> 1"
  using f64.rnd_ratio [of a b] by (simp add: safe_divide_def fdiv_def)

lemma safe_divide_rep: "is_f64 (safe_divide a b)"
  using f64.rnd_rep f64.rep_int [of 0] by (simp add: safe_divide_def fdiv_def)

lemma f1_unit:
  assumes "is_f64 p" "0 \<le> p" "p \<le> 1" "0 \<le> r" "r \<le> 1"
  shows "0 \<le> safe_divide (fmul (fmul 2 p) r) (fadd p r) \<and>
    safe_divide (fmul (fmul 2 p) r) (fadd p r) \<le> 1"
  using f64.rnd_harmonic [OF assms] by (simp add: safe_divide_def fdiv_def fmul_def fadd_def)

lemma safe_divide_self: "a \<noteq> 0 \<Longrightarrow> safe_divide a a = 1"
  by (simp add: safe_divide_def fdiv_def f64.rnd_1)

lemma class_distribution_snoc:
  "class_distribution (ls @ [l]) =
     dset (class_distribution ls) l (dget_dflt (class_distribution ls) l 0 + 1)"
  by (simp add: class_distribution_def)

lemma class_distribution_wf: "dict_wf (class_distribution ls)"
proof (induction ls rule: rev_induct)
  case Nil
  show ?case by (simp add: class_distribution_def)
next
  case (snoc l ls)
  then show ?case by (simp add: class_distribution_snoc)
qed

lemma sum_list_dset:
  "dict_wf d \<Longrightarrow> sum_list (dvalues (dset d k v)) = sum_list (dvalues d) + v - dget_dflt d k (0 :: int)"
proof (induction d)
  case (Cons kv d)
  obtain a b where kv: "kv = (a, b)" by fastforce
  show ?case
  proof (cases "a = k")
    case True
    then show ?thesis using kv by (simp add: dget_dflt_def)
  next
    case False
    then show ?thesis using Cons kv by (simp add: dget_dflt_def)
  qed
qed (simp add: dget_dflt_def)

lemma confusion_counts_eq:
  "confusion_counts actual predicted pl =
    (if length actual = length predicted then Inr
       \<lparr>tp = pair_count (\<lambda>a p. a = pl \<and> p = pl) actual predicted,
        fp = pair_count (\<lambda>a p. a \<noteq> pl \<and> p = pl) actual predicted,
        tn = pair_count (\<lambda>a p. a \<noteq> pl \<and> p \<noteq> pl) actual predicted,
        fn = pair_count (\<lambda>a p. a = pl \<and> p \<noteq> pl) actual predicted\<rparr>
     else Inl (ValueError ''zip() arguments have different lengths''))"
  by (simp add: confusion_counts_def confusion_loop_counts confusion_loop_mismatch)

section \<open>Properties\<close>

text \<open>
  The confusion counts are computed exactly for lists of equal length; they are the cells of
  the confusion matrix: true positives, false positives and false negatives count the positions
  with their combination of actual and predicted label, and all four add up to the number of
  samples.
\<close>

theorem confusion_counts_cells:
  "confusion_counts actual predicted pl = Inr c \<longleftrightarrow>
     length actual = length predicted \<and>
     tp c = int (length (filter (\<lambda>(a, p). a = pl \<and> p = pl) (zip actual predicted))) \<and>
     fp c = int (length (filter (\<lambda>(a, p). a \<noteq> pl \<and> p = pl) (zip actual predicted))) \<and>
     fn c = int (length (filter (\<lambda>(a, p). a = pl \<and> p \<noteq> pl) (zip actual predicted))) \<and>
     tp c + fp c + tn c + fn c = int (length actual)"
  using pair_count_partition [of actual predicted pl]
  by (cases c) (auto simp: confusion_counts_eq pair_count_def [symmetric])

text \<open>
  C29: On any non-empty run of equally long lists the summary is returned, and accuracy, precision,
  recall and F1, computed in binary64 with every operation rounded, all lie in the unit interval;
  the four counts add up to the number of samples.
\<close>

theorem classification_summary_unit:
  assumes "length actual = length predicted" and "actual \<noteq> []"
  shows "\<exists>s. classification_summary actual predicted pl = Inr s \<and>
    0 \<le> accuracy s \<and> accuracy s \<le> 1 \<and> 0 \<le> precision s \<and> precision s \<le> 1 \<and>
    0 \<le> recall s \<and> recall s \<le> 1 \<and> 0 \<le> f1 s \<and> f1 s \<le> 1 \<and>
    tp (summary_counts s) + fp (summary_counts s) + tn (summary_counts s) + fn (summary_counts s)
      = samples s"
proof -
  let ?t = "pair_count (\<lambda>a p. a = pl \<and> p = pl) actual predicted"
  let ?f = "pair_count (\<lambda>a p. a \<noteq> pl \<and> p = pl) actual predicted"
  let ?n = "pair_count (\<lambda>a p. a = pl \<and> p \<noteq> pl) actual predicted"
  let ?c = "pair_count (\<lambda>a p. a = p) actual predicted"
  let ?p = "safe_divide (of_int ?t) (of_int (?t + ?f))"
  let ?r = "safe_divide (of_int ?t) (of_int (?t + ?n))"
  have p: "0 \<le> ?p \<and> ?p \<le> 1" by (rule safe_divide_unit) simp_all
  have r: "0 \<le> ?r \<and> ?r \<le> 1" by (rule safe_divide_unit) simp_all
  have f: "0 \<le> safe_divide (fmul (fmul 2 ?p) ?r) (fadd ?p ?r) \<and>
      safe_divide (fmul (fmul 2 ?p) ?r) (fadd ?p ?r) \<le> 1"
    using p r safe_divide_rep by (intro f1_unit) auto
  have "(of_int ?c :: rat) \<le> of_int (int (length actual))"
    using pair_count_le by (simp only: of_int_le_iff)
  then have a: "0 \<le> safe_divide (of_int ?c) (of_int (int (length actual))) \<and>
      safe_divide (of_int ?c) (of_int (int (length actual))) \<le> 1"
    by (intro safe_divide_unit) simp_all
  show ?thesis
    using assms p r f a pair_count_partition [OF assms(1), of pl]
    by (simp add: classification_summary_def confusion_counts_eq correct_count_eq Let_def algebra_simps)
qed

theorem classification_summary_unit_witness:
  "\<exists>s. classification_summary [''a'', ''b'', ''a''] [''a'', ''a'', ''b''] ''a'' = Inr s \<and>
    0 \<le> f1 s \<and> f1 s \<le> 1 \<and> samples s = 3"
proof -
  have "\<exists>s. classification_summary [''a'', ''b'', ''a''] [''a'', ''a'', ''b''] ''a'' = Inr s \<and>
      0 \<le> f1 s \<and> f1 s \<le> 1 \<and>
      tp (summary_counts s) + fp (summary_counts s) + tn (summary_counts s) + fn (summary_counts s)
        = samples s"
    using classification_summary_unit [of "[''a'', ''b'', ''a'']" "[''a'', ''a'', ''b'']" "''a''"]
    by auto
  then show ?thesis by (auto simp: classification_summary_def bindE_eq_Inr Let_def)
qed

text \<open>
  A perfect prediction that contains the positive label scores exactly one on accuracy,
  precision, recall and F1.
\<close>

theorem classification_summary_perfect:
  assumes "pl \<in> set labels"
  shows "\<exists>s. classification_summary labels labels pl = Inr s \<and>
    accuracy s = 1 \<and> precision s = 1 \<and> recall s = 1 \<and> f1 s = 1"
proof -
  have zero: "pair_count (\<lambda>a p. a \<noteq> pl \<and> p = pl) labels labels = 0"
    "pair_count (\<lambda>a p. a = pl \<and> p \<noteq> pl) labels labels = 0" by (induction labels) auto
  have all: "pair_count (\<lambda>a p. a = p) labels labels = int (length labels)" by (induction labels) auto
  have pos: "pair_count (\<lambda>a p. a = pl \<and> p = pl) labels labels \<noteq> 0"
    using assms
  proof (induction labels)
    case (Cons l ls)
    have "1 + pair_count (\<lambda>a p. a = pl \<and> p = pl) ls ls \<noteq> 0"
      using pair_count_nonneg [of "\<lambda>a p. a = pl \<and> p = pl" ls ls] by linarith
    with Cons show ?case by (cases "l = pl") auto
  qed simp
  have f: "safe_divide (fmul (fmul 2 1) 1) (fadd 1 1) = 1" by code_simp
  have "labels \<noteq> []" using assms by auto
  then show ?thesis
    using zero all pos f
    by (simp add: classification_summary_def confusion_counts_eq correct_count_eq Let_def
        safe_divide_self)
qed

theorem classification_summary_perfect_witness:
  "\<exists>s. classification_summary [''x'', ''y''] [''x'', ''y''] ''x'' = Inr s \<and> f1 s = 1"
  using classification_summary_perfect [of "''x''" "[''x'', ''y'']"] by auto

text \<open>
  A label distribution has each label once, maps it to its number of occurrences, and its
  values add up to the number of labels.
\<close>

theorem class_distribution_counts:
  "dict_wf (class_distribution labels) \<and>
   dget (class_distribution labels) l =
     (if l \<in> set labels then Some (int (count_list labels l)) else None) \<and>
   sum_list (dvalues (class_distribution labels)) = int (length labels)"
proof (induction labels rule: rev_induct)
  case Nil
  show ?case by (simp add: class_distribution_def)
next
  case (snoc x ls)
  have "dget (class_distribution (ls @ [x])) l =
      (if l \<in> set (ls @ [x]) then Some (int (count_list (ls @ [x]) l)) else None)"
    using snoc by (auto simp: class_distribution_snoc dget_dflt_def count_list_0_iff split: option.splits if_splits)
  moreover have "sum_list (dvalues (class_distribution (ls @ [x]))) = int (length (ls @ [x]))"
    using snoc by (simp add: class_distribution_snoc sum_list_dset class_distribution_wf)
  ultimately show ?case using class_distribution_wf by blast
qed

end
