(* ===== verification/Settings.thy ===== *)
theory Settings
  imports Prelude
begin

text \<open>
  Application settings (\<open>app/core/config/settings.py\<close>): the environment names, the sections of the
  settings class that the modelled code reads, its validators, and the database address. A section
  of the class is one record, \<open>settings\<close> collects them. Reading environment variables and files, and
  the coercion of their values to the field types, belongs to the settings library; the
  validators run on the values it delivers.
\<close>

section \<open>Environments\<close>

datatype environment = DEV | STAGING | PRODUCTION | TEST

fun environment_value :: "environment \<Rightarrow> string" where
  "environment_value DEV = ''dev''"
| "environment_value STAGING = ''staging''"
| "environment_value PRODUCTION = ''production''"
| "environment_value TEST = ''test''"

definition environment_aliases :: "(string, environment) dict" where
  "environment_aliases =
     [(''development'', DEV), (''dev'', DEV), (''prod'', PRODUCTION), (''production'', PRODUCTION),
      (''stage'', STAGING), (''staging'', STAGING), (''test'', TEST), (''testing'', TEST)]"

definition parse_environment :: "string option \<Rightarrow> environment" where
  "parse_environment value =
     (let raw = lower (strip (case value of None \<Rightarrow> ''dev'' | Some v \<Rightarrow> if v = [] then ''dev'' else v)) in
      dget_dflt environment_aliases raw DEV)"

definition get_env_file :: "environment \<Rightarrow> string" where
  "get_env_file e = ''configs/'' @ environment_value e @ ''.env''"

section \<open>The settings class\<close>

datatype database_provider = POSTGRESQL | SUPABASE | SQLITE

record app_settings =
  APP_NAME :: string
  APP_VERSION :: string
  DESCRIPTION :: string
  API_PREFIX :: string
  DEBUG_MODE :: bool
  ENVIRONMENT :: environment

record db_settings =
  DB_PROVIDER :: database_provider
  DATABASE_URL :: "string option"
  POSTGRESQL_USERNAME :: string
  POSTGRESQL_PASSWORD :: string
  POSTGRESQL_SERVER :: string
  POSTGRESQL_PORT :: int
  POSTGRESQL_DATABASE :: string
  DATABASE_POOL_SIZE :: int
  DATABASE_MAX_OVERFLOW :: int
  DATABASE_POOL_RECYCLE :: int
  SQLITE_URL :: string
  SUPABASE_DB_URL :: "string option"

record security_settings =
  SECRET_KEY :: string
  JWT_SECRET_KEY :: "string option"
  JWT_ALGORITHM :: string
  JWT_ACCESS_TOKEN_EXPIRE_MINUTES :: int
  JWT_REFRESH_TOKEN_EXPIRE_DAYS :: int
  JWT_CONFIRMATION_TOKEN_EXPIRE_MINUTES :: int
  ADMIN_USERNAME :: string
  ADMIN_PASSWORD :: string
  DEFAULT_TENANT_ID :: string

record redis_settings =
  REDIS_HOST :: string
  REDIS_PORT :: int
  REDIS_USER_NAME :: string
  REDIS_PASSWORD :: string
  REDIS_DB :: int
  REDIS_SSL :: bool
  REDIS_URL :: "string option"

record queue_settings =
  CELERY_BROKER_URL :: string
  CELERY_RESULT_BACKEND :: string
  KAFKA_ENABLED :: bool
  KAFKA_BOOTSTRAP_SERVERS :: string
  KAFKA_TOPIC_EVAL_REQUESTED :: string
  KAFKA_TOPIC_EVAL_COMPLETED :: string
  KAFKA_TOPIC_EVAL_FAILED :: string
  KAFKA_CONSUMER_GROUP_ID :: string

record rate_settings =
  RATE_LIMIT_ENABLED :: bool
  RATE_LIMIT_PER_MINUTE :: int
  RATE_LIMIT_PER_HOUR :: int

record cors_settings =
  BACKEND_CORS_ORIGINS :: string
  CORS_ORIGINS :: "string list"

record settings =
  app :: app_settings
  db :: db_settings
  sec :: security_settings
  cors :: cors_settings
  redis :: redis_settings
  queue :: queue_settings
  rates :: rate_settings
  LANGSMITH_API_KEY :: string
  LANGSMITH_PROJECT :: string
  OTEL_EXPORTER_ENDPOINT :: string
  LOG_LEVEL :: string
  LOG_FORMAT :: string

text \<open>The defaults of the class.\<close>

definition default_settings :: settings where
  "default_settings =
     \<lparr>app = \<lparr>APP_NAME = ''RAG Evaluation Service'', APP_VERSION = ''1.0.0'',
             DESCRIPTION = ''A service for evaluating RAG systems.'', API_PREFIX = ''/api'',
             DEBUG_MODE = False, ENVIRONMENT = DEV\<rparr>,
      db = \<lparr>DB_PROVIDER = POSTGRESQL, DATABASE_URL = None, POSTGRESQL_USERNAME = ''admin'',
            POSTGRESQL_PASSWORD = ''admin'', POSTGRESQL_SERVER = ''localhost'', POSTGRESQL_PORT = 5432,
            POSTGRESQL_DATABASE = ''db_rag_eval'', DATABASE_POOL_SIZE = 20, DATABASE_MAX_OVERFLOW = 10,
            DATABASE_POOL_RECYCLE = 3600, SQLITE_URL = ''sqlite+aiosqlite:///./test.db'',
            SUPABASE_DB_URL = None\<rparr>,
      sec = \<lparr>SECRET_KEY = ''dev-secret-key-minimum-32-characters-long-only'',
             JWT_SECRET_KEY = Some ''dev-change-me-in-production'', JWT_ALGORITHM = ''HS256'',
             JWT_ACCESS_TOKEN_EXPIRE_MINUTES = 30, JWT_REFRESH_TOKEN_EXPIRE_DAYS = 7,
             JWT_CONFIRMATION_TOKEN_EXPIRE_MINUTES = 10, ADMIN_USERNAME = ''admin'',
             ADMIN_PASSWORD = ''admin'', DEFAULT_TENANT_ID = ''default''\<rparr>,
      cors = \<lparr>BACKEND_CORS_ORIGINS = [],
              CORS_ORIGINS = [''http://localhost'', ''http://localhost:3000'', ''http://localhost:5173'',
                ''http://localhost:8080'']\<rparr>,
      redis = \<lparr>REDIS_HOST = ''localhost'', REDIS_PORT = 6379, REDIS_USER_NAME = ''default'', REDIS_PASSWORD = [],
               REDIS_DB = 0, REDIS_SSL = True, REDIS_URL = None\<rparr>,
      queue = \<lparr>CELERY_BROKER_URL = ''redis://localhost:6379/1'', CELERY_RESULT_BACKEND = ''redis://localhost:6379/2'',
               KAFKA_ENABLED = False, KAFKA_BOOTSTRAP_SERVERS = ''localhost:9092'',
               KAFKA_TOPIC_EVAL_REQUESTED = ''eval.requested'', KAFKA_TOPIC_EVAL_COMPLETED = ''eval.completed'',
               KAFKA_TOPIC_EVAL_FAILED = ''eval.failed'', KAFKA_CONSUMER_GROUP_ID = ''eval-workers''\<rparr>,
      rates = \<lparr>RATE_LIMIT_ENABLED = True, RATE_LIMIT_PER_MINUTE = 60, RATE_LIMIT_PER_HOUR = 2\<rparr>,
      LANGSMITH_API_KEY = [], LANGSMITH_PROJECT = ''lavie'', OTEL_EXPORTER_ENDPOINT = [],
      LOG_LEVEL = ''INFO'', LOG_FORMAT = ''json''\<rparr>"

section \<open>Validators\<close>

text \<open>The bounds of the fields; one failing bound makes the construction fail.\<close>

definition field_bounds_ok :: "settings \<Rightarrow> bool" where
  "field_bounds_ok s \<longleftrightarrow>
     1 \<le> POSTGRESQL_PORT (db s) \<and> POSTGRESQL_PORT (db s) \<le> 65535 \<and>
     1 \<le> DATABASE_POOL_SIZE (db s) \<and> DATABASE_POOL_SIZE (db s) \<le> 100 \<and>
     0 \<le> DATABASE_MAX_OVERFLOW (db s) \<and> DATABASE_MAX_OVERFLOW (db s) \<le> 100 \<and>
     300 \<le> DATABASE_POOL_RECYCLE (db s) \<and>
     32 \<le> length (SECRET_KEY (sec s)) \<and>
     1 \<le> JWT_ACCESS_TOKEN_EXPIRE_MINUTES (sec s) \<and> 1 \<le> JWT_REFRESH_TOKEN_EXPIRE_DAYS (sec s) \<and>
     1 \<le> JWT_CONFIRMATION_TOKEN_EXPIRE_MINUTES (sec s) \<and>
     1 \<le> RATE_LIMIT_PER_MINUTE (rates s) \<and> 1 \<le> RATE_LIMIT_PER_HOUR (rates s)"

definition upper_char :: "char \<Rightarrow> char" where
  "upper_char c = (let n = of_char c :: nat in if 97 \<le> n \<and> n \<le> 122 then char_of (n - 32) else c)"

text \<open>The level names are ASCII, so only ASCII letters need a case mapping here.\<close>

definition validate_log_level :: "string \<Rightarrow> string res" where
  "validate_log_level value =
     (let v = map upper_char value in
      if v \<notin> {''DEBUG'', ''INFO'', ''WARNING'', ''ERROR'', ''CRITICAL''} then Inl (ValueError ''LOG_LEVEL'')
      else Inr v)"

definition validate_database_url :: "string option \<Rightarrow> string option res" where
  "validate_database_url value =
     (case value of
        None \<Rightarrow> Inr None
      | Some v \<Rightarrow>
          if v = [] then Inr None
          else if \<not> (startswith v ''postgresql://'' \<or> startswith v ''postgresql+asyncpg://'' \<or>
                     startswith v ''sqlite+aiosqlite://'') then Inl (ValueError ''DATABASE_URL'')
          else Inr (Some v))"

definition normalize_cors_origins :: "cors_settings \<Rightarrow> cors_settings" where
  "normalize_cors_origins c =
     (if BACKEND_CORS_ORIGINS c \<noteq> [] then
        c\<lparr>CORS_ORIGINS := filter (\<lambda>x. x \<noteq> []) (map strip (split_on '','' [] (BACKEND_CORS_ORIGINS c)))\<rparr>
      else c)"

definition is_production :: "settings \<Rightarrow> bool" where
  "is_production s \<longleftrightarrow> ENVIRONMENT (app s) = PRODUCTION"

definition validate_environment_rules :: "settings \<Rightarrow> settings res" where
  "validate_environment_rules s =
     (if is_production s \<and>
         (startswith (SECRET_KEY (sec s)) ''dev-'' \<or> str_in ''change-me'' (lower (SECRET_KEY (sec s))))
      then Inl (ValueError ''Production SECRET_KEY must be a real secret'')
      else if is_production s \<and> DEBUG_MODE (app s)
      then Inl (ValueError ''DEBUG_MODE must be false in production'')
      else if is_production s \<and> ''*'' \<in> set (CORS_ORIGINS (cors s))
      then Inl (ValueError ''Wildcard CORS is not allowed in production'')
      else if DB_PROVIDER (db s) = SUPABASE \<and>
              (case SUPABASE_DB_URL (db s) of None \<Rightarrow> True | Some u \<Rightarrow> u = [])
      then Inl (ValueError ''SUPABASE_DB_URL is required when DB_PROVIDER=supabase'')
      else Inr s)"

text \<open>Construction: field validators, then the two model validators in the order of the class.\<close>

definition make_settings :: "settings \<Rightarrow> settings res" where
  "make_settings s =
     (if \<not> field_bounds_ok s then Inl (ValueError ''field bounds'')
      else bindE (validate_log_level (LOG_LEVEL s)) (\<lambda>level.
           bindE (validate_database_url (DATABASE_URL (db s))) (\<lambda>url.
           let s = s\<lparr>LOG_LEVEL := level, db := (db s)\<lparr>DATABASE_URL := url\<rparr>\<rparr>;
               s = s\<lparr>cors := normalize_cors_origins (cors s)\<rparr> in
           validate_environment_rules s)))"

text \<open>
  \<open>get_settings\<close>: \<open>load\<close> stands for reading the environment file and the process environment, which the
  settings library does; the chosen environment overrides both.
\<close>

definition get_settings ::
  "(string option \<Rightarrow> settings) \<Rightarrow> (string \<Rightarrow> bool) \<Rightarrow> string option \<Rightarrow> string option \<Rightarrow> settings res" where
  "get_settings load file_exists app_env env =
     (let e = parse_environment (case app_env of Some v \<Rightarrow> if v \<noteq> [] then Some v else env | None \<Rightarrow> env);
          f = get_env_file e;
          s = load (if file_exists f then Some f else None) in
      make_settings (s\<lparr>app := (app s)\<lparr>ENVIRONMENT := e\<rparr>\<rparr>))"

section \<open>Derived values\<close>

definition is_development :: "settings \<Rightarrow> bool" where
  "is_development s \<longleftrightarrow> ENVIRONMENT (app s) = DEV"

definition is_testing :: "settings \<Rightarrow> bool" where
  "is_testing s \<longleftrightarrow> ENVIRONMENT (app s) = TEST"

definition is_otel_enabled :: "settings \<Rightarrow> bool" where
  "is_otel_enabled s \<longleftrightarrow> OTEL_EXPORTER_ENDPOINT s \<noteq> [] \<and> strip (OTEL_EXPORTER_ENDPOINT s) \<noteq> []"

text \<open>An empty secret is falsy.\<close>

definition resolved_jwt_secret :: "settings \<Rightarrow> string" where
  "resolved_jwt_secret s =
     (case JWT_SECRET_KEY (sec s) of
        Some k \<Rightarrow> if k \<noteq> [] then k else SECRET_KEY (sec s)
      | None \<Rightarrow> SECRET_KEY (sec s))"

text \<open>\<open>quote_plus\<close>: unreserved characters stay, a blank becomes a plus, every other UTF-8 byte is escaped.\<close>

definition hex_char :: "nat \<Rightarrow> char" where
  "hex_char d = (if d < 10 then char_of (48 + d) else char_of (55 + d))"

definition percent :: "nat \<Rightarrow> string" where
  "percent b = [CHR ''%'', hex_char (b div 16), hex_char (b mod 16)]"

definition unreserved :: "char \<Rightarrow> bool" where
  "unreserved c \<longleftrightarrow>
     (let n = of_char c :: nat in
      (48 \<le> n \<and> n \<le> 57) \<or> (65 \<le> n \<and> n \<le> 90) \<or> (97 \<le> n \<and> n \<le> 122) \<or> c \<in> set ''_.-~'')"

definition quote_char :: "char \<Rightarrow> string" where
  "quote_char c =
     (let n = of_char c :: nat in
      if unreserved c then [c]
      else if n = 32 then ''+''
      else if n < 128 then percent n
      else percent (192 + n div 64) @ percent (128 + n mod 64))"

definition quote_plus :: "string \<Rightarrow> string" where
  "quote_plus s = concat (map quote_char s)"

definition postgres_url :: "db_settings \<Rightarrow> string" where
  "postgres_url d =
     ''postgresql+asyncpg://'' @ POSTGRESQL_USERNAME d @ '':'' @ quote_plus (POSTGRESQL_PASSWORD d) @ ''@'' @
     POSTGRESQL_SERVER d @ '':'' @ show_int (POSTGRESQL_PORT d) @ ''/'' @ POSTGRESQL_DATABASE d"

definition get_database_url :: "settings \<Rightarrow> string res" where
  "get_database_url s =
     (let d = db s in
      case DB_PROVIDER d of
        SQLITE \<Rightarrow> Inr (SQLITE_URL d)
      | SUPABASE \<Rightarrow>
          (case SUPABASE_DB_URL d of
             Some u \<Rightarrow> if u \<noteq> [] then Inr u else Inl (ValueError ''SUPABASE_DB_URL is required'')
           | None \<Rightarrow> Inl (ValueError ''SUPABASE_DB_URL is required''))
      | POSTGRESQL \<Rightarrow>
          (case DATABASE_URL d of
             Some u \<Rightarrow> if u \<noteq> [] then Inr u else Inr (postgres_url d)
           | None \<Rightarrow> Inr (postgres_url d)))"

text \<open>\<open>s.replace(old, "")\<close>.\<close>

definition py_remove :: "string \<Rightarrow> string \<Rightarrow> string" where
  "py_remove s old = concat (split_on old [] s)"

definition get_database_sync_url :: "settings \<Rightarrow> string res" where
  "get_database_sync_url s = bindE (get_database_url s) (\<lambda>u. Inr (py_remove u ''+asyncpg''))"

section \<open>Lemmas\<close>

lemma hex_char_code: "d < 16 \<Longrightarrow> of_char (hex_char d) = (if d < 10 then 48 + d else 55 + d :: nat)"
  by (simp add: hex_char_def)

lemma hex_char_inject: "d < 16 \<Longrightarrow> e < 16 \<Longrightarrow> hex_char d = hex_char e \<longleftrightarrow> d = e"
proof
  assume de: "d < 16" "e < 16" "hex_char d = hex_char e"
  then have "(if d < 10 then 48 + d else 55 + d) = (if e < 10 then 48 + e else 55 + e)"
    by (metis hex_char_code)
  then show "d = e" by (simp split: if_splits)
qed simp

lemma percent_inject: "b < 256 \<Longrightarrow> b' < 256 \<Longrightarrow> percent b = percent b' \<longleftrightarrow> b = b'"
proof -
  assume b: "b < 256" "b' < 256"
  then have "b div 16 < 16" "b' div 16 < 16" by auto
  then have "percent b = percent b' \<longleftrightarrow> b div 16 = b' div 16 \<and> b mod 16 = b' mod 16"
    by (simp add: percent_def hex_char_inject)
  then show ?thesis by (metis div_mult_mod_eq)
qed

lemma char_code_less: "(of_char c :: nat) < 256"
  by (rule nat_of_char_less_256)

lemma char_code_inject: "(of_char c :: nat) = of_char d \<longleftrightarrow> c = d"
  by (simp add: of_char_eq_iff)

text \<open>The three shapes of an escaped character; the second character tells the last two apart.\<close>

lemma quote_char_cases:
  obtains (plain) "hd (quote_char c) \<noteq> CHR ''%''" "length (quote_char c) = 1"
      "c = (if quote_char c = ''+'' then CHR '' '' else hd (quote_char c))"
  | (one) "quote_char c = percent (of_char c)" "(of_char c :: nat) < 128"
  | (two) "quote_char c = percent (192 + of_char c div 64) @ percent (128 + of_char c mod 64)" "128 \<le> (of_char c :: nat)"
proof -
  let ?n = "of_char c :: nat"
  have pct: "\<not> unreserved CHR ''%''" "\<not> unreserved CHR ''+''" by (simp_all add: unreserved_def)
  consider "unreserved c" | "\<not> unreserved c" "?n = 32" | "\<not> unreserved c" "?n \<noteq> 32" "?n < 128"
    | "\<not> unreserved c" "?n \<noteq> 32" "128 \<le> ?n" by linarith
  then show ?thesis
  proof cases
    case 1
    then have "quote_char c = [c]" by (simp add: quote_char_def Let_def)
    moreover have "c \<noteq> CHR ''%''" "c \<noteq> CHR ''+''" using 1 pct by auto
    ultimately show ?thesis using plain by simp
  next
    case 2
    then have "quote_char c = ''+''" by (simp add: quote_char_def Let_def)
    moreover have "c = CHR '' ''" using 2(2) char_code_inject [of c "CHR '' ''"] by simp
    ultimately show ?thesis using plain by simp
  next
    case 3
    then show ?thesis using one by (simp add: quote_char_def Let_def)
  next
    case 4
    then show ?thesis using two by (simp add: quote_char_def Let_def)
  qed
qed

lemma percent_hd [simp]: "hd (percent b @ s) = CHR ''%''" "hd (percent b) = CHR ''%''" "length (percent b) = 3"
  by (simp_all add: percent_def)

lemma percent_second: "b < 256 \<Longrightarrow> (percent b @ s) ! 1 = CHR ''C'' \<longleftrightarrow> b div 16 = 12"
proof -
  assume "b < 256"
  then have "hex_char (b div 16) = hex_char 12 \<longleftrightarrow> b div 16 = 12" by (intro hex_char_inject) auto
  moreover have "hex_char 12 = CHR ''C''" by (simp add: hex_char_def char_of_eq_iff)
  ultimately show ?thesis by (simp add: percent_def)
qed

lemma quote_char_nonempty [simp]: "quote_char c \<noteq> []"
  by (cases rule: quote_char_cases [of c]) (auto simp: percent_def)

text \<open>The code is uniquely decodable.\<close>

lemma quote_char_prefix: "quote_char c @ t = quote_char d @ u \<Longrightarrow> c = d \<and> t = u"
proof -
  assume eq: "quote_char c @ t = quote_char d @ u"
  note ne = quote_char_nonempty [of c] quote_char_nonempty [of d]
  then have hd: "hd (quote_char c) = hd (quote_char d)" using eq by (metis hd_append2)
  have len: "length (quote_char c) = length (quote_char d) \<Longrightarrow> quote_char c = quote_char d \<and> t = u"
    using eq by simp
  have small: "128 \<le> (of_char x :: nat) \<Longrightarrow> 192 + of_char x div 64 < (256 :: nat) \<and> (192 + of_char x div 64) div 16 = (12 :: nat) \<and>
      128 + of_char x mod 64 < (256 :: nat)" for x
  proof -
    assume "128 \<le> (of_char x :: nat)"
    moreover have "(of_char x :: nat) div 64 < 4" by (simp add: div_less_iff_less_mult)
    moreover have "128 div 64 \<le> (of_char x :: nat) div 64" using calculation(1) by (rule div_le_mono)
    ultimately have "of_char x div 64 \<in> {2, 3 :: nat}" by auto
    moreover have "(of_char x :: nat) mod 64 < 64" by simp
    ultimately show ?thesis by auto
  qed
  show ?thesis
  proof (cases rule: quote_char_cases [of c])
    case c: plain
    show ?thesis
    proof (cases rule: quote_char_cases [of d])
      case d: plain
      with c len have q: "quote_char c = quote_char d" "t = u" by auto
      then have "c = d" by (subst c(3), subst d(3)) simp
      with q show ?thesis by simp
    qed (use c hd in auto)
  next
    case c: one
    show ?thesis
    proof (cases rule: quote_char_cases [of d])
      case d: one
      with c len have "percent (of_char c) = percent (of_char d)" "t = u" by auto
      then show ?thesis using percent_inject [OF char_code_less char_code_less, of c d] char_code_inject by auto
    next
      case d: two
      have "(percent (of_char c) @ t) ! 1 = CHR ''C''"
        using eq c(1) d(1) percent_second [of "192 + of_char d div 64" "percent (128 + of_char d mod 64) @ u"] small [OF d(2)]
        by simp
      then show ?thesis using percent_second [OF char_code_less, of c t] c(2) by auto
    qed (use c hd in auto)
  next
    case c: two
    show ?thesis
    proof (cases rule: quote_char_cases [of d])
      case d: one
      have "(percent (of_char d) @ u) ! 1 = CHR ''C''"
        using eq c(1) d(1) percent_second [of "192 + of_char c div 64" "percent (128 + of_char c mod 64) @ t"] small [OF c(2)]
        by simp
      then show ?thesis using percent_second [OF char_code_less, of d u] d(2) by auto
    next
      case d: two
      with c len have q: "quote_char c = quote_char d" "t = u" by auto
      then have "percent (192 + of_char c div 64) = percent (192 + of_char d div 64)"
        "percent (128 + of_char c mod 64) = percent (128 + of_char d mod 64)" using c(1) d(1) by auto
      then have "(of_char c :: nat) div 64 = of_char d div 64" "(of_char c :: nat) mod 64 = of_char d mod 64"
        using percent_inject small [OF c(2)] small [OF d(2)] by auto
      then have "(of_char c :: nat) = of_char d" by (metis div_mult_mod_eq)
      with q show ?thesis using char_code_inject by auto
    qed (use c hd in auto)
  qed
qed

lemma quote_plus_simps [simp]:
  "quote_plus [] = []" "quote_plus (c # s) = quote_char c @ quote_plus s"
  by (simp_all add: quote_plus_def)

lemma quote_plus_inject: "quote_plus s = quote_plus t \<Longrightarrow> s = t"
proof (induction s arbitrary: t)
  case Nil
  then show ?case by (cases t) auto
next
  case (Cons c s)
  then obtain d t' where t: "t = d # t'" by (cases t) auto
  then have "quote_char c @ quote_plus s = quote_char d @ quote_plus t'" using Cons.prems by simp
  from quote_char_prefix [OF this] Cons.IH t show ?case by auto
qed

lemma hex_char_unreserved: "d < 16 \<Longrightarrow> unreserved (hex_char d)"
  using hex_char_code [of d] by (simp add: unreserved_def Let_def split: if_splits)

lemma percent_chars: "b < 256 \<Longrightarrow> x \<in> set (percent b) \<Longrightarrow> unreserved x \<or> x = CHR ''%''"
  by (auto simp: percent_def intro: hex_char_unreserved)

lemma quote_char_chars: "x \<in> set (quote_char c) \<Longrightarrow> unreserved x \<or> x = CHR ''%'' \<or> x = CHR ''+''"
proof -
  assume x: "x \<in> set (quote_char c)"
  have "(of_char c :: nat) div 64 < 4" "(of_char c :: nat) mod 64 < 64" by (simp_all add: div_less_iff_less_mult)
  then have b: "192 + (of_char c :: nat) div 64 < 256" "128 + (of_char c :: nat) mod 64 < 256" by linarith+
  show ?thesis
    using x percent_chars [OF b(1), of x] percent_chars [OF b(2), of x] percent_chars [OF char_code_less, of x c]
    by (auto simp: quote_char_def Let_def split: if_splits)
qed

lemma quote_plus_chars: "x \<in> set (quote_plus s) \<Longrightarrow> unreserved x \<or> x = CHR ''%'' \<or> x = CHR ''+''"
  by (induction s) (auto dest: quote_char_chars)

lemma validate_environment_rules_id: "validate_environment_rules s = Inr s' \<Longrightarrow> s' = s"
  by (auto simp: validate_environment_rules_def split: if_splits)

section \<open>Properties\<close>

text \<open>
  C37: Settings that are built for production have a \<open>SECRET_KEY\<close> that is no development key, no
  debug mode and no wildcard origin, whichever way the origins were given. The key that signs tokens is not checked.
\<close>

theorem production_settings_hardened:
  assumes "make_settings s = Inr s'" and "ENVIRONMENT (app s) = PRODUCTION"
  shows "\<not> startswith (SECRET_KEY (sec s')) ''dev-'' \<and> \<not> str_in ''change-me'' (lower (SECRET_KEY (sec s'))) \<and>
    32 \<le> length (SECRET_KEY (sec s')) \<and> \<not> DEBUG_MODE (app s') \<and> ''*'' \<notin> set (CORS_ORIGINS (cors s')) \<and>
    (BACKEND_CORS_ORIGINS (cors s) \<noteq> [] \<longrightarrow>
       CORS_ORIGINS (cors s') = filter (\<lambda>x. x \<noteq> []) (map strip (split_on '','' [] (BACKEND_CORS_ORIGINS (cors s)))))"
proof -
  obtain level url where r: "validate_environment_rules
      (s\<lparr>LOG_LEVEL := level, db := (db s)\<lparr>DATABASE_URL := url\<rparr>, cors := normalize_cors_origins (cors s)\<rparr>) = Inr s'"
    and b: "field_bounds_ok s"
    using assms(1) by (auto simp: make_settings_def bindE_eq_Inr Let_def split: if_splits)
  from validate_environment_rules_id [OF r]
  have s': "s' = s\<lparr>LOG_LEVEL := level, db := (db s)\<lparr>DATABASE_URL := url\<rparr>, cors := normalize_cors_origins (cors s)\<rparr>" .
  then have p: "is_production s'" using assms(2) by (simp add: is_production_def)
  have "validate_environment_rules s' = Inr s'" using r s' by simp
  then have rules: "\<not> startswith (SECRET_KEY (sec s')) ''dev-''" "\<not> str_in ''change-me'' (lower (SECRET_KEY (sec s')))"
    "\<not> DEBUG_MODE (app s')" "''*'' \<notin> set (CORS_ORIGINS (cors s'))"
    using p by (auto simp: validate_environment_rules_def split: if_splits)
  have "32 \<le> length (SECRET_KEY (sec s'))" using b s' by (simp add: field_bounds_ok_def)
  moreover have "CORS_ORIGINS (cors s') = filter (\<lambda>x. x \<noteq> []) (map strip (split_on '','' [] (BACKEND_CORS_ORIGINS (cors s))))"
    if "BACKEND_CORS_ORIGINS (cors s) \<noteq> []" using that by (simp add: s' normalize_cors_origins_def)
  ultimately show ?thesis using rules by blast
qed

text \<open>
  The check covers the application secret only. With a real application secret, production settings
  are built although the key that signs the access tokens is still the published default.
\<close>

theorem production_settings_hardened_witness:
  "\<exists>s'. make_settings (default_settings\<lparr>app := (app default_settings)\<lparr>ENVIRONMENT := PRODUCTION\<rparr>,
          sec := (sec default_settings)\<lparr>SECRET_KEY := replicate 32 CHR ''k''\<rparr>\<rparr>) = Inr s' \<and>
     \<not> DEBUG_MODE (app s') \<and> JWT_SECRET_KEY (sec s') = Some ''dev-change-me-in-production''"
proof -
  let ?s = "default_settings\<lparr>app := (app default_settings)\<lparr>ENVIRONMENT := PRODUCTION\<rparr>,
      sec := (sec default_settings)\<lparr>SECRET_KEY := replicate 32 CHR ''k''\<rparr>\<rparr>"
  have run: "make_settings ?s = Inr ?s" by code_simp
  have "ENVIRONMENT (app ?s) = PRODUCTION" by simp
  from production_settings_hardened [OF run this] run show ?thesis by (simp add: default_settings_def)
qed

text \<open>
  The database address is unambiguous in the password: the quoted password consists of
  unreserved characters, escapes and plus signs, so it contains none of the delimiters of the
  address, and different passwords are quoted differently.
\<close>

theorem database_url_password:
  "(\<forall>x\<in>set (quote_plus pw). x \<notin> set ''@:/?#'') \<and>
   (quote_plus pw = quote_plus pw' \<longleftrightarrow> pw = pw') \<and>
   (postgres_url (d\<lparr>POSTGRESQL_PASSWORD := pw\<rparr>) = postgres_url (d\<lparr>POSTGRESQL_PASSWORD := pw'\<rparr>) \<longleftrightarrow> pw = pw')"
proof -
  have delim: "\<not> unreserved x \<and> x \<noteq> CHR ''%'' \<and> x \<noteq> CHR ''+''" if "x \<in> set ''@:/?#''" for x
    using that by (auto simp: unreserved_def)
  have "\<forall>x\<in>set (quote_plus pw). x \<notin> set ''@:/?#''" using quote_plus_chars delim by blast
  moreover have "quote_plus pw = quote_plus pw' \<longleftrightarrow> pw = pw'" using quote_plus_inject by blast
  ultimately show ?thesis by (simp add: postgres_url_def)
qed

theorem database_url_password_witness:
  "CHR ''@'' \<notin> set (quote_plus ''p@ss:w/rd'') \<and> quote_plus ''p@ss'' = ''p%40ss''"
proof -
  have "quote_plus ''p@ss'' = ''p%40ss''"
    by (simp add: quote_char_def unreserved_def percent_def hex_char_def char_of_eq_iff)
  then show ?thesis using database_url_password [of "''p@ss:w/rd''"] by auto
qed

text \<open>
  The environment name is read without regard to case and surrounding blanks, the canonical
  names denote themselves, and every unknown name falls back to development.
\<close>

theorem parse_environment_total:
  "parse_environment (Some (environment_value e)) = e \<and>
   parse_environment (Some (strip v)) = parse_environment (Some v) \<and>
   (lower (strip v) \<notin> set (dkeys environment_aliases) \<longrightarrow> parse_environment (Some v) = DEV)"
proof -
  have "list_all (\<lambda>e. parse_environment (Some (environment_value e)) = e) [DEV, STAGING, PRODUCTION, TEST]"
    by code_simp
  then have "parse_environment (Some (environment_value e)) = e" by (cases e) auto
  moreover have "parse_environment (Some (strip v)) = parse_environment (Some v)"
  proof (cases "v = [] \<or> strip v = []")
    case True
    have "strip ([] :: string) = []" "lower (strip ''dev'') = ''dev''" "dget_dflt environment_aliases [] DEV = DEV"
      "dget_dflt environment_aliases ''dev'' DEV = DEV" by code_simp+
    with True show ?thesis by (auto simp: parse_environment_def lower_def)
  qed (simp add: parse_environment_def)
  moreover have "parse_environment (Some v) = DEV" if "lower (strip v) \<notin> set (dkeys environment_aliases)"
  proof (cases "v = []")
    case True
    have "parse_environment (Some []) = DEV" by code_simp
    with True show ?thesis by simp
  next
    case False
    then show ?thesis using that
      by (simp add: parse_environment_def dget_dflt_def map_of_eq_None_iff [THEN iffD2])
  qed
  ultimately show ?thesis by blast
qed

theorem parse_environment_total_witness:
  "parse_environment (Some ''  production '') = PRODUCTION \<and> parse_environment (Some ''qa'') = DEV"
proof -
  have "strip ''  production '' = environment_value PRODUCTION" "lower (strip ''qa'') \<notin> set (dkeys environment_aliases)"
    by code_simp+
  then show ?thesis
    using parse_environment_total [of PRODUCTION "''  production ''"] parse_environment_total [of DEV "''qa''"] by metis
qed

end
