(* ===== verification/Pagination.thy ===== *)
theory Pagination
  imports Prelude
begin

text \<open>
  Pagination of list endpoints (\<open>app/api/deps/pagination.py\<close>): the parameters with the bounds that the
  query declarations impose, offset and limit, the response with its page count, the cursor
  variant and the sort field. The properties relate pages to the items they show.
\<close>

section \<open>Parameters\<close>

definition DEFAULT_PAGE_SIZE :: int where "DEFAULT_PAGE_SIZE = 20"
definition MAX_PAGE_SIZE :: int where "MAX_PAGE_SIZE = 100"

record pagination =
  page :: int
  page_size :: int
  sort_by :: "string option"
  sort_order :: string

text \<open>The framework checks the declared bounds and patterns before the dependency runs (status 422).\<close>

definition get_pagination ::
  "int option \<Rightarrow> int option \<Rightarrow> string option \<Rightarrow> string option \<Rightarrow> pagination res" where
  "get_pagination pg ps sb so =
     (let p = (case pg of None \<Rightarrow> 1 | Some n \<Rightarrow> n);
          z = (case ps of None \<Rightarrow> DEFAULT_PAGE_SIZE | Some n \<Rightarrow> n);
          ord = (case so of None \<Rightarrow> ''desc'' | Some s \<Rightarrow> s) in
      if p < 1 \<or> z < 1 \<or> MAX_PAGE_SIZE < z \<or> ord \<notin> {''asc'', ''desc''} then Inl (HTTPException 422 ''query'')
      else Inr \<lparr>page = p, page_size = z, sort_by = sb, sort_order = ord\<rparr>)"

definition offset :: "pagination \<Rightarrow> int" where
  "offset p = (page p - 1) * page_size p"

definition limit :: "pagination \<Rightarrow> int" where
  "limit p = page_size p"

record cursor_params =
  cursor :: "string option"
  cursor_page_size :: int
  direction :: string

definition get_cursor_pagination :: "string option \<Rightarrow> int option \<Rightarrow> string option \<Rightarrow> cursor_params res" where
  "get_cursor_pagination c ps dir =
     (let z = (case ps of None \<Rightarrow> DEFAULT_PAGE_SIZE | Some n \<Rightarrow> n);
          d = (case dir of None \<Rightarrow> ''next'' | Some s \<Rightarrow> s) in
      if z < 1 \<or> MAX_PAGE_SIZE < z \<or> d \<notin> {''next'', ''prev''} then Inl (HTTPException 422 ''query'')
      else Inr \<lparr>cursor = c, cursor_page_size = z, direction = d\<rparr>)"

section \<open>Responses\<close>

record 'a paginated_response =
  items :: "'a list"
  total :: int
  resp_page :: int
  resp_page_size :: int
  pages :: int
  has_next :: bool
  has_prev :: bool

definition page_count :: "int \<Rightarrow> int \<Rightarrow> int" where
  "page_count n z = (if n > 0 then (n + z - 1) div z else 1)"

definition create_response :: "'a list \<Rightarrow> int \<Rightarrow> pagination \<Rightarrow> 'a paginated_response" where
  "create_response xs n p =
     (let ps = page_count n (page_size p) in
      \<lparr>items = xs, total = n, resp_page = page p, resp_page_size = page_size p, pages = ps,
       has_next = page p < ps, has_prev = page p > 1\<rparr>)"

text \<open>What the offset and the limit mean for the query that fetches a page.\<close>

definition page_items :: "pagination \<Rightarrow> 'a list \<Rightarrow> 'a list" where
  "page_items p xs = take (nat (limit p)) (drop (nat (offset p)) xs)"

section \<open>Sort field\<close>

definition parse_sort_field :: "string option \<Rightarrow> string set \<Rightarrow> string \<Rightarrow> string" where
  "parse_sort_field sb allowed_fields dflt =
     (case sb of
        None \<Rightarrow> dflt
      | Some s \<Rightarrow>
          if s = [] then dflt
          else if lstrip_chars s ''-+'' \<notin> allowed_fields then dflt
          else s)"

section \<open>Lemmas\<close>

definition pagination_ok :: "pagination \<Rightarrow> bool" where
  "pagination_ok p \<longleftrightarrow> 1 \<le> page p \<and> 1 \<le> page_size p \<and> page_size p \<le> 100 \<and> sort_order p \<in> {''asc'', ''desc''}"

lemma get_pagination_ok: "get_pagination pg ps sb so = Inr p \<Longrightarrow> pagination_ok p"
  by (auto simp: get_pagination_def pagination_ok_def Let_def MAX_PAGE_SIZE_def split: if_splits)

lemma page_count_bounds:
  assumes "0 < n" "1 \<le> z"
  shows "page_count n z * z < n + z" "n \<le> page_count n z * z" "1 \<le> page_count n z"
proof -
  let ?q = "(n + z - 1) div z"
  have "?q * z + (n + z - 1) mod z = n + z - 1" by simp
  moreover have "0 \<le> (n + z - 1) mod z" "(n + z - 1) mod z < z" using assms by auto
  ultimately have a: "?q * z \<le> n + z - 1" and b: "n \<le> ?q * z" by linarith+
  then have "0 < ?q * z" using assms by linarith
  then have "1 \<le> ?q" using assms by (simp add: zero_less_mult_iff)
  then show "page_count n z * z < n + z" "n \<le> page_count n z * z" "1 \<le> page_count n z"
    using a b assms by (simp_all add: page_count_def)
qed

text \<open>The first pages show the first items.\<close>

lemma pages_walk:
  assumes "1 \<le> z"
  shows "concat (map (\<lambda>i. page_items \<lparr>page = i, page_size = z, sort_by = sb, sort_order = so\<rparr> xs) [1..int k]) = take (k * nat z) xs"
proof (induction k)
  case (Suc k)
  have "[1..int (Suc k)] = [1..int k] @ [int (Suc k)]" by (simp add: upto_rec2)
  moreover have "nat ((int (Suc k) - 1) * z) = k * nat z" using assms by (simp add: nat_mult_distrib)
  ultimately show ?case using Suc by (simp add: page_items_def offset_def limit_def take_add [symmetric] add.commute)
qed simp

section \<open>Properties\<close>

text \<open>
  C38: The pages partition the items: walking through the pages that a response reports, each accepted as a query, and
  taking for each the items from its offset up to its limit gives all items, in order and each once. No page on the way
  is empty unless there are no items, every page reports the same number of pages, and any page behind them is empty.
\<close>

theorem pages_partition:
  assumes "1 \<le> z" and "z \<le> 100"
  shows "\<exists>ps. mapE (\<lambda>i. get_pagination (Some i) (Some z) sb None) [1..page_count (int (length xs)) z] = Inr ps \<and>
    concat (map (\<lambda>p. page_items p xs) ps) = xs \<and>
    (\<forall>p\<in>set ps. (xs \<noteq> [] \<longrightarrow> page_items p xs \<noteq> []) \<and>
       pages (create_response (page_items p xs) (int (length xs)) p) = int (length ps)) \<and>
    (\<forall>i p. int (length ps) < i \<and> get_pagination (Some i) (Some z) sb None = Inr p \<longrightarrow> page_items p xs = [])"
proof -
  let ?n = "page_count (int (length xs)) z"
  let ?p = "\<lambda>i. \<lparr>page = i, page_size = z, sort_by = sb, sort_order = ''desc''\<rparr>"
  have acc: "get_pagination (Some i) (Some z) sb None = Inr (?p i)" if "1 \<le> i" for i
    using that assms by (simp add: get_pagination_def MAX_PAGE_SIZE_def)
  have n: "1 \<le> ?n" using page_count_bounds(3) [of "int (length xs)" z] assms(1) by (simp add: page_count_def)
  have ps: "mapE (\<lambda>i. get_pagination (Some i) (Some z) sb None) [1..?n] = Inr (map ?p [1..?n])"
    by (rule mapE_total) (simp add: acc)
  have item: "page_items (?p i) xs = take (nat z) (drop (nat ((i - 1) * z)) xs)" for i
    by (simp add: page_items_def offset_def limit_def)
  have all: "concat (map (\<lambda>i. page_items (?p i) xs) [1..?n]) = take (nat ?n * nat z) xs"
    using pages_walk [of z sb "''desc''" xs "nat ?n"] n assms(1) by simp
  have "length xs \<le> nat ?n * nat z"
  proof (cases "xs = []")
    case False
    then have "int (length xs) \<le> ?n * z" using page_count_bounds(2) [of "int (length xs)" z] assms(1) by simp
    then show ?thesis using n assms(1) by (simp add: nat_mult_distrib [symmetric] le_nat_iff)
  qed simp
  with all have "concat (map (\<lambda>p. page_items p xs) (map ?p [1..?n])) = xs" by (simp add: comp_def)
  moreover have "page_items (?p i) xs \<noteq> []" if i: "1 \<le> i" "i \<le> ?n" and "xs \<noteq> []" for i
  proof -
    have "(i - 1) * z \<le> (?n - 1) * z" using i assms(1) by (intro mult_right_mono) auto
    moreover have "?n * z < int (length xs) + z" using page_count_bounds(1) that(3) assms(1) by simp
    ultimately have "(i - 1) * z < int (length xs)" by (simp add: algebra_simps)
    moreover have "0 \<le> (i - 1) * z" using i assms(1) by simp
    ultimately have "nat ((i - 1) * z) < length xs" by linarith
    then show ?thesis using assms(1) by (simp add: item)
  qed
  moreover have "page_items p xs = []" if "?n < i" "get_pagination (Some i) (Some z) sb None = Inr p" for i p
  proof -
    have p: "p = ?p i" using that(2) acc [of i] n that(1) by simp
    have "?n * z \<le> (i - 1) * z" using that(1) assms(1) by (intro mult_right_mono) auto
    moreover have "int (length xs) \<le> ?n * z"
      using page_count_bounds(2) [of "int (length xs)" z] assms(1) n by (cases "xs = []") auto
    ultimately have "length xs \<le> nat ((i - 1) * z)" by linarith
    then show ?thesis by (simp add: p item)
  qed
  ultimately show ?thesis using n by (intro exI [of _ "map ?p [1..?n]"]) (auto simp: ps create_response_def Let_def)
qed

theorem pages_partition_witness:
  "\<exists>ps. mapE (\<lambda>i. get_pagination (Some i) (Some 2) None None) [1..page_count 5 2] = Inr ps \<and> length ps = 3 \<and>
     concat (map (\<lambda>p. page_items p ''abcde'') ps) = ''abcde''"
proof -
  have "page_count 5 2 = 3" by code_simp
  moreover have "mapE f [1..3] = Inr ps \<Longrightarrow> length ps = 3" for f :: "int \<Rightarrow> pagination res" and ps
    by (drule length_mapE) simp
  ultimately show ?thesis using pages_partition [of 2 None "''abcde''"] by fastforce
qed

text \<open>
  For accepted parameters the navigation flags are right: there is a next page exactly when
  items remain beyond the current page, and a previous one exactly when items are skipped; the
  offset is never negative. An empty result counts as one page without neighbours on page 1.
\<close>

theorem navigation_flags:
  assumes "get_pagination pg ps sb so = Inr p" and "0 \<le> n"
  shows "(has_next (create_response xs n p) \<longleftrightarrow> offset p + limit p < n) \<and>
    (has_prev (create_response xs n p) \<longleftrightarrow> 0 < offset p) \<and> 0 \<le> offset p \<and> 1 \<le> pages (create_response xs n p)"
proof -
  have p: "1 \<le> page p" "1 \<le> page_size p" using get_pagination_ok [OF assms(1)] by (auto simp: pagination_ok_def)
  let ?z = "page_size p" and ?g = "page p"
  have off: "offset p + limit p = ?g * ?z" by (simp add: offset_def limit_def algebra_simps)
  have "?g < page_count n ?z \<longleftrightarrow> ?g * ?z < n"
  proof (cases "0 < n")
    case True
    note b = page_count_bounds [OF True p(2)]
    show ?thesis
    proof
      assume "?g < page_count n ?z"
      then have "(?g + 1) * ?z \<le> page_count n ?z * ?z" using p(2) by (intro mult_right_mono) auto
      then show "?g * ?z < n" using b(1) by (simp add: algebra_simps)
    next
      assume "?g * ?z < n"
      then have "?g * ?z < page_count n ?z * ?z" using b(2) by simp
      then show "?g < page_count n ?z" using p(2) by (simp add: mult_less_cancel_right)
    qed
  next
    case False
    have "0 < ?g * ?z" using p by simp
    then have "\<not> ?g * ?z < n" using False by linarith
    then show ?thesis using False p by (simp add: page_count_def)
  qed
  moreover have "1 \<le> page_count n ?z" using page_count_bounds(3) [of n ?z] p by (simp add: page_count_def)
  moreover have "1 < ?g \<longleftrightarrow> 0 < (?g - 1) * ?z" using p by (simp add: zero_less_mult_iff)
  ultimately show ?thesis using p off by (simp add: create_response_def offset_def)
qed

theorem navigation_flags_witness:
  "\<exists>p. get_pagination (Some 3) (Some 20) None None = Inr p \<and>
     has_next (create_response [()] 61 p) \<and> \<not> has_next (create_response [()] 60 p)"
proof -
  obtain p where p: "get_pagination (Some 3) (Some 20) None None = Inr p" "offset p + limit p = 60"
    by (simp add: get_pagination_def offset_def limit_def MAX_PAGE_SIZE_def)
  show ?thesis
    using p navigation_flags [OF p(1), of 61 "[()]"] navigation_flags [OF p(1), of 60 "[()]"] by auto
qed

text \<open>
  The sort field is the default or names an allowed field behind its sign characters; the
  prefix is kept.
\<close>

theorem sort_field_allowed:
  "parse_sort_field sb allowed dflt = dflt \<or>
   (sb = Some (parse_sort_field sb allowed dflt) \<and>
    lstrip_chars (parse_sort_field sb allowed dflt) ''-+'' \<in> allowed)"
  by (auto simp: parse_sort_field_def split: option.splits)

end
