(* ===== verification/Permissions.thy ===== *)
theory Permissions
  imports Prelude
begin

text \<open>
  Permissions and roles (\<open>app/core/security/permissions.py\<close>) and the permission checks of the API
  dependencies (\<open>app/api/deps/auth.py\<close>). The two modules check permissions independently of each
  other; the locale \<open>permission_check\<close> states what they have in common, and the properties say where
  they agree and where they differ.
\<close>

section \<open>Permissions and roles\<close>

datatype permission =
    EVAL_READ | EVAL_WRITE | EVAL_DELETE | EVAL_ADMIN
  | WORKFLOW_READ | WORKFLOW_WRITE | WORKFLOW_PUBLISH | WORKFLOW_DELETE
  | RAG_READ | RAG_WRITE | RAG_INDEX
  | AGENT_READ | AGENT_WRITE | AGENT_EXECUTE
  | PROMPT_READ | PROMPT_WRITE | PROMPT_PUBLISH
  | ADMIN_READ | ADMIN_WRITE | ADMIN_DELETE | ADMIN_SUPER

fun perm_value :: "permission \<Rightarrow> string" where
  "perm_value EVAL_READ = ''eval:read''"
| "perm_value EVAL_WRITE = ''eval:write''"
| "perm_value EVAL_DELETE = ''eval:delete''"
| "perm_value EVAL_ADMIN = ''eval:admin''"
| "perm_value WORKFLOW_READ = ''workflow:read''"
| "perm_value WORKFLOW_WRITE = ''workflow:write''"
| "perm_value WORKFLOW_PUBLISH = ''workflow:publish''"
| "perm_value WORKFLOW_DELETE = ''workflow:delete''"
| "perm_value RAG_READ = ''rag:read''"
| "perm_value RAG_WRITE = ''rag:write''"
| "perm_value RAG_INDEX = ''rag:index''"
| "perm_value AGENT_READ = ''agent:read''"
| "perm_value AGENT_WRITE = ''agent:write''"
| "perm_value AGENT_EXECUTE = ''agent:execute''"
| "perm_value PROMPT_READ = ''prompt:read''"
| "perm_value PROMPT_WRITE = ''prompt:write''"
| "perm_value PROMPT_PUBLISH = ''prompt:publish''"
| "perm_value ADMIN_READ = ''admin:read''"
| "perm_value ADMIN_WRITE = ''admin:write''"
| "perm_value ADMIN_DELETE = ''admin:delete''"
| "perm_value ADMIN_SUPER = ''admin:*''"

text \<open>\<open>Permission | str\<close>, and its reading as a string.\<close>

datatype perm_arg = Perm permission | PermStr string

fun perm_str :: "perm_arg \<Rightarrow> string" where
  "perm_str (Perm p) = perm_value p"
| "perm_str (PermStr s) = s"

record role =
  role_name :: string
  role_permissions :: "string set"

definition new_role :: "string \<Rightarrow> perm_arg list \<Rightarrow> role" where
  "new_role name ps = \<lparr>role_name = name, role_permissions = set (map perm_str ps)\<rparr>"

definition role_has_permission :: "role \<Rightarrow> perm_arg \<Rightarrow> bool" where
  "role_has_permission r p \<longleftrightarrow>
     perm_str p \<in> role_permissions r \<or> perm_value ADMIN_SUPER \<in> role_permissions r"

definition ROLE_VIEWER :: role where
  "ROLE_VIEWER = new_role ''viewer'' (map Perm [EVAL_READ, WORKFLOW_READ, RAG_READ])"

definition ROLE_EDITOR :: role where
  "ROLE_EDITOR = new_role ''editor''
     (map Perm [EVAL_READ, EVAL_WRITE, WORKFLOW_READ, WORKFLOW_WRITE, RAG_READ, RAG_WRITE,
        PROMPT_READ, PROMPT_WRITE])"

definition ROLE_ADMIN :: role where
  "ROLE_ADMIN = new_role ''admin''
     (map Perm [EVAL_READ, EVAL_WRITE, EVAL_DELETE, WORKFLOW_READ, WORKFLOW_WRITE, WORKFLOW_PUBLISH,
        WORKFLOW_DELETE, RAG_READ, RAG_WRITE, RAG_INDEX, AGENT_READ, AGENT_WRITE, AGENT_EXECUTE,
        PROMPT_READ, PROMPT_WRITE, PROMPT_PUBLISH, ADMIN_READ, ADMIN_WRITE])"

definition ROLE_SUPER_ADMIN :: role where
  "ROLE_SUPER_ADMIN = new_role ''super_admin'' [Perm ADMIN_SUPER]"

definition PREDEFINED_ROLES :: "(string, role) dict" where
  "PREDEFINED_ROLES =
     [(''viewer'', ROLE_VIEWER), (''editor'', ROLE_EDITOR), (''admin'', ROLE_ADMIN),
      (''super_admin'', ROLE_SUPER_ADMIN)]"

text \<open>The list is built from a set, in no fixed order, so the result is the set.\<close>

definition get_role_permissions :: "string \<Rightarrow> string set" where
  "get_role_permissions name =
     (case dget PREDEFINED_ROLES name of None \<Rightarrow> {} | Some r \<Rightarrow> role_permissions r)"

section \<open>PermissionChecker of the security module\<close>

text \<open>The part before the last colon: \<open>perm.rsplit(":", 1)[0]\<close> of a string with a colon.\<close>

definition rsplit_head :: "string \<Rightarrow> string" where
  "rsplit_head s = rev (tl (dropWhile (\<lambda>c. c \<noteq> CHR '':'') (rev s)))"

definition checker_has :: "string set \<Rightarrow> string \<Rightarrow> bool" where
  "checker_has granted perm =
     (if perm_value ADMIN_SUPER \<in> granted then True
      else if CHR '':'' \<in> set perm \<and> rsplit_head perm @ '':*'' \<in> granted then True
      else perm \<in> granted)"

datatype required = One perm_arg | AllOf "perm_arg list"

fun check :: "string set \<Rightarrow> required \<Rightarrow> bool" where
  "check granted (AllOf rs) = list_all (\<lambda>r. checker_has granted (perm_str r)) rs"
| "check granted (One r) = checker_has granted (perm_str r)"

definition any_of :: "string set \<Rightarrow> perm_arg list \<Rightarrow> bool" where
  "any_of granted options = list_ex (\<lambda>p. checker_has granted (perm_str p)) options"

definition has_permission :: "string list \<Rightarrow> required \<Rightarrow> bool" where
  "has_permission user_permissions r = check (set user_permissions) r"

section \<open>CurrentUser of the API dependencies\<close>

record current_user =
  cu_user_id :: pyval
  cu_email :: pyval
  cu_permissions :: pyval
  cu_payload :: pydict

definition new_user :: "pyval \<Rightarrow> pyval \<Rightarrow> pyval \<Rightarrow> pydict \<Rightarrow> current_user" where
  "new_user uid email perms payload =
     \<lparr>cu_user_id = uid, cu_email = email, cu_permissions = py_or perms (PList []), cu_payload = payload\<rparr>"

text \<open>The loop over the granted permissions; a grant that is no string has no \<open>endswith\<close>.\<close>

fun grant_loop :: "pyval list \<Rightarrow> string \<Rightarrow> bool res" where
  "grant_loop [] perm = Inr False"
| "grant_loop (g # gs) perm =
     (case g of
        PStr s \<Rightarrow>
          if s = perm then Inr True
          else if endswith s '':*'' \<and> startswith perm (slice_to s (- 2) @ '':'') then Inr True
          else grant_loop gs perm
      | _ \<Rightarrow> Inl AttributeError)"

definition user_has_permission :: "current_user \<Rightarrow> string \<Rightarrow> bool res" where
  "user_has_permission user perm =
     bindE (py_iter (cu_permissions user)) (\<lambda>grants. grant_loop grants perm)"

text \<open>\<open>any(...)\<close> and \<open>all(...)\<close> over a generator that may raise: they stop at the first decision.\<close>

fun anyE :: "('a \<Rightarrow> bool res) \<Rightarrow> 'a list \<Rightarrow> bool res" where
  "anyE f [] = Inr False"
| "anyE f (x # xs) = bindE (f x) (\<lambda>b. if b then Inr True else anyE f xs)"

fun allE_res :: "('a \<Rightarrow> bool res) \<Rightarrow> 'a list \<Rightarrow> bool res" where
  "allE_res f [] = Inr True"
| "allE_res f (x # xs) = bindE (f x) (\<lambda>b. if b then allE_res f xs else Inr False)"

definition user_has_any_permission :: "current_user \<Rightarrow> string list \<Rightarrow> bool res" where
  "user_has_any_permission user perms = anyE (user_has_permission user) perms"

text \<open>The dependency made by \<open>require_permissions\<close>.\<close>

definition require_permissions :: "string list \<Rightarrow> bool \<Rightarrow> current_user \<Rightarrow> current_user res" where
  "require_permissions needed require_all user =
     bindE (if require_all then allE_res (user_has_permission user) needed
            else anyE (user_has_permission user) needed) (\<lambda>ok.
     if \<not> ok then Inl (HTTPException 403 ''Insufficient permissions'') else Inr user)"

definition RequireAdmin :: "current_user \<Rightarrow> current_user res" where
  "RequireAdmin = require_permissions [''admin:*''] False"

definition RequireRead :: "current_user \<Rightarrow> current_user res" where
  "RequireRead = require_permissions [''eval:read'', ''workflow:read''] False"

definition RequireWrite :: "current_user \<Rightarrow> current_user res" where
  "RequireWrite = require_permissions [''eval:write'', ''workflow:write''] False"

section \<open>What the checks decide\<close>

text \<open>The reading of \<open>user_has_permission\<close> on string grants.\<close>

definition user_allows :: "string set \<Rightarrow> string \<Rightarrow> bool" where
  "user_allows G p \<longleftrightarrow> p \<in> G \<or> (\<exists>r a. p = r @ '':'' @ a \<and> r @ '':*'' \<in> G)"

lemma wildcard_grant:
  "endswith g '':*'' \<and> startswith p (slice_to g (- 2) @ '':'') \<longleftrightarrow> (\<exists>r a. g = r @ '':*'' \<and> p = r @ '':'' @ a)"
proof
  assume a: "endswith g '':*'' \<and> startswith p (slice_to g (- 2) @ '':'')"
  then obtain r where g: "g = r @ '':*''" by (auto simp: endswith_iff)
  then have "slice_to g (- 2) = r" by (simp add: slice_to_def)
  with a g show "\<exists>r a. g = r @ '':*'' \<and> p = r @ '':'' @ a" by (auto simp: startswith_iff)
next
  assume "\<exists>r a. g = r @ '':*'' \<and> p = r @ '':'' @ a"
  then show "endswith g '':*'' \<and> startswith p (slice_to g (- 2) @ '':'')"
    by (auto simp: endswith_iff startswith_iff slice_to_def)
qed

lemma grant_loop_strings: "grant_loop (map PStr gs) p = Inr (user_allows (set gs) p)"
proof (induction gs)
  case (Cons g gs)
  then show ?case
    by (simp only: list.map grant_loop.simps pyval.case wildcard_grant) (auto simp: user_allows_def)
qed (simp add: user_allows_def)

lemma anyE_total: "(\<And>x. x \<in> set xs \<Longrightarrow> f x = Inr (P x)) \<Longrightarrow> anyE f xs = Inr (\<exists>x\<in>set xs. P x)"
  by (induction xs) auto

lemma allE_total: "(\<And>x. x \<in> set xs \<Longrightarrow> f x = Inr (P x)) \<Longrightarrow> allE_res f xs = Inr (\<forall>x\<in>set xs. P x)"
  by (induction xs) auto

lemma rsplit_head_eq:
  assumes "CHR '':'' \<notin> set a"
  shows "rsplit_head (r @ '':'' @ a) = r"
proof -
  have "dropWhile (\<lambda>c. c \<noteq> CHR '':'') (rev (r @ '':'' @ a)) = CHR '':'' # rev r"
    using assms by (auto simp: dropWhile_append3)
  then show ?thesis by (simp add: rsplit_head_def)
qed

lemma checker_has_iff:
  "checker_has G p \<longleftrightarrow> ''admin:*'' \<in> G \<or> p \<in> G \<or>
     (\<exists>r a. p = r @ '':'' @ a \<and> CHR '':'' \<notin> set a \<and> r @ '':*'' \<in> G)"
proof (cases "CHR '':'' \<in> set p")
  case True
  then obtain r a where p: "p = r @ '':'' @ a" "CHR '':'' \<notin> set a"
    using split_list_last [OF True] by auto
  have head: "rsplit_head p = r'" if "p = r' @ '':'' @ a'" "CHR '':'' \<notin> set a'" for r' a'
    by (simp only: that(1) rsplit_head_eq [OF that(2)])
  have wild: "(\<exists>r a. p = r @ '':'' @ a \<and> CHR '':'' \<notin> set a \<and> r @ '':*'' \<in> G) \<longleftrightarrow> rsplit_head p @ '':*'' \<in> G"
  proof
    assume "\<exists>r a. p = r @ '':'' @ a \<and> CHR '':'' \<notin> set a \<and> r @ '':*'' \<in> G"
    then show "rsplit_head p @ '':*'' \<in> G" using head by auto
  next
    assume "rsplit_head p @ '':*'' \<in> G"
    then have "r @ '':*'' \<in> G" by (simp only: head [OF p])
    with p show "\<exists>r a. p = r @ '':'' @ a \<and> CHR '':'' \<notin> set a \<and> r @ '':*'' \<in> G" by blast
  qed
  show ?thesis unfolding wild checker_has_def perm_value.simps using True by auto
next
  case False
  then have "\<not> (\<exists>r a. p = r @ '':'' @ a)" by auto
  with False show ?thesis by (auto simp: checker_has_def)
qed

text \<open>Laws that every check has, and the wildcard law of the two checkers.\<close>

locale permission_check =
  fixes allows :: "string set \<Rightarrow> string \<Rightarrow> bool"
  assumes granted: "p \<in> G \<Longrightarrow> allows G p"
    and more_grants: "G \<subseteq> H \<Longrightarrow> allows G p \<Longrightarrow> allows H p"
    and no_grants: "\<not> allows {} p"
begin

lemma all_more: "G \<subseteq> H \<Longrightarrow> \<forall>p\<in>set ps. allows G p \<Longrightarrow> \<forall>p\<in>set ps. allows H p"
  using more_grants by blast

end

locale wildcard_check = permission_check +
  assumes wildcard: "r @ '':*'' \<in> G \<Longrightarrow> CHR '':'' \<notin> set a \<Longrightarrow> allows G (r @ '':'' @ a)"
begin

text \<open>Replacing a plain permission by the wildcard of its resource loses nothing.\<close>

lemma widen: "CHR '':'' \<notin> set a \<Longrightarrow> allows (insert (r @ '':*'') G) (r @ '':'' @ a)"
  using wildcard by simp

end

interpretation checker: wildcard_check checker_has
  by unfold_locales (auto simp: checker_has_iff)

interpretation user: wildcard_check user_allows
  by unfold_locales (auto simp: user_allows_def)

interpretation role_check: permission_check "\<lambda>G p. role_has_permission \<lparr>role_name = n, role_permissions = G\<rparr> (PermStr p)"
  by unfold_locales (auto simp: role_has_permission_def)

lemmas role_defs = ROLE_VIEWER_def ROLE_EDITOR_def ROLE_ADMIN_def ROLE_SUPER_ADMIN_def new_role_def

lemma role_permission_sets:
  "get_role_permissions ''viewer'' = role_permissions ROLE_VIEWER"
  "get_role_permissions ''editor'' = role_permissions ROLE_EDITOR"
  "get_role_permissions ''admin'' = role_permissions ROLE_ADMIN"
  "get_role_permissions ''super_admin'' = {''admin:*''}"
  by (simp_all add: get_role_permissions_def PREDEFINED_ROLES_def role_defs)

section \<open>Properties\<close>

text \<open>
  C32: The permission dependency lets a user through exactly when all (or, if so configured, any) of
  the required permissions are granted, literally or by a wildcard of a leading part of the name;
  otherwise it answers 403. It has no other outcome when the grants are strings.
\<close>

theorem require_permissions_outcome:
  assumes "cu_permissions user = PList (map PStr gs)"
  shows "require_permissions needed require_all user =
    (if (if require_all then \<forall>p\<in>set needed. user_allows (set gs) p else \<exists>p\<in>set needed. user_allows (set gs) p)
     then Inr user else Inl (HTTPException 403 ''Insufficient permissions''))"
proof -
  have "user_has_permission user = (\<lambda>p. Inr (user_allows (set gs) p))"
    by (rule ext) (simp add: user_has_permission_def assms grant_loop_strings)
  then show ?thesis
    by (simp add: require_permissions_def anyE_total [of _ _ "user_allows (set gs)"]
        allE_total [of _ _ "user_allows (set gs)"])
qed

theorem require_permissions_outcome_witness:
  "require_permissions [''eval:read''] True (new_user PNone PNone (PList [PStr ''admin:*'']) []) =
     Inl (HTTPException 403 ''Insufficient permissions'') \<and>
   RequireRead (new_user PNone PNone (PList [PStr ''eval:*'']) []) = Inr (new_user PNone PNone (PList [PStr ''eval:*'']) [])"
proof -
  have u: "cu_permissions (new_user PNone PNone (PList [PStr g]) []) = PList (map PStr [g])" for g
    by (simp add: new_user_def py_or_def)
  have "\<not> user_allows (set [''admin:*'']) ''eval:read''" "user_allows (set [''eval:*'']) ''eval:read''"
    by (auto simp: user_allows_def Cons_eq_append_conv)
  then show ?thesis
    using require_permissions_outcome [OF u, of "[''eval:read'']" True "''admin:*''"]
      require_permissions_outcome [OF u, of "[''eval:read'', ''workflow:read'']" False "''eval:*''"]
    by (simp add: RequireRead_def)
qed

text \<open>
  The two permission checkers of the service agree on every permission with a single colon as
  long as the super-administrator permission is not granted. They part on that permission: it
  opens everything in the security module, but only names below \<open>admin:\<close> in the API dependency.
\<close>

theorem checkers_compare:
  "(''admin:*'' \<notin> G \<and> count_list p CHR '':'' = 1 \<longrightarrow> checker_has G p = user_allows G p) \<and>
   checker_has {''admin:*''} p \<and> (user_allows {''admin:*''} p \<longleftrightarrow> (\<exists>a. p = ''admin:'' @ a))"
proof (intro conjI impI)
  assume a: "''admin:*'' \<notin> G \<and> count_list p CHR '':'' = 1"
  have "CHR '':'' \<notin> set x" if "p = r @ '':'' @ x" for r x
    using a that by (auto simp: count_list_append count_list_0_iff)
  with a show "checker_has G p = user_allows G p"
    by (auto simp: checker_has_iff user_allows_def)
next
  show "checker_has {''admin:*''} p" by (simp add: checker_has_iff)
  have "r = ''admin''" if "r @ '':*'' = ''admin:*''" for r
    using that append_same_eq [of r "'':*''" "''admin''"] by simp
  then show "user_allows {''admin:*''} p \<longleftrightarrow> (\<exists>a. p = ''admin:'' @ a)"
    by (fastforce simp: user_allows_def)
qed

theorem checkers_compare_witness:
  "checker_has {''eval:*''} ''eval:read'' = user_allows {''eval:*''} ''eval:read''"
  using checkers_compare [of "{''eval:*''}" "''eval:read''"] by simp

text \<open>
  The predefined roles form a chain under the security checker: whatever a viewer may do an
  editor may do, then an administrator, then a super administrator, who may do everything.
\<close>

theorem role_hierarchy:
  "(checker_has (get_role_permissions ''viewer'') p \<longrightarrow> checker_has (get_role_permissions ''editor'') p) \<and>
   (checker_has (get_role_permissions ''editor'') p \<longrightarrow> checker_has (get_role_permissions ''admin'') p) \<and>
   checker_has (get_role_permissions ''super_admin'') p"
proof -
  have "get_role_permissions ''viewer'' \<subseteq> get_role_permissions ''editor''"
    "get_role_permissions ''editor'' \<subseteq> get_role_permissions ''admin''"
    by (auto simp: role_permission_sets role_defs)
  then show ?thesis
    using checker.more_grants by (auto simp: role_permission_sets(4) checker_has_iff)
qed

theorem role_hierarchy_witness:
  "checker_has (get_role_permissions ''editor'') ''eval:read''"
proof -
  have "''eval:read'' \<in> get_role_permissions ''viewer''" by (simp add: role_permission_sets role_defs)
  then have "checker_has (get_role_permissions ''viewer'') ''eval:read''" by (rule checker.granted)
  then show ?thesis using role_hierarchy by blast
qed

end
