(* ===== verification/Tokens.thy ===== *)
theory Tokens
  imports Permissions Settings
begin

text \<open>
  Access and refresh tokens (\<open>app/core/security/jwt_service.py\<close>) and the user dependencies built on
  them (\<open>app/api/deps/auth.py\<close>). The token library is a pair of parameters: \<open>enc payload key alg\<close>
  signs, \<open>dec now token key algs\<close> verifies at a point in time; tokens are opaque. What the service
  relies on is \<open>jwt_codec\<close>: a signed payload of the claims it makes is returned until its expiry, from then on decoding
  reports the expiry. Times are whole seconds, as in the claims.
\<close>

section \<open>Identifiers\<close>

text \<open>\<open>int(s, 16)\<close>: blanks around, a sign, a prefix and single underscores between digits are allowed.\<close>

definition hex_value :: "char \<Rightarrow> int option" where
  "hex_value c =
     (let n = of_char c :: nat in
      if 48 \<le> n \<and> n \<le> 57 then Some (int n - 48)
      else if 97 \<le> n \<and> n \<le> 102 then Some (int n - 87)
      else if 65 \<le> n \<and> n \<le> 70 then Some (int n - 55) else None)"

fun hex_run :: "int \<Rightarrow> bool \<Rightarrow> string \<Rightarrow> int option" where
  "hex_run acc after_digit [] = (if after_digit then Some acc else None)"
| "hex_run acc after_digit (c # cs) =
     (if c = CHR ''_'' then (if after_digit then hex_run acc False cs else None)
      else case hex_value c of None \<Rightarrow> None | Some d \<Rightarrow> hex_run (16 * acc + d) True cs)"

definition unsigned16 :: "string \<Rightarrow> int option" where
  "unsigned16 s =
     (if startswith s ''0x'' \<or> startswith s ''0X'' then
        (if length s = 2 then None else hex_run 0 True (drop 2 s))
      else hex_run 0 False s)"

definition int16 :: "string \<Rightarrow> int option" where
  "int16 s =
     (case strip s of
        [] \<Rightarrow> None
      | c # cs \<Rightarrow>
          if c = CHR ''+'' then unsigned16 cs
          else if c = CHR ''-'' then map_option uminus (unsigned16 cs)
          else unsigned16 (c # cs))"

fun to_hex :: "nat \<Rightarrow> int \<Rightarrow> string" where
  "to_hex 0 n = []"
| "to_hex (Suc k) n =
     to_hex k (n div 16) @ [let d = nat (n mod 16) in char_of (if d < 10 then 48 + d else 87 + d)]"

text \<open>\<open>str(UUID(hex))\<close>.\<close>

definition uuid_parse :: "string \<Rightarrow> string res" where
  "uuid_parse s =
     (let h = py_remove (py_remove s ''urn:'') ''uuid:'';
          h = py_remove (lstrip_chars (rstrip_chars h ''{}'') ''{}'') ''-'' in
      if length h \<noteq> 32 then Inl (ValueError ''badly formed hexadecimal UUID string'')
      else case int16 h of
        None \<Rightarrow> Inl (ValueError ''invalid literal for int() with base 16'')
      | Some n \<Rightarrow>
          if n < 0 then Inl (ValueError ''int is out of range (need a 128-bit value)'')
          else let x = to_hex 32 n in
            Inr (take 8 x @ ''-'' @ take 4 (drop 8 x) @ ''-'' @ take 4 (drop 12 x) @ ''-'' @
                 take 4 (drop 16 x) @ ''-'' @ drop 20 x))"

fun uuid_value :: "pyval \<Rightarrow> string res" where
  "uuid_value (PStr s) = uuid_parse s"
| "uuid_value _ = Inl AttributeError"

section \<open>The token service\<close>

datatype jwt_error = ExpiredSignature | InvalidJwt

type_synonym 'tok encoder = "pydict \<Rightarrow> string \<Rightarrow> string \<Rightarrow> 'tok"
type_synonym 'tok decoder = "int \<Rightarrow> 'tok \<Rightarrow> string \<Rightarrow> string list \<Rightarrow> jwt_error + pydict"

text \<open>\<open>settings.JWT_SECRET_KEY.get_secret_value()\<close>.\<close>

definition jwt_key :: "settings \<Rightarrow> string res" where
  "jwt_key s = (case JWT_SECRET_KEY (sec s) of None \<Rightarrow> Inl AttributeError | Some k \<Rightarrow> Inr k)"

definition access_payload :: "settings \<Rightarrow> int \<Rightarrow> string \<Rightarrow> pydict \<Rightarrow> pydict" where
  "access_payload s now user_id extra_claims =
     dmerge [(''sub'', PStr user_id), (''iat'', PInt now),
             (''exp'', PInt (now + JWT_ACCESS_TOKEN_EXPIRE_MINUTES (sec s) * 60)), (''type'', PStr ''access'')]
       extra_claims"

definition create_access_token ::
  "'tok encoder \<Rightarrow> settings \<Rightarrow> int \<Rightarrow> string \<Rightarrow> pydict \<Rightarrow> 'tok res" where
  "create_access_token enc s now user_id extra_claims =
     bindE (jwt_key s) (\<lambda>key. Inr (enc (access_payload s now user_id extra_claims) key (JWT_ALGORITHM (sec s))))"

definition refresh_payload :: "settings \<Rightarrow> int \<Rightarrow> string \<Rightarrow> pydict" where
  "refresh_payload s now user_id =
     [(''sub'', PStr user_id), (''iat'', PInt now),
      (''exp'', PInt (now + JWT_REFRESH_TOKEN_EXPIRE_DAYS (sec s) * 86400)), (''type'', PStr ''refresh'')]"

definition create_refresh_token :: "'tok encoder \<Rightarrow> settings \<Rightarrow> int \<Rightarrow> string \<Rightarrow> 'tok res" where
  "create_refresh_token enc s now user_id =
     bindE (jwt_key s) (\<lambda>key. Inr (enc (refresh_payload s now user_id) key (JWT_ALGORITHM (sec s))))"

abbreviation TokenExpiredError :: exn where
  "TokenExpiredError \<equiv> AppException ''Token has expired'' ''token_expired''"

abbreviation InvalidTokenError :: exn where
  "InvalidTokenError \<equiv> AppException ''Invalid token'' ''invalid_token''"

definition decode_token :: "'tok decoder \<Rightarrow> settings \<Rightarrow> int \<Rightarrow> 'tok \<Rightarrow> pydict res" where
  "decode_token dec s now token =
     bindE (jwt_key s) (\<lambda>key.
     case dec now token key [JWT_ALGORITHM (sec s)] of
       Inr payload \<Rightarrow> Inr payload
     | Inl ExpiredSignature \<Rightarrow> Inl TokenExpiredError
     | Inl InvalidJwt \<Rightarrow> Inl InvalidTokenError)"

definition verify_typed :: "'tok decoder \<Rightarrow> settings \<Rightarrow> string \<Rightarrow> int \<Rightarrow> 'tok \<Rightarrow> string res" where
  "verify_typed dec s kind now token =
     bindE (decode_token dec s now token) (\<lambda>payload.
     if dget_dflt payload ''type'' PNone \<noteq> PStr kind then Inl InvalidTokenError
     else bindE (dget_or_raise payload ''sub'') uuid_value)"

definition verify_access_token :: "'tok decoder \<Rightarrow> settings \<Rightarrow> int \<Rightarrow> 'tok \<Rightarrow> string res" where
  "verify_access_token dec s = verify_typed dec s ''access''"

definition verify_refresh_token :: "'tok decoder \<Rightarrow> settings \<Rightarrow> int \<Rightarrow> 'tok \<Rightarrow> string res" where
  "verify_refresh_token dec s = verify_typed dec s ''refresh''"

section \<open>The user dependencies\<close>

definition get_current_user ::
  "'tok decoder \<Rightarrow> settings \<Rightarrow> int \<Rightarrow> 'tok option \<Rightarrow> current_user res" where
  "get_current_user dec s now credentials =
     (case credentials of
        None \<Rightarrow> Inl (HTTPException 401 ''Authentication required'')
      | Some token \<Rightarrow>
          (case decode_token dec s now token of
             Inl e \<Rightarrow> Inl (HTTPException 401 ''Invalid authentication token'')
           | Inr payload \<Rightarrow>
               Inr (new_user (dget_dflt payload ''sub'' PNone) (dget_dflt payload ''email'' PNone)
                      (dget_dflt payload ''permissions'' (PList [])) payload)))"

definition get_optional_user ::
  "'tok decoder \<Rightarrow> settings \<Rightarrow> int \<Rightarrow> 'tok option \<Rightarrow> current_user option res" where
  "get_optional_user dec s now credentials =
     (case credentials of
        None \<Rightarrow> Inr None
      | Some token \<Rightarrow>
          (case get_current_user dec s now credentials of
             Inr u \<Rightarrow> Inr (Some u)
           | Inl (HTTPException c d) \<Rightarrow> Inr None
           | Inl e \<Rightarrow> Inl e))"

section \<open>What the service relies on\<close>

text \<open>
  The library checks the registered claims, so its round trip is relied on only for payloads like those of the service: the
  subject is a text, and audience, issuer, start of validity and token identifier are not claimed. An algorithm
  that the library does not know makes signing raise; this is left out, since the settings name \<open>HS256\<close>.
\<close>

definition plain_claims :: "pydict \<Rightarrow> bool" where
  "plain_claims p \<longleftrightarrow>
     (\<exists>u. dget p ''sub'' = Some (PStr u)) \<and> list_all (\<lambda>k. dget p k = None) [''aud'', ''iss'', ''nbf'', ''jti'']"

definition jwt_codec :: "'tok encoder \<Rightarrow> 'tok decoder \<Rightarrow> bool" where
  "jwt_codec enc dec \<longleftrightarrow>
     (\<forall>p key alg now issued expiry.
        plain_claims p \<and> dget p ''iat'' = Some (PInt issued) \<and> dget p ''exp'' = Some (PInt expiry) \<and> issued \<le> now \<longrightarrow>
        dec now (enc p key alg) key [alg] = (if now < expiry then Inr p else Inl ExpiredSignature))"

text \<open>A codec of this kind exists: tokens that carry the payload and the key openly.\<close>

definition open_enc :: "(pydict \<times> string \<times> string) encoder" where
  "open_enc p key alg = (p, key, alg)"

definition open_dec :: "(pydict \<times> string \<times> string) decoder" where
  "open_dec now tok key algs =
     (case tok of (p, k, a) \<Rightarrow>
        if k \<noteq> key \<or> a \<notin> set algs then Inl InvalidJwt
        else case dget p ''exp'' of
          Some (PInt e) \<Rightarrow> if now < e then Inr p else Inl ExpiredSignature
        | _ \<Rightarrow> Inr p)"

lemma open_codec: "jwt_codec open_enc open_dec"
  by (simp add: jwt_codec_def open_enc_def open_dec_def)

lemma jwt_codecD:
  assumes "jwt_codec enc dec" and "plain_claims p" and "dget p ''iat'' = Some (PInt issued)" and "dget p ''exp'' = Some (PInt expiry)"
    and "issued \<le> now"
  shows "dec now (enc p key alg) key [alg] = (if now < expiry then Inr p else Inl ExpiredSignature)"
  using assms by (simp add: jwt_codec_def)

lemma access_payload_get:
  assumes "dict_wf extra"
  shows "dget (access_payload s now uid extra) k =
    (case dget extra k of Some v \<Rightarrow> Some v
     | None \<Rightarrow> dget [(''sub'', PStr uid), (''iat'', PInt now),
             (''exp'', PInt (now + JWT_ACCESS_TOKEN_EXPIRE_MINUTES (sec s) * 60)), (''type'', PStr ''access'')] k)"
  using assms by (simp add: access_payload_def dget_dmerge split: option.splits)

lemma decode_access:
  assumes "jwt_codec enc dec" and "create_access_token enc s now uid extra = Inr tok"
    and "dict_wf extra"
    and "list_all (\<lambda>k. dget extra k = None) [''iat'', ''exp'', ''sub'', ''aud'', ''iss'', ''nbf'', ''jti'']" and "now \<le> t"
  shows "decode_token dec s t tok =
    (if t < now + JWT_ACCESS_TOKEN_EXPIRE_MINUTES (sec s) * 60
     then Inr (access_payload s now uid extra) else Inl TokenExpiredError)"
proof -
  obtain key where key: "jwt_key s = Inr key"
    and tok: "tok = enc (access_payload s now uid extra) key (JWT_ALGORITHM (sec s))"
    using assms(2) by (auto simp: create_access_token_def bindE_eq_Inr)
  have "dec t tok key [JWT_ALGORITHM (sec s)] =
      (if t < now + JWT_ACCESS_TOKEN_EXPIRE_MINUTES (sec s) * 60
       then Inr (access_payload s now uid extra) else Inl ExpiredSignature)"
    unfolding tok using assms(3-5) by (intro jwt_codecD [OF assms(1)]) (simp_all add: access_payload_get plain_claims_def)
  then show ?thesis using key by (simp add: decode_token_def)
qed

lemma decode_refresh:
  assumes "jwt_codec enc dec" and "create_refresh_token enc s now uid = Inr tok" and "now \<le> t"
  shows "decode_token dec s t tok =
    (if t < now + JWT_REFRESH_TOKEN_EXPIRE_DAYS (sec s) * 86400
     then Inr (refresh_payload s now uid) else Inl TokenExpiredError)"
proof -
  obtain key where key: "jwt_key s = Inr key"
    and tok: "tok = enc (refresh_payload s now uid) key (JWT_ALGORITHM (sec s))"
    using assms(2) by (auto simp: create_refresh_token_def bindE_eq_Inr)
  have "dec t tok key [JWT_ALGORITHM (sec s)] =
      (if t < now + JWT_REFRESH_TOKEN_EXPIRE_DAYS (sec s) * 86400
       then Inr (refresh_payload s now uid) else Inl ExpiredSignature)"
    unfolding tok using assms(3) by (intro jwt_codecD [OF assms(1)]) (simp_all add: refresh_payload_def plain_claims_def)
  then show ?thesis using key by (simp add: decode_token_def)
qed

section \<open>Properties\<close>

text \<open>
  C23: An access token carries its user through to the dependency: until it expires, the user has
  the identity, the address and the permissions it was issued with; from the expiry on, and for
  missing credentials, the answer is 401.
\<close>

theorem access_token_roundtrip:
  assumes "jwt_codec enc dec"
    and "create_access_token enc s now uid [(''email'', PStr mail), (''permissions'', PList perms)] = Inr tok"
    and "now \<le> t"
  shows "get_current_user dec s t (Some tok) =
    (if t < now + JWT_ACCESS_TOKEN_EXPIRE_MINUTES (sec s) * 60
     then Inr (new_user (PStr uid) (PStr mail) (PList perms)
            (access_payload s now uid [(''email'', PStr mail), (''permissions'', PList perms)]))
     else Inl (HTTPException 401 ''Invalid authentication token'')) \<and>
    get_current_user dec s t None = Inl (HTTPException 401 ''Authentication required'')"
proof -
  let ?extra = "[(''email'', PStr mail), (''permissions'', PList perms)]"
  have "decode_token dec s t tok =
      (if t < now + JWT_ACCESS_TOKEN_EXPIRE_MINUTES (sec s) * 60
       then Inr (access_payload s now uid ?extra) else Inl TokenExpiredError)"
    by (rule decode_access [OF assms(1,2)]) (use assms(3) in simp_all)
  then show ?thesis by (simp add: get_current_user_def dget_dflt_def access_payload_get)
qed

theorem access_token_roundtrip_witness:
  "\<exists>tok u. create_access_token open_enc default_settings 1000 ''u'' [(''email'', PStr ''m''), (''permissions'', PList [])] = Inr tok \<and>
     get_current_user open_dec default_settings 2000 (Some tok) = Inr u \<and> cu_user_id u = PStr ''u'' \<and>
     get_current_user open_dec default_settings 2800 (Some tok) = Inl (HTTPException 401 ''Invalid authentication token'')"
proof -
  let ?mk = "create_access_token open_enc default_settings 1000 ''u'' [(''email'', PStr ''m''), (''permissions'', PList [])]"
  obtain tok where tok: "?mk = Inr tok"
    by (simp add: create_access_token_def jwt_key_def default_settings_def)
  show ?thesis
    using access_token_roundtrip [OF open_codec tok, of 2000] access_token_roundtrip [OF open_codec tok, of 2800] tok
    by (simp add: default_settings_def new_user_def)
qed

text \<open>
  The typed verifiers keep the two token kinds apart: an unexpired refresh token verifies as a
  refresh token of its user and is refused as an access token. The user dependency does not look
  at the kind: it accepts the refresh token too, as a user without permissions.
\<close>

theorem refresh_token_kinds:
  assumes "jwt_codec enc dec" and "create_refresh_token enc s now uid = Inr tok"
    and "now \<le> t" and "t < now + JWT_REFRESH_TOKEN_EXPIRE_DAYS (sec s) * 86400" and "uuid_parse uid = Inr uid"
  shows "verify_refresh_token dec s t tok = Inr uid \<and> verify_access_token dec s t tok = Inl InvalidTokenError \<and>
    get_current_user dec s t (Some tok) = Inr (new_user (PStr uid) PNone (PList []) (refresh_payload s now uid))"
proof -
  have "decode_token dec s t tok = Inr (refresh_payload s now uid)"
    using decode_refresh [OF assms(1-3)] assms(4) by simp
  then show ?thesis
    using assms(5)
    by (simp add: verify_refresh_token_def verify_access_token_def verify_typed_def refresh_payload_def
        dget_dflt_def dget_or_raise_def get_current_user_def)
qed

theorem refresh_token_kinds_witness:
  "\<exists>tok. create_refresh_token open_enc default_settings 1000 ''00000000-0000-0000-0000-000000000001'' = Inr tok \<and>
     verify_refresh_token open_dec default_settings 2000 tok = Inr ''00000000-0000-0000-0000-000000000001'' \<and>
     is_ok (get_current_user open_dec default_settings 2000 (Some tok))"
proof -
  obtain tok where tok: "create_refresh_token open_enc default_settings 1000 ''00000000-0000-0000-0000-000000000001'' = Inr tok"
    by (simp add: create_refresh_token_def jwt_key_def default_settings_def)
  have "uuid_parse ''00000000-0000-0000-0000-000000000001'' = Inr ''00000000-0000-0000-0000-000000000001''" by code_simp
  from refresh_token_kinds [OF open_codec tok _ _ this, of 2000] tok show ?thesis
    by (simp add: default_settings_def)
qed

end
