(* ===== verification/Api_Deps.thy ===== *)
theory Api_Deps
  imports Tokens
begin

text \<open>
  The tenant and rate-limit dependencies (\<open>app/api/deps/tenant.py\<close>, \<open>app/api/deps/rate_limit.py\<close>). A
  request is what these dependencies read of it: the client address, the path, the state set by
  the middleware and the headers.
\<close>

record request =
  client_host :: "string option"
  url_path :: string
  req_state :: pydict
  req_headers :: headers

section \<open>Tenant\<close>

record tenant_context =
  tc_tenant_id :: pyval
  tc_name :: pyval
  tc_plan :: pyval
  tc_quota_limits :: pyval
  tc_features :: pyval

definition new_tenant_context :: "pyval \<Rightarrow> pyval \<Rightarrow> pyval \<Rightarrow> pyval \<Rightarrow> pyval \<Rightarrow> tenant_context" where
  "new_tenant_context tid name plan quotas features =
     \<lparr>tc_tenant_id = tid, tc_name = name, tc_plan = plan, tc_quota_limits = py_or quotas (PDict []),
      tc_features = py_or features (PList [])\<rparr>"

text \<open>\<open>x in container\<close> for a string: list items, dictionary keys, or substrings.\<close>

fun py_contains :: "pyval \<Rightarrow> string \<Rightarrow> bool res" where
  "py_contains (PList xs) k = Inr (PStr k \<in> set xs)"
| "py_contains (PDict d) k = Inr (k \<in> set (dkeys d))"
| "py_contains (PStr s) k = Inr (str_in k s)"
| "py_contains _ k = Inl TypeError"

definition has_feature :: "tenant_context \<Rightarrow> string \<Rightarrow> bool res" where
  "has_feature t feature =
     bindE (py_contains (tc_features t) feature) (\<lambda>b. if b then Inr True else py_contains (tc_features t) ''*'')"

definition get_quota :: "tenant_context \<Rightarrow> string \<Rightarrow> int \<Rightarrow> pyval res" where
  "get_quota t resource dflt = py_get (tc_quota_limits t) resource (PInt dflt)"

definition default_tenant_config :: "(pyval \<Rightarrow> string) \<Rightarrow> pyval \<Rightarrow> pydict" where
  "default_tenant_config fmt tid =
     [(''name'', PStr (''Tenant '' @ str_of fmt tid)), (''plan'', PStr ''default''),
      (''quotas'', PDict [(''evaluations_per_hour'', PInt 1000), (''workflows_per_hour'', PInt 100),
                          (''llm_calls_per_hour'', PInt 10000)]),
      (''features'', PList [PStr ''eval:read'', PStr ''eval:write'', PStr ''workflow:read'', PStr ''workflow:write''])]"

text \<open>\<open>configs\<close> is the attribute \<open>TENANT_CONFIGS\<close> of the settings, which the settings class does not have.\<close>

definition load_tenant_config ::
  "(pyval \<Rightarrow> string) \<Rightarrow> (pyval \<times> pydict) list option \<Rightarrow> pyval \<Rightarrow> pydict" where
  "load_tenant_config fmt configs tid =
     (case configs of
        None \<Rightarrow> default_tenant_config fmt tid
      | Some cs \<Rightarrow>
          (case map_of cs tid of
             Some c \<Rightarrow> dmerge (default_tenant_config fmt tid) c
           | None \<Rightarrow> default_tenant_config fmt tid))"

definition resolve_tenant :: "settings \<Rightarrow> request \<Rightarrow> pyval" where
  "resolve_tenant s req =
     (let header = (case header_get (req_headers req) ''X-Tenant-ID'' of Some h \<Rightarrow> PStr h | None \<Rightarrow> PNone);
          tid = (if truthy header then header else dget_dflt (req_state req) ''tenant_id'' PNone) in
      if truthy tid then tid else PStr (DEFAULT_TENANT_ID (sec s)))"

definition get_tenant_context ::
  "(pyval \<Rightarrow> string) \<Rightarrow> settings \<Rightarrow> request \<Rightarrow> tenant_context" where
  "get_tenant_context fmt s req =
     (let tid = resolve_tenant s req; c = load_tenant_config fmt None tid in
      new_tenant_context tid (dget_dflt c ''name'' PNone) (dget_dflt c ''plan'' (PStr ''default''))
        (dget_dflt c ''quotas'' (PDict [])) (dget_dflt c ''features'' (PList [])))"

definition require_tenant :: "settings \<Rightarrow> tenant_context \<Rightarrow> tenant_context res" where
  "require_tenant s t =
     (if (\<not> truthy (tc_tenant_id t) \<or> tc_tenant_id t = PStr ''default'') \<and> is_production s
      then Inl (HTTPException 400 ''Tenant identification required (X-Tenant-ID header)'')
      else Inr t)"

definition get_tenant_id :: "tenant_context \<Rightarrow> pyval" where
  "get_tenant_id t = tc_tenant_id t"

section \<open>Rate limits\<close>

text \<open>The limiter is a stub that allows every request.\<close>

record limit_info =
  info_limit :: int
  info_remaining :: int

definition is_allowed :: "int \<Rightarrow> string \<Rightarrow> bool \<times> limit_info" where
  "is_allowed per_minute key = (True, \<lparr>info_limit = per_minute, info_remaining = per_minute - 1\<rparr>)"

definition rate_limit_key :: "(pyval \<Rightarrow> string) \<Rightarrow> string \<Rightarrow> request \<Rightarrow> string" where
  "rate_limit_key fmt key_func req =
     (let path = url_path req in
      if key_func = ''ip'' then
        ''rate_limit:ip:'' @ (case client_host req of Some h \<Rightarrow> h | None \<Rightarrow> ''unknown'') @ '':'' @ path
      else if key_func = ''tenant'' then
        ''rate_limit:tenant:'' @ str_of fmt (dget_dflt (req_state req) ''tenant_id'' (PStr ''unknown'')) @ '':'' @ path
      else if key_func = ''user'' then
        ''rate_limit:user:'' @ str_of fmt (dget_dflt (req_state req) ''user_id'' (PStr ''anonymous'')) @ '':'' @ path
      else if key_func = ''api_key'' then
        ''rate_limit:api_key:'' @ (case header_get (req_headers req) ''X-API-Key'' of Some k \<Rightarrow> k | None \<Rightarrow> ''unknown'') @ '':'' @ path
      else ''rate_limit:default:'' @ path)"

text \<open>
  \<open>client\<close> is the outcome of importing and calling \<open>get_redis_client\<close>. The imported module defines
  no such name, so in this code base it is always the import error.
\<close>

definition redis_client_import :: "unit res" where
  "redis_client_import = Inl (ImportError ''get_redis_client'')"

definition rate_limit_check :: "unit res \<Rightarrow> int \<Rightarrow> string \<Rightarrow> bool \<times> limit_info" where
  "rate_limit_check client per_minute key =
     (case client of
        Inr c \<Rightarrow> is_allowed per_minute key
      | Inl e \<Rightarrow> (True, \<lparr>info_limit = per_minute, info_remaining = - 1\<rparr>))"

text \<open>\<open>disabled\<close> is the attribute \<open>DISABLE_RATE_LIMIT\<close>, which the settings class does not have.\<close>

definition rate_limit_dep ::
  "(pyval \<Rightarrow> string) \<Rightarrow> bool \<Rightarrow> settings \<Rightarrow> int \<Rightarrow> string \<Rightarrow> request \<Rightarrow> limit_info res" where
  "rate_limit_dep fmt disabled s per_minute key_func req =
     (let key = rate_limit_key fmt key_func req in
      if \<not> is_production s \<and> disabled then Inr \<lparr>info_limit = per_minute, info_remaining = per_minute\<rparr>
      else
        let (allowed, metadata) = rate_limit_check redis_client_import per_minute key in
        if \<not> allowed then Inl (HTTPException 429 ''Rate limit exceeded'') else Inr metadata)"

text \<open>The predefined limits: requests per minute and key strategy.\<close>

definition rate_limit_by_ip :: "int \<times> string" where "rate_limit_by_ip = (60, ''ip'')"
definition rate_limit_by_tenant :: "int \<times> string" where "rate_limit_by_tenant = (1000, ''tenant'')"
definition rate_limit_by_user :: "int \<times> string" where "rate_limit_by_user = (100, ''user'')"
definition rate_limit_by_api_key :: "int \<times> string" where "rate_limit_by_api_key = (10000, ''api_key'')"
definition rate_limit_ragas_expensive :: "int \<times> string" where "rate_limit_ragas_expensive = (10, ''tenant'')"
definition rate_limit_ragas_async :: "int \<times> string" where "rate_limit_ragas_async = (100, ''tenant'')"
definition rate_limit_classification :: "int \<times> string" where "rate_limit_classification = (100, ''ip'')"
definition rate_limit_metrics_catalog :: "int \<times> string" where "rate_limit_metrics_catalog = (1000, ''ip'')"
definition rate_limit_auth_login :: "int \<times> string" where "rate_limit_auth_login = (5, ''ip'')"
definition rate_limit_auth_normal :: "int \<times> string" where "rate_limit_auth_normal = (60, ''ip'')"
definition rate_limit_admin_write :: "int \<times> string" where "rate_limit_admin_write = (30, ''user'')"
definition rate_limit_admin_read :: "int \<times> string" where "rate_limit_admin_read = (100, ''user'')"
definition rate_limit_job_poll :: "int \<times> string" where "rate_limit_job_poll = (300, ''ip'')"

text \<open>An endpoint that depends on a limit: the dependency is resolved first.\<close>

definition limited :: "(pyval \<Rightarrow> string) \<Rightarrow> settings \<Rightarrow> int \<times> string \<Rightarrow> request \<Rightarrow> 'a res \<Rightarrow> 'a res" where
  "limited fmt s bound req body = bindE (rate_limit_dep fmt False s (fst bound) (snd bound) req) (\<lambda>info. body)"

definition check_quota :: "string \<Rightarrow> string \<Rightarrow> int \<Rightarrow> bool \<times> int \<times> int" where
  "check_quota tenant resource increment = (True, 1000, 1000)"

section \<open>Lemmas\<close>

lemma limited_passes: "limited fmt s bound req body = body"
  by (simp add: limited_def rate_limit_dep_def rate_limit_check_def redis_client_import_def Let_def)

text \<open>Keys of different strategies never collide.\<close>

lemma rate_limit_keys_separate:
  assumes "kf \<in> {''ip'', ''tenant'', ''user'', ''api_key''}" and "kf' \<in> {''ip'', ''tenant'', ''user'', ''api_key''}"
    and "rate_limit_key fmt kf req = rate_limit_key fmt kf' req'"
  shows "kf = kf'"
  using assms by (auto simp: rate_limit_key_def Let_def)

section \<open>Properties\<close>

text \<open>
  Tenant resolution takes the first non-empty source: the header, then the request state, then
  the configured default; so a context always has a tenant with that default in force, and in
  production the strict dependency refuses exactly the requests that end up at "default".
\<close>

theorem tenant_resolution:
  assumes "DEFAULT_TENANT_ID (sec s) \<noteq> []"
  shows "tc_tenant_id (get_tenant_context fmt s req) =
      (case header_get (req_headers req) ''X-Tenant-ID'' of
         Some (c # cs) \<Rightarrow> PStr (c # cs)
       | _ \<Rightarrow> if truthy (dget_dflt (req_state req) ''tenant_id'' PNone)
             then dget_dflt (req_state req) ''tenant_id'' PNone else PStr (DEFAULT_TENANT_ID (sec s))) \<and>
    truthy (tc_tenant_id (get_tenant_context fmt s req)) \<and>
    require_tenant s (get_tenant_context fmt s req) =
      (if is_production s \<and> tc_tenant_id (get_tenant_context fmt s req) = PStr ''default''
       then Inl (HTTPException 400 ''Tenant identification required (X-Tenant-ID header)'')
       else Inr (get_tenant_context fmt s req))"
proof -
  have tid: "tc_tenant_id (get_tenant_context fmt s req) = resolve_tenant s req"
    by (simp add: get_tenant_context_def Let_def new_tenant_context_def)
  have "truthy (resolve_tenant s req)" using assms by (simp add: resolve_tenant_def Let_def)
  moreover have "resolve_tenant s req =
      (case header_get (req_headers req) ''X-Tenant-ID'' of
         Some (c # cs) \<Rightarrow> PStr (c # cs)
       | _ \<Rightarrow> if truthy (dget_dflt (req_state req) ''tenant_id'' PNone)
             then dget_dflt (req_state req) ''tenant_id'' PNone else PStr (DEFAULT_TENANT_ID (sec s)))"
    by (auto simp: resolve_tenant_def Let_def split: option.splits list.splits)
  ultimately show ?thesis by (auto simp: tid require_tenant_def)
qed

theorem tenant_resolution_witness:
  "tc_tenant_id (get_tenant_context (\<lambda>_. []) default_settings
     \<lparr>client_host = None, url_path = ''/'', req_state = [(''tenant_id'', PStr ''acme'')], req_headers = []\<rparr>) = PStr ''acme''"
  using tenant_resolution [of default_settings "\<lambda>_. []"
      "\<lparr>client_host = None, url_path = ''/'', req_state = [(''tenant_id'', PStr ''acme'')], req_headers = []\<rparr>"]
  by (simp add: default_settings_def dget_dflt_def header_get_def)

text \<open>
  The rate limit never refuses a request: for every limit, key strategy and request the
  dependency succeeds, and with the client import failing it reports minus one remaining request.
  Status 429 is unreachable, also if the client were available.
\<close>

theorem rate_limit_never_refuses:
  "rate_limit_dep fmt False s n kf req = Inr \<lparr>info_limit = n, info_remaining = - 1\<rparr> \<and>
   fst (rate_limit_check client n key)"
  by (simp add: rate_limit_dep_def rate_limit_check_def redis_client_import_def is_allowed_def split: sum.splits)

end
