(* ===== verification/Accounts.thy ===== *)
theory Accounts
  imports Api_Deps
begin

text \<open>
  The user store of the admin router and the login endpoints (\<open>app/api/routers/admin_router.py\<close>,
  \<open>app/api/routers/auth_router.py\<close>). The store is the module-level dictionary of users; every endpoint
  that touches it is a function from the store to the response and the store afterwards. Identifiers,
  temporary passwords and times that the endpoints generate are arguments; \<open>sha256_hex\<close> is the digest.
  The permission dependency runs before the handler (\<open>guarded\<close>).
\<close>

section \<open>The store\<close>

record user_data =
  user_id :: string
  username :: string
  email :: string
  password_hash :: string
  permissions :: "string list"
  is_active :: bool
  user_tenant :: pyval
  created_at :: string
  requires_password_change :: bool
  token_reset_at :: "string option"
  requires_reauth :: bool

type_synonym users = "(string, user_data) dict"

record user_response =
  r_user_id :: string
  r_username :: string
  r_email :: string
  r_permissions :: "string list"
  r_is_active :: bool
  r_created_at :: string

definition user_response_of :: "user_data \<Rightarrow> user_response" where
  "user_response_of u =
     \<lparr>r_user_id = user_id u, r_username = username u, r_email = email u, r_permissions = permissions u,
      r_is_active = is_active u, r_created_at = created_at u\<rparr>"

definition hash_password :: "(string \<Rightarrow> string) \<Rightarrow> string \<Rightarrow> string" where
  "hash_password sha256_hex password = sha256_hex (password @ ''dev-salt-change-in-production'')"

definition verify_password :: "(string \<Rightarrow> string) \<Rightarrow> string \<Rightarrow> string \<Rightarrow> bool" where
  "verify_password sha256_hex password hashed \<longleftrightarrow> hash_password sha256_hex password = hashed"

text \<open>A name between single quotes, as the messages show it.\<close>

definition quoted :: "string \<Rightarrow> string" where
  "quoted s = CHR 0x27 # s @ [CHR 0x27]"

section \<open>Admin endpoints\<close>

record create_user_request =
  c_username :: string
  c_email :: string
  c_password :: string
  c_permissions :: "string list"
  c_is_active :: bool

text \<open>The declared lengths; the framework answers 422 otherwise.\<close>

definition create_request_ok :: "create_user_request \<Rightarrow> bool" where
  "create_request_ok r \<longleftrightarrow> 1 \<le> length (c_username r) \<and> length (c_username r) \<le> 100 \<and> 8 \<le> length (c_password r)"

definition create_user ::
  "(string \<Rightarrow> string) \<Rightarrow> string \<Rightarrow> string \<Rightarrow> pyval \<Rightarrow> create_user_request \<Rightarrow> users \<Rightarrow> (user_response \<times> users) res" where
  "create_user sha256_hex new_id now_iso tenant r users =
     (if \<not> create_request_ok r then Inl (HTTPException 422 ''body'')
      else if list_ex (\<lambda>u. username u = c_username r) (dvalues users) then
        Inl (HTTPException 409 (''User with username '' @ quoted (c_username r) @ '' already exists''))
      else
        let u = \<lparr>user_id = new_id, username = c_username r, email = c_email r,
                 password_hash = hash_password sha256_hex (c_password r),
                 permissions = (if c_permissions r \<noteq> [] then c_permissions r else [''eval:read'', ''workflow:read'']),
                 is_active = c_is_active r, user_tenant = tenant, created_at = now_iso,
                 requires_password_change = False, token_reset_at = None, requires_reauth = False\<rparr> in
        Inr (user_response_of u, dset users new_id u))"

definition list_users :: "users \<Rightarrow> user_response list \<times> int" where
  "list_users users = (map user_response_of (dvalues users), int (length users))"

definition user_not_found :: "string \<Rightarrow> exn" where
  "user_not_found uid = HTTPException 404 (''User with ID '' @ quoted uid @ '' not found'')"

definition get_user :: "string \<Rightarrow> users \<Rightarrow> user_response res" where
  "get_user uid users =
     (case dget users uid of None \<Rightarrow> Inl (user_not_found uid) | Some u \<Rightarrow> Inr (user_response_of u))"

record update_user_request =
  n_email :: "string option"
  n_password :: "string option"
  n_permissions :: "string list option"
  n_is_active :: "bool option"

definition update_request_ok :: "update_user_request \<Rightarrow> bool" where
  "update_request_ok r \<longleftrightarrow> (case n_password r of None \<Rightarrow> True | Some p \<Rightarrow> 8 \<le> length p)"

definition apply_update :: "(string \<Rightarrow> string) \<Rightarrow> update_user_request \<Rightarrow> user_data \<Rightarrow> user_data" where
  "apply_update sha256_hex r u =
     (let u = (case n_email r of None \<Rightarrow> u | Some e \<Rightarrow> u\<lparr>email := e\<rparr>);
          u = (case n_password r of None \<Rightarrow> u | Some p \<Rightarrow> u\<lparr>password_hash := hash_password sha256_hex p\<rparr>);
          u = (case n_permissions r of None \<Rightarrow> u | Some ps \<Rightarrow> u\<lparr>permissions := ps\<rparr>) in
      case n_is_active r of None \<Rightarrow> u | Some a \<Rightarrow> u\<lparr>is_active := a\<rparr>)"

definition update_user ::
  "(string \<Rightarrow> string) \<Rightarrow> string \<Rightarrow> update_user_request \<Rightarrow> users \<Rightarrow> (user_response \<times> users) res" where
  "update_user sha256_hex uid r users =
     (if \<not> update_request_ok r then Inl (HTTPException 422 ''body'')
      else case dget users uid of
        None \<Rightarrow> Inl (user_not_found uid)
      | Some u \<Rightarrow>
          let u = apply_update sha256_hex r u in Inr (user_response_of u, dset users uid u))"

definition delete_user :: "string \<Rightarrow> users \<Rightarrow> users res" where
  "delete_user uid users =
     (if uid \<notin> set (dkeys users) then Inl (user_not_found uid) else Inr (ddel users uid))"

definition reset_user_password :: "(string \<Rightarrow> string) \<Rightarrow> string \<Rightarrow> string \<Rightarrow> users \<Rightarrow> (string \<times> users) res" where
  "reset_user_password sha256_hex temp_password uid users =
     (case dget users uid of
        None \<Rightarrow> Inl (user_not_found uid)
      | Some u \<Rightarrow>
          Inr (temp_password,
               dset users uid (u\<lparr>password_hash := hash_password sha256_hex temp_password,
                                 requires_password_change := True\<rparr>)))"

definition reset_user_tokens :: "string \<Rightarrow> string \<Rightarrow> users \<Rightarrow> (string \<times> users) res" where
  "reset_user_tokens now_iso uid users =
     (case dget users uid of
        None \<Rightarrow> Inl (user_not_found uid)
      | Some u \<Rightarrow>
          Inr (now_iso, dset users uid (u\<lparr>token_reset_at := Some now_iso, requires_reauth := True\<rparr>)))"

definition allowed_tasks :: "string list" where
  "allowed_tasks = [''cleanup'', ''cache_clear'', ''stats_recalculation'']"

text \<open>A list of names as Python prints it inside a message.\<close>

definition repr_names :: "string list \<Rightarrow> string" where
  "repr_names xs = ''['' @ join '', '' (map quoted xs) @ '']''"

definition trigger_maintenance :: "string \<Rightarrow> (string, string) dict res" where
  "trigger_maintenance task =
     (if task \<notin> set allowed_tasks then
        Inl (HTTPException 400 (''Unknown task '' @ quoted task @ ''. Allowed: '' @ repr_names allowed_tasks))
      else Inr [(''message'', ''Maintenance task '' @ quoted task @ '' has been triggered''), (''task'', task)])"

record system_status =
  st_status :: string
  st_version :: string
  st_environment :: string
  st_timestamp :: string

definition get_system_status :: "settings \<Rightarrow> string \<Rightarrow> system_status" where
  "get_system_status s now_iso =
     \<lparr>st_status = ''healthy'', st_version = APP_VERSION (app s),
      st_environment = environment_value (ENVIRONMENT (app s)), st_timestamp = now_iso\<rparr>"

record token_config =
  t_access :: int
  t_refresh :: int
  t_confirmation :: int
  t_algorithm :: string

definition get_token_config :: "settings \<Rightarrow> token_config" where
  "get_token_config s =
     \<lparr>t_access = JWT_ACCESS_TOKEN_EXPIRE_MINUTES (sec s), t_refresh = JWT_REFRESH_TOKEN_EXPIRE_DAYS (sec s),
      t_confirmation = JWT_CONFIRMATION_TOKEN_EXPIRE_MINUTES (sec s), t_algorithm = JWT_ALGORITHM (sec s)\<rparr>"

text \<open>
  The detailed token view. \<open>clock\<close> is the time of the request with its fraction of a second; the
  whole seconds left are cut at zero. An expiry claim that is no number makes the view an error.
\<close>

record admin_token_view =
  a_valid :: bool
  a_type :: pyval
  a_user_id :: pyval
  a_email :: pyval
  a_permissions :: pyval
  a_issued_at :: "string option"
  a_expires_at :: "string option"
  a_expires_in :: "int option"
  a_error :: "exn option"

text \<open>The instants a \<open>datetime\<close> can hold, in seconds since 1970 (the years 1 to 9999).\<close>

definition datetime_range :: "rat \<Rightarrow> bool" where
  "datetime_range t \<longleftrightarrow> - 62135596800 \<le> t \<and> t < 253402300800"

definition seconds_left :: "rat \<Rightarrow> pyval \<Rightarrow> int option res" where
  "seconds_left clock expiry =
     (if \<not> truthy expiry then Inr None
      else case num_of expiry of
        None \<Rightarrow> Inl TypeError
      | Some e \<Rightarrow>
          if datetime_range e then Inr (Some (max 0 \<lfloor>e - clock\<rfloor>)) else Inl (ValueError ''year is out of range''))"

text \<open>The declared types of the response fields; a mismatch raises a validation error.\<close>

fun str_or_none :: "pyval \<Rightarrow> bool" where
  "str_or_none PNone \<longleftrightarrow> True"
| "str_or_none (PStr s) \<longleftrightarrow> True"
| "str_or_none v \<longleftrightarrow> False"

fun str_list :: "pyval \<Rightarrow> bool" where
  "str_list (PList vs) \<longleftrightarrow> list_all (\<lambda>v. case v of PStr s \<Rightarrow> True | _ \<Rightarrow> False) vs"
| "str_list v \<longleftrightarrow> False"

definition check_fields :: "bool \<Rightarrow> string \<Rightarrow> unit res" where
  "check_fields fields_fit model = (if fields_fit then Inr () else Inl (ValueError model))"

definition admin_validate_token ::
  "(pyval \<Rightarrow> string) \<Rightarrow> 'tok decoder \<Rightarrow> settings \<Rightarrow> int \<Rightarrow> rat \<Rightarrow> 'tok \<Rightarrow> admin_token_view" where
  "admin_validate_token fmt dec s now clock token =
     (case bindE (decode_token dec s now token) (\<lambda>p.
             bindE (seconds_left clock (dget_dflt p ''exp'' PNone)) (\<lambda>left.
             bindE (check_fields (str_or_none (dget_dflt p ''type'' (PStr ''unknown'')) \<and>
                      str_or_none (dget_dflt p ''sub'' PNone) \<and> str_or_none (dget_dflt p ''email'' PNone) \<and>
                      str_list (dget_dflt p ''permissions'' (PList []))) ''AdminTokenValidationResponse'') (\<lambda>_.
             Inr (p, left)))) of
        Inl e \<Rightarrow> \<lparr>a_valid = False, a_type = PNone, a_user_id = PNone, a_email = PNone, a_permissions = PList [],
                   a_issued_at = None, a_expires_at = None, a_expires_in = None, a_error = Some e\<rparr>
      | Inr (p, left) \<Rightarrow>
          \<lparr>a_valid = True, a_type = dget_dflt p ''type'' (PStr ''unknown''), a_user_id = dget_dflt p ''sub'' PNone,
           a_email = dget_dflt p ''email'' PNone, a_permissions = dget_dflt p ''permissions'' (PList []),
           a_issued_at = Some (str_of fmt (dget_dflt p ''iat'' PNone)),
           a_expires_at = Some (str_of fmt (dget_dflt p ''exp'' PNone)), a_expires_in = left, a_error = None\<rparr>)"

text \<open>\<open>dependencies=[require_permissions(p)]\<close> in front of a handler.\<close>

definition guarded :: "string \<Rightarrow> current_user res \<Rightarrow> 'a res \<Rightarrow> 'a res" where
  "guarded perm user handler =
     bindE user (\<lambda>u. bindE (require_permissions [perm] True u) (\<lambda>_. handler))"

section \<open>Login endpoints\<close>

record credentials_data =
  d_user_id :: string
  d_email :: string
  d_permissions :: "string list"

text \<open>An empty admin password is falsy and falls back to "admin".\<close>

definition admin_password :: "settings \<Rightarrow> string" where
  "admin_password s = (if ADMIN_PASSWORD (sec s) \<noteq> [] then ADMIN_PASSWORD (sec s) else ''admin'')"

definition authenticate_user ::
  "(string \<Rightarrow> string) \<Rightarrow> settings \<Rightarrow> users \<Rightarrow> string \<Rightarrow> string \<Rightarrow> credentials_data option" where
  "authenticate_user sha256_hex s users name password =
     (if name = ADMIN_USERNAME (sec s) \<and> password = admin_password s then
        Some \<lparr>d_user_id = ''00000000-0000-0000-0000-000000000001'', d_email = name @ ''@local'',
              d_permissions = [''admin:*'', ''eval:*'', ''workflow:*'']\<rparr>
      else
        map_option (\<lambda>u. \<lparr>d_user_id = user_id u, d_email = email u, d_permissions = permissions u\<rparr>)
          (List.find (\<lambda>u. username u = name \<and> verify_password sha256_hex password (password_hash u)) (dvalues users)))"

record 'tok token_response =
  access_token :: 'tok
  refresh_token :: 'tok
  token_type :: string
  expires_in :: int

definition issue_tokens ::
  "'tok encoder \<Rightarrow> settings \<Rightarrow> int \<Rightarrow> string \<Rightarrow> string \<Rightarrow> string list \<Rightarrow> 'tok token_response res" where
  "issue_tokens enc s now uid mail perms =
     bindE (create_access_token enc s now uid [(''email'', PStr mail), (''permissions'', PList (map PStr perms))]) (\<lambda>a.
     bindE (create_refresh_token enc s now uid) (\<lambda>r.
     Inr \<lparr>access_token = a, refresh_token = r, token_type = ''bearer'',
          expires_in = JWT_ACCESS_TOKEN_EXPIRE_MINUTES (sec s) * 60\<rparr>))"

definition login ::
  "(string \<Rightarrow> string) \<Rightarrow> 'tok encoder \<Rightarrow> settings \<Rightarrow> int \<Rightarrow> users \<Rightarrow> string \<Rightarrow> string \<Rightarrow> 'tok token_response res" where
  "login sha256_hex enc s now users name password =
     (case authenticate_user sha256_hex s users name password of
        None \<Rightarrow> Inl (HTTPException 401 ''Invalid credentials'')
      | Some d \<Rightarrow>
          bindE (uuid_parse (d_user_id d)) (\<lambda>uid. issue_tokens enc s now uid (d_email d) (d_permissions d)))"

definition get_token ::
  "(string \<Rightarrow> string) \<Rightarrow> 'tok encoder \<Rightarrow> settings \<Rightarrow> int \<Rightarrow> users \<Rightarrow> string \<Rightarrow> string \<Rightarrow> 'tok token_response res" where
  "get_token sha256_hex enc s now users name password = login sha256_hex enc s now users name password"

definition refresh ::
  "'tok encoder \<Rightarrow> 'tok decoder \<Rightarrow> settings \<Rightarrow> int \<Rightarrow> 'tok \<Rightarrow> 'tok token_response res" where
  "refresh enc dec s now token =
     (case verify_refresh_token dec s now token of
        Inl e \<Rightarrow> Inl (HTTPException 401 ''Invalid or expired refresh token'')
      | Inr uid \<Rightarrow> issue_tokens enc s now uid ''admin@local'' [''admin:*'', ''eval:*'', ''workflow:*''])"

record token_validation =
  tv_valid :: bool
  tv_user_id :: pyval
  tv_expires_at :: "string option"
  tv_error :: "exn option"

definition validate_token :: "(pyval \<Rightarrow> string) \<Rightarrow> 'tok decoder \<Rightarrow> settings \<Rightarrow> int \<Rightarrow> 'tok \<Rightarrow> token_validation" where
  "validate_token fmt dec s now token =
     (case bindE (decode_token dec s now token) (\<lambda>p.
             bindE (check_fields (str_or_none (dget_dflt p ''sub'' PNone)) ''TokenValidationResponse'') (\<lambda>_. Inr p)) of
        Inr p \<Rightarrow> \<lparr>tv_valid = True, tv_user_id = dget_dflt p ''sub'' PNone,
                   tv_expires_at = Some (str_of fmt (dget_dflt p ''exp'' PNone)), tv_error = None\<rparr>
      | Inl e \<Rightarrow> \<lparr>tv_valid = False, tv_user_id = PNone, tv_expires_at = None, tv_error = Some e\<rparr>)"

record user_info =
  i_user_id :: pyval
  i_email :: pyval
  i_permissions :: pyval

definition get_current_user_info :: "current_user res \<Rightarrow> user_info res" where
  "get_current_user_info user =
     bindE user (\<lambda>u.
     bindE (check_fields (str_or_none (cu_user_id u) \<and> str_or_none (cu_email u) \<and> str_list (cu_permissions u))
              ''UserInfoResponse'') (\<lambda>_.
     Inr \<lparr>i_user_id = cu_user_id u, i_email = cu_email u, i_permissions = cu_permissions u\<rparr>))"

definition logout :: "current_user res \<Rightarrow> string res" where
  "logout user = bindE user (\<lambda>_. Inr ''Successfully logged out. Discard tokens on client side.'')"

section \<open>The store as a state machine\<close>

text \<open>Every way an endpoint changes the store.\<close>

inductive store_step :: "(string \<Rightarrow> string) \<Rightarrow> users \<Rightarrow> users \<Rightarrow> bool" for sha256_hex where
  create: "create_user sha256_hex i t tn r us = Inr (resp, us') \<Longrightarrow> store_step sha256_hex us us'"
| update: "update_user sha256_hex i r us = Inr (resp, us') \<Longrightarrow> store_step sha256_hex us us'"
| delete: "delete_user i us = Inr us' \<Longrightarrow> store_step sha256_hex us us'"
| reset_password: "reset_user_password sha256_hex tmp i us = Inr (resp, us') \<Longrightarrow> store_step sha256_hex us us'"
| reset_tokens: "reset_user_tokens t i us = Inr (resp, us') \<Longrightarrow> store_step sha256_hex us us'"

inductive store_reachable :: "(string \<Rightarrow> string) \<Rightarrow> users \<Rightarrow> bool" for sha256_hex where
  start: "store_reachable sha256_hex []"
| step: "store_reachable sha256_hex us \<Longrightarrow> store_step sha256_hex us us' \<Longrightarrow> store_reachable sha256_hex us'"

inductive_cases store_stepE: "store_step sha256_hex us us'"

definition users_ok :: "users \<Rightarrow> bool" where
  "users_ok us \<longleftrightarrow> dict_wf us \<and> (\<forall>k u. dget us k = Some u \<longrightarrow> user_id u = k) \<and>
     (\<forall>k k' u u'. dget us k = Some u \<and> dget us k' = Some u' \<and> username u = username u' \<longrightarrow> k = k')"

lemma users_ok_empty: "users_ok []"
  by (simp add: users_ok_def)

lemma users_okI:
  assumes "dict_wf us" "\<And>k u. dget us k = Some u \<Longrightarrow> user_id u = k"
    "\<And>k k' u u'. dget us k = Some u \<Longrightarrow> dget us k' = Some u' \<Longrightarrow> username u = username u' \<Longrightarrow> k = k'"
  shows "users_ok us"
  unfolding users_ok_def using assms by blast

lemma users_okD:
  assumes "users_ok us"
  shows "dict_wf us" "dget us k = Some u \<Longrightarrow> user_id u = k"
    "dget us k = Some u \<Longrightarrow> dget us k' = Some u' \<Longrightarrow> username u = username u' \<Longrightarrow> k = k'"
  using assms unfolding users_ok_def by blast+

text \<open>Setting a user whose name no other user has keeps the invariant.\<close>

lemma users_ok_set:
  assumes ok: "users_ok us" and v: "user_id v = k"
    and other: "\<And>k' u. dget us k' = Some u \<Longrightarrow> username u = username v \<Longrightarrow> k' = k"
  shows "users_ok (dset us k v)"
proof (rule users_okI)
  show "dict_wf (dset us k v)" using users_okD(1) [OF ok] by simp
  show "user_id u = i" if "dget (dset us k v) i = Some u" for i u
    using that v users_okD(2) [OF ok] by (cases "i = k") auto
  show "i = j" if "dget (dset us k v) i = Some a" "dget (dset us k v) j = Some b" "username a = username b" for i j a b
  proof -
    consider "i = k" "j = k" | "i = k" "j \<noteq> k" | "i \<noteq> k" "j = k" | "i \<noteq> k" "j \<noteq> k" by blast
    then show ?thesis
    proof cases
      case 2
      then show ?thesis using that other [of j b] by simp
    next
      case 3
      then show ?thesis using that other [of i a] by simp
    next
      case 4
      then show ?thesis using that users_okD(3) [OF ok] by simp
    qed simp
  qed
qed

lemma users_ok_replace:
  assumes "users_ok us" "dget us k = Some u" "user_id v = user_id u" "username v = username u"
  shows "users_ok (dset us k v)"
  using assms users_okD(2,3) [OF assms(1)] by (intro users_ok_set) auto

lemma users_ok_delete:
  assumes ok: "users_ok us"
  shows "users_ok (ddel us k)"
proof (rule users_okI)
  show "dict_wf (ddel us k)" using users_okD(1) [OF ok] by simp
  show "user_id u = i" if "dget (ddel us k) i = Some u" for i u
    using that users_okD(2) [OF ok] by (cases "i = k") auto
  show "i = j" if "dget (ddel us k) i = Some a" "dget (ddel us k) j = Some b" "username a = username b" for i j a b
    using that users_okD(3) [OF ok] by (simp split: if_splits)
qed

lemma apply_update_keeps [simp]:
  "user_id (apply_update sha r u) = user_id u" "username (apply_update sha r u) = username u"
  by (simp_all add: apply_update_def Let_def split: option.splits)

lemma dvalues_dget: "dict_wf us \<Longrightarrow> u \<in> set (dvalues us) \<longleftrightarrow> (\<exists>k. dget us k = Some u)"
  by (auto simp: map_of_eq_Some_iff image_iff) force

lemma store_step_ok: "store_step sha us us' \<Longrightarrow> users_ok us \<Longrightarrow> users_ok us'"
proof (induction rule: store_step.induct)
  case (create i t tn r us resp us')
  then obtain v where v: "us' = dset us i v" "user_id v = i" "username v = c_username r"
    and new: "\<not> list_ex (\<lambda>u. username u = c_username r) (dvalues us)"
    by (auto simp: create_user_def Let_def split: if_splits)
  have "username u \<noteq> username v" if "dget us k = Some u" for k u
    using new v(3) map_of_SomeD [OF that] by (force simp: list_ex_iff)
  then show ?case using create.prems v by (auto intro: users_ok_set)
next
  case (update i r us resp us')
  then obtain u where "dget us i = Some u" "us' = dset us i (apply_update sha r u)"
    by (auto simp: update_user_def Let_def split: if_splits option.splits)
  with users_ok_replace [OF update.prems] show ?case by simp
next
  case (delete i us us')
  then show ?case by (auto simp: delete_user_def split: if_splits intro: users_ok_delete)
next
  case (reset_password tmp i us resp us')
  then show ?case
    using users_ok_replace [OF reset_password.prems] by (auto simp: reset_user_password_def split: option.splits)
next
  case (reset_tokens t i us resp us')
  then show ?case
    using users_ok_replace [OF reset_tokens.prems] by (auto simp: reset_user_tokens_def split: option.splits)
qed

lemma store_reachable_ok: "store_reachable sha us \<Longrightarrow> users_ok us"
  by (induction rule: store_reachable.induct) (auto simp: users_ok_empty intro: store_step_ok)

section \<open>Authentication\<close>

lemma find_user:
  assumes ok: "users_ok us"
  shows "List.find (\<lambda>u. username u = name \<and> Q u) (dvalues us) = Some u \<longleftrightarrow>
    dget us (user_id u) = Some u \<and> username u = name \<and> Q u"
    (is "List.find ?P _ = _ \<longleftrightarrow> _")
proof
  assume "List.find ?P (dvalues us) = Some u"
  then have "u \<in> set (dvalues us)" "?P u" by (auto simp: find_Some_iff)
  then show "dget us (user_id u) = Some u \<and> username u = name \<and> Q u"
    using dvalues_dget [OF users_okD(1) [OF ok]] users_okD(2) [OF ok] by blast
next
  assume u: "dget us (user_id u) = Some u \<and> username u = name \<and> Q u"
  then have "u \<in> set (dvalues us)" using dvalues_dget [OF users_okD(1) [OF ok]] by blast
  with u have "List.find ?P (dvalues us) \<noteq> None" by (auto simp: find_None_iff)
  then obtain v where v: "List.find ?P (dvalues us) = Some v" by blast
  then have pv: "v \<in> set (dvalues us)" "username v = name" by (auto simp: find_Some_iff)
  then have "dget us (user_id v) = Some v"
    using dvalues_dget [OF users_okD(1) [OF ok]] users_okD(2) [OF ok] by blast
  then have "user_id v = user_id u" using users_okD(3) [OF ok] u pv(2) by blast
  with \<open>dget us (user_id v) = Some v\<close> u have "v = u" by (metis option.inject)
  with v show "List.find ?P (dvalues us) = Some u" by blast
qed

lemma authenticate_stored:
  assumes "users_ok us" and "\<not> (name = ADMIN_USERNAME (sec s) \<and> password = admin_password s)"
  shows "authenticate_user sha s us name password = Some d \<longleftrightarrow>
    (\<exists>u. dget us (user_id u) = Some u \<and> username u = name \<and> hash_password sha password = password_hash u \<and>
         d = \<lparr>d_user_id = user_id u, d_email = email u, d_permissions = permissions u\<rparr>)"
  using find_user [OF assms(1), of name "\<lambda>u. verify_password sha password (password_hash u)"] assms(2)
  by (auto simp: authenticate_user_def verify_password_def)

lemma issued_access:
  assumes "issue_tokens enc s now uid mail perms = Inr r"
  shows "create_access_token enc s now uid [(''email'', PStr mail), (''permissions'', PList (map PStr perms))] =
      Inr (access_token r)"
    and "create_refresh_token enc s now uid = Inr (refresh_token r)"
  using assms by (auto simp: issue_tokens_def bindE_eq_Inr)

lemma issued_user:
  assumes "jwt_codec enc dec" "issue_tokens enc s now uid mail perms = Inr r" "now \<le> t"
    "t < now + JWT_ACCESS_TOKEN_EXPIRE_MINUTES (sec s) * 60"
  shows "\<exists>u. get_current_user dec s t (Some (access_token r)) = Inr u \<and> cu_user_id u = PStr uid \<and>
    cu_email u = PStr mail \<and> cu_permissions u = PList (map PStr perms)"
proof -
  have "decode_token dec s t (access_token r) =
      Inr (access_payload s now uid [(''email'', PStr mail), (''permissions'', PList (map PStr perms))])"
    using decode_access [OF assms(1) issued_access(1) [OF assms(2)]] assms(3,4) by simp
  then show ?thesis
    by (simp add: get_current_user_def new_user_def dget_dflt_def access_payload_get py_or_def)
qed

lemma guarded_pass:
  assumes "cu_permissions u = PList (map PStr gs)" "user_allows (set gs) perm"
  shows "guarded perm (Inr u) h = h"
  using assms by (simp add: guarded_def require_permissions_def user_has_permission_def grant_loop_strings)

section \<open>Properties\<close>

text \<open>
  C18: In every reachable user store the keys are distinct and are the identifiers of their users, and
  no two users share a name: creation refuses taken names, and no endpoint renames a user.
\<close>

theorem user_store_invariant:
  assumes "store_reachable sha us"
  shows "dict_wf us \<and> (\<forall>k u. dget us k = Some u \<longrightarrow> user_id u = k) \<and>
    (\<forall>k k' u u'. dget us k = Some u \<and> dget us k' = Some u' \<and> username u = username u' \<longrightarrow> k = k')"
  using store_reachable_ok [OF assms] unfolding users_ok_def by blast

definition demo_request :: create_user_request where
  "demo_request = \<lparr>c_username = ''ann'', c_email = ''ann@x'', c_password = ''password'', c_permissions = [],
     c_is_active = False\<rparr>"

definition demo_store :: users where
  "demo_store = [(''00000000-0000-0000-0000-0000000000aa'',
     \<lparr>user_id = ''00000000-0000-0000-0000-0000000000aa'', username = ''ann'', email = ''ann@x'',
      password_hash = ''passworddev-salt-change-in-production'', permissions = [''eval:read'', ''workflow:read''],
      is_active = False, user_tenant = PStr ''default'', created_at = ''now'',
      requires_password_change = False, token_reset_at = None, requires_reauth = False\<rparr>)]"

lemma demo_created:
  "create_user (\<lambda>x. x) ''00000000-0000-0000-0000-0000000000aa'' ''now'' (PStr ''default'') demo_request [] =
     Inr (user_response_of (snd (hd demo_store)), demo_store)"
  by (simp add: create_user_def create_request_ok_def demo_request_def demo_store_def hash_password_def Let_def)

lemma demo_reachable: "store_reachable (\<lambda>x. x) demo_store"
  by (rule store_reachable.step [OF store_reachable.start store_step.create [OF demo_created]])

theorem user_store_invariant_witness: "dict_wf demo_store"
  using user_store_invariant [OF demo_reachable] by blast

text \<open>
  Credentials other than the configured administrator's authenticate exactly the stored user of
  that name whose password hash matches, and at most one user qualifies. Neither the active flag
  nor a pending token reset plays a role.
\<close>

theorem authenticate_exact:
  assumes "store_reachable sha us" and "\<not> (name = ADMIN_USERNAME (sec s) \<and> password = admin_password s)"
  shows "authenticate_user sha s us name password = Some d \<longleftrightarrow>
    (\<exists>u. dget us (user_id u) = Some u \<and> username u = name \<and> hash_password sha password = password_hash u \<and>
         d = \<lparr>d_user_id = user_id u, d_email = email u, d_permissions = permissions u\<rparr>)"
  by (rule authenticate_stored [OF store_reachable_ok [OF assms(1)] assms(2)])

text \<open>A user created as inactive is authenticated.\<close>

theorem authenticate_exact_witness:
  "\<not> is_active (snd (hd demo_store)) \<and>
   authenticate_user (\<lambda>x. x) default_settings demo_store ''ann'' ''password'' =
     Some \<lparr>d_user_id = ''00000000-0000-0000-0000-0000000000aa'', d_email = ''ann@x'',
           d_permissions = [''eval:read'', ''workflow:read'']\<rparr>"
proof -
  have "\<not> (''ann'' = ADMIN_USERNAME (sec default_settings) \<and> ''password'' = admin_password default_settings)"
    by (simp add: default_settings_def)
  from authenticate_exact [OF demo_reachable this, THEN iffD2, OF exI [of _ "snd (hd demo_store)"]] show ?thesis
    by (simp add: demo_store_def hash_password_def)
qed

text \<open>
  C19: Creating a user and logging in fit together: the new user's name and password authenticate as
  that user, with the reported identifier and permissions, and every other user is left as it was.
\<close>

theorem create_then_authenticate:
  assumes "store_reachable sha us" and "create_user sha i t tn r us = Inr (resp, us')"
    and "\<not> (c_username r = ADMIN_USERNAME (sec s) \<and> c_password r = admin_password s)"
  shows "authenticate_user sha s us' (c_username r) (c_password r) =
      Some \<lparr>d_user_id = r_user_id resp, d_email = c_email r, d_permissions = r_permissions resp\<rparr> \<and>
    r_permissions resp \<noteq> [] \<and> (\<forall>k. k \<noteq> i \<longrightarrow> dget us' k = dget us k)"
proof -
  obtain u where u: "us' = dset us i u" "resp = user_response_of u" "user_id u = i" "username u = c_username r"
    "email u = c_email r" "password_hash u = hash_password sha (c_password r)" "permissions u \<noteq> []"
    using assms(2) by (auto simp: create_user_def Let_def split: if_splits)
  have "users_ok us'" using store_step_ok [OF store_step.create [OF assms(2)] store_reachable_ok [OF assms(1)]] .
  then have "authenticate_user sha s us' (c_username r) (c_password r) =
      Some \<lparr>d_user_id = user_id u, d_email = email u, d_permissions = permissions u\<rparr>"
    unfolding authenticate_stored [OF \<open>users_ok us'\<close> assms(3)] using u by (intro exI [of _ u]) simp
  then show ?thesis using u by (simp add: user_response_of_def)
qed

theorem create_then_authenticate_witness:
  "authenticate_user (\<lambda>x. x) default_settings demo_store ''ann'' ''password'' =
     Some \<lparr>d_user_id = ''00000000-0000-0000-0000-0000000000aa'', d_email = ''ann@x'',
           d_permissions = [''eval:read'', ''workflow:read'']\<rparr>"
proof -
  have "\<not> (c_username demo_request = ADMIN_USERNAME (sec default_settings) \<and>
      c_password demo_request = admin_password default_settings)"
    by (simp add: demo_request_def default_settings_def)
  from create_then_authenticate [OF store_reachable.start demo_created this] show ?thesis
    by (simp add: demo_request_def user_response_of_def demo_store_def)
qed

text \<open>
  C21: Refreshing escalates privileges: whoever holds an unexpired refresh token, of any user with
  any permissions, obtains an access token that passes every admin guard until it expires.
\<close>

theorem refresh_escalates:
  assumes "jwt_codec enc dec" and "create_refresh_token enc s issued uid = Inr tok"
    and "issued \<le> now" and "now < issued + JWT_REFRESH_TOKEN_EXPIRE_DAYS (sec s) * 86400"
    and "uuid_parse uid = Inr uid"
    and "now \<le> t" and "t < now + JWT_ACCESS_TOKEN_EXPIRE_MINUTES (sec s) * 60"
  shows "\<exists>r. refresh enc dec s now tok = Inr r \<and>
    (\<forall>action h. guarded (''admin:'' @ action) (get_current_user dec s t (Some (access_token r))) h = h)"
proof -
  have "decode_token dec s now tok = Inr (refresh_payload s issued uid)"
    using decode_refresh [OF assms(1-3)] assms(4) by simp
  then have "verify_refresh_token dec s now tok = Inr uid"
    using assms(5) by (simp add: verify_refresh_token_def verify_typed_def refresh_payload_def dget_dflt_def dget_or_raise_def)
  moreover obtain key where "jwt_key s = Inr key" using assms(2) by (auto simp: create_refresh_token_def bindE_eq_Inr)
  ultimately obtain r where r: "refresh enc dec s now tok = Inr r"
    "issue_tokens enc s now uid ''admin@local'' [''admin:*'', ''eval:*'', ''workflow:*''] = Inr r"
    by (simp add: refresh_def issue_tokens_def create_access_token_def create_refresh_token_def)
  obtain u where u: "get_current_user dec s t (Some (access_token r)) = Inr u"
    "cu_permissions u = PList (map PStr [''admin:*'', ''eval:*'', ''workflow:*''])"
    using issued_user [OF assms(1) r(2) assms(6,7)] by blast
  have "user_allows (set [''admin:*'', ''eval:*'', ''workflow:*'']) (''admin:'' @ action)" for action
    unfolding user_allows_def by (rule disjI2, rule exI [of _ "''admin''"], rule exI [of _ action]) simp
  then show ?thesis using r(1) u guarded_pass [OF u(2)] by auto
qed

theorem refresh_escalates_witness:
  "\<exists>tok r. create_refresh_token open_enc default_settings 0 ''00000000-0000-0000-0000-0000000000aa'' = Inr tok \<and>
     refresh open_enc open_dec default_settings 100 tok = Inr r \<and>
     guarded ''admin:write'' (get_current_user open_dec default_settings 200 (Some (access_token r)))
       (delete_user ''00000000-0000-0000-0000-0000000000aa'' demo_store) = Inr []"
proof -
  obtain tok where tok: "create_refresh_token open_enc default_settings 0 ''00000000-0000-0000-0000-0000000000aa'' = Inr tok"
    by (simp add: create_refresh_token_def jwt_key_def default_settings_def)
  have id: "uuid_parse ''00000000-0000-0000-0000-0000000000aa'' = Inr ''00000000-0000-0000-0000-0000000000aa''" by code_simp
  have "delete_user ''00000000-0000-0000-0000-0000000000aa'' demo_store = Inr []"
    by (simp add: delete_user_def demo_store_def)
  moreover obtain r where "refresh open_enc open_dec default_settings 100 tok = Inr r"
    "\<And>h :: users res. guarded (''admin:'' @ ''write'') (get_current_user open_dec default_settings 200 (Some (access_token r))) h = h"
    using refresh_escalates [OF open_codec tok _ _ id, of 100 200] by (auto simp: default_settings_def)
  ultimately show ?thesis using tok by auto
qed

end
