(* ===== verification/Feature_Flags.thy ===== *)
theory Feature_Flags
  imports Prelude "HOL-Library.Char_ord" "HOL-Library.List_Lexorder"
begin

text \<open>
  Feature flags (\<open>app/core/config/feature_flags.py\<close>) and the environment helpers
  (\<open>app/core/config/env.py\<close>). The enabled flags are kept as a comma-separated text; \<open>order\<close> is the
  unspecified order in which the interpreter iterates over a set.
\<close>

section \<open>Flags\<close>

datatype feature_flag =
    WORKFLOW_V2 | LANGGRAPH_RUNTIME | CONDITIONAL_EDGES | RAGAS_MULTI_TURN | AGENT_EVALUATION | PROMPT_EVALUATION
  | KAFKA_EVENTS | SEMANTIC_CACHE | DISTRIBUTED_LOCKS | ENHANCED_AUDIT | PII_DETECTION | PROMPT_INJECTION_GUARD

fun flag_value :: "feature_flag \<Rightarrow> string" where
  "flag_value WORKFLOW_V2 = ''workflow_v2''"
| "flag_value LANGGRAPH_RUNTIME = ''langgraph_runtime''"
| "flag_value CONDITIONAL_EDGES = ''conditional_edges''"
| "flag_value RAGAS_MULTI_TURN = ''ragas_multi_turn''"
| "flag_value AGENT_EVALUATION = ''agent_evaluation''"
| "flag_value PROMPT_EVALUATION = ''prompt_evaluation''"
| "flag_value KAFKA_EVENTS = ''kafka_events''"
| "flag_value SEMANTIC_CACHE = ''semantic_cache''"
| "flag_value DISTRIBUTED_LOCKS = ''distributed_locks''"
| "flag_value ENHANCED_AUDIT = ''enhanced_audit''"
| "flag_value PII_DETECTION = ''pii_detection''"
| "flag_value PROMPT_INJECTION_GUARD = ''prompt_injection_guard''"

definition all_flags :: "feature_flag list" where
  "all_flags =
     [WORKFLOW_V2, LANGGRAPH_RUNTIME, CONDITIONAL_EDGES, RAGAS_MULTI_TURN, AGENT_EVALUATION, PROMPT_EVALUATION,
      KAFKA_EVENTS, SEMANTIC_CACHE, DISTRIBUTED_LOCKS, ENHANCED_AUDIT, PII_DETECTION, PROMPT_INJECTION_GUARD]"

datatype flag_arg = Flag feature_flag | FlagName string

fun flag_name :: "flag_arg \<Rightarrow> string" where
  "flag_name (Flag f) = flag_value f"
| "flag_name (FlagName s) = s"

text \<open>\<open>{f.strip() for f in s.split(",") if f.strip()}\<close>.\<close>

definition get_enabled_list :: "string \<Rightarrow> string list" where
  "get_enabled_list features = filter (\<lambda>f. f \<noteq> []) (map strip (split_on '','' [] features))"

definition get_enabled_set :: "string \<Rightarrow> string set" where
  "get_enabled_set features = set (get_enabled_list features)"

definition is_enabled :: "string \<Rightarrow> flag_arg \<Rightarrow> bool" where
  "is_enabled features flag \<longleftrightarrow> ''*'' \<in> get_enabled_set features \<or> flag_name flag \<in> get_enabled_set features"

definition enable :: "(string set \<Rightarrow> string list) \<Rightarrow> flag_arg \<Rightarrow> string \<Rightarrow> string" where
  "enable order flag features = join '','' (order (insert (flag_name flag) (get_enabled_set features)))"

definition disable :: "(string set \<Rightarrow> string list) \<Rightarrow> flag_arg \<Rightarrow> string \<Rightarrow> string" where
  "disable order flag features = join '','' (order (get_enabled_set features - {flag_name flag}))"

definition get_all_flags :: "string \<Rightarrow> (string, bool) dict" where
  "get_all_flags features =
     dict_of (map (\<lambda>f. (flag_value f, flag_value f \<in> get_enabled_set features \<or> ''*'' \<in> get_enabled_set features)) all_flags)"

section \<open>Environment helpers\<close>

datatype env_name = ENV_DEV | ENV_TEST | ENV_STAGING | ENV_PREPROD | ENV_PROD

definition env_values :: "(string, env_name) dict" where
  "env_values = [(''dev'', ENV_DEV), (''test'', ENV_TEST), (''staging'', ENV_STAGING), (''preprod'', ENV_PREPROD), (''prod'', ENV_PROD)]"

text \<open>\<open>var\<close> is the process environment.\<close>

definition get_environment :: "(string \<Rightarrow> string option) \<Rightarrow> env_name" where
  "get_environment var =
     (let env = lower (case var ''ENVIRONMENT'' of None \<Rightarrow> ''dev'' | Some v \<Rightarrow> v) in
      case dget env_values env of Some e \<Rightarrow> e | None \<Rightarrow> ENV_DEV)"

definition env_is_production :: "(string \<Rightarrow> string option) \<Rightarrow> bool" where
  "env_is_production var \<longleftrightarrow> get_environment var = ENV_PROD"

definition env_is_development :: "(string \<Rightarrow> string option) \<Rightarrow> bool" where
  "env_is_development var \<longleftrightarrow> get_environment var = ENV_DEV"

definition get_env_var :: "(string \<Rightarrow> string option) \<Rightarrow> string \<Rightarrow> pyval \<Rightarrow> bool \<Rightarrow> pyval res" where
  "get_env_var var key dflt required =
     (case var key of
        None \<Rightarrow> if required then Inl (ValueError (''Required environment variable '' @ key @ '' is not set'')) else Inr dflt
      | Some v \<Rightarrow> Inr (PStr v))"

definition get_bool_env :: "(string \<Rightarrow> string option) \<Rightarrow> string \<Rightarrow> bool \<Rightarrow> bool" where
  "get_bool_env var key dflt \<longleftrightarrow>
     lower (case var key of None \<Rightarrow> (if dflt then ''true'' else ''false'') | Some v \<Rightarrow> v) \<in> {''true'', ''1'', ''yes'', ''on''}"

definition get_list_env :: "(string \<Rightarrow> string option) \<Rightarrow> string \<Rightarrow> string list option \<Rightarrow> string \<Rightarrow> string list res" where
  "get_list_env var key dflt separator =
     (case var key of
        None \<Rightarrow> Inr (case dflt of None \<Rightarrow> [] | Some d \<Rightarrow> d)
      | Some v \<Rightarrow> bindE (py_split v separator) (\<lambda>ps. Inr (filter (\<lambda>x. x \<noteq> []) (map strip ps))))"

section \<open>Lemmas\<close>

definition plain_name :: "string \<Rightarrow> bool" where
  "plain_name s \<longleftrightarrow> s \<noteq> [] \<and> CHR '','' \<notin> set s \<and> strip s = s"

lemma split_no_sep: "x \<in> set (split_on [c] acc s) \<Longrightarrow> c \<notin> set acc \<Longrightarrow> c \<notin> set x"
proof (induction "[c]" acc s rule: split_on.induct)
  case (2 acc d s)
  show ?case
  proof (cases "d = c")
    case True
    then have "split_on [c] acc (d # s) = acc # split_on [c] [] s" by (simp add: startswith_def)
    with 2 True show ?thesis by (auto simp: startswith_def)
  next
    case False
    then have "split_on [c] acc (d # s) = split_on [c] (acc @ [d]) s" by (simp add: startswith_def)
    with 2 False show ?thesis by (auto simp: startswith_def)
  qed
qed simp

lemma enabled_plain: "f \<in> get_enabled_set s \<Longrightarrow> plain_name f"
  using split_no_sep [of _ "CHR '',''" "[]" s] set_strip_subset
  by (fastforce simp: get_enabled_set_def get_enabled_list_def plain_name_def)

text \<open>Writing a set of plain names and reading it back.\<close>

lemma enabled_join:
  assumes "\<And>x. x \<in> set xs \<Longrightarrow> plain_name x"
  shows "get_enabled_set (join '','' xs) = set xs"
proof (cases "xs = []")
  case True
  then show ?thesis by (simp add: get_enabled_set_def get_enabled_list_def strip_def lstrip_def rstrip_def)
next
  case False
  then have "split_on '','' [] (join '','' xs) = xs"
    using split_on_join [OF False, of "CHR '',''"] assms by (auto simp: plain_name_def)
  moreover have "map strip xs = xs" "filter (\<lambda>f. f \<noteq> []) xs = xs"
    using assms by (auto simp: plain_name_def intro!: map_idI)
  ultimately show ?thesis by (simp add: get_enabled_set_def get_enabled_list_def)
qed

lemma flag_value_plain: "plain_name (flag_value f)"
  by (cases f) (simp_all add: plain_name_def strip_nothing is_ws_def)

section \<open>Properties\<close>

text \<open>
  Enabling and disabling a known flag behave as on a set, although the set is stored as a text:
  enabling makes exactly that flag enabled in addition, disabling takes exactly that flag away. Under the
  wildcard every flag stays enabled, a disabled one too.
\<close>

theorem flags_as_set:
  assumes "\<And>A. finite A \<Longrightarrow> set (order A) = A"
  shows "(is_enabled (enable order (Flag f) s) g \<longleftrightarrow> flag_name g = flag_value f \<or> is_enabled s g) \<and>
    (is_enabled (disable order (Flag f) s) g \<longleftrightarrow>
      ''*'' \<in> get_enabled_set s \<or> flag_name g \<noteq> flag_value f \<and> is_enabled s g)"
proof -
  have fin: "finite (get_enabled_set s)" by (simp add: get_enabled_set_def)
  have star: "flag_value f \<noteq> ''*''" by (cases f) simp_all
  have "get_enabled_set (enable order (Flag f) s) = insert (flag_value f) (get_enabled_set s)"
    unfolding enable_def using assms fin flag_value_plain enabled_plain by (subst enabled_join) auto
  then have "is_enabled (enable order (Flag f) s) g \<longleftrightarrow> flag_name g = flag_value f \<or> is_enabled s g"
    using star by (auto simp: is_enabled_def)
  moreover have "get_enabled_set (disable order (Flag f) s) = get_enabled_set s - {flag_value f}"
    unfolding disable_def using assms fin enabled_plain by (subst enabled_join) auto
  then have "is_enabled (disable order (Flag f) s) g \<longleftrightarrow>
      ''*'' \<in> get_enabled_set s \<or> flag_name g \<noteq> flag_value f \<and> is_enabled s g"
    using star by (auto simp: is_enabled_def)
  ultimately show ?thesis by blast
qed

text \<open>Disabling a flag has no effect under the wildcard.\<close>

theorem flags_as_set_witness:
  "is_enabled (disable sorted_list_of_set (Flag KAFKA_EVENTS) ''*'') (Flag KAFKA_EVENTS) \<and>
   \<not> is_enabled (disable sorted_list_of_set (Flag KAFKA_EVENTS) ''kafka_events, semantic_cache'') (Flag KAFKA_EVENTS)"
proof -
  have e: "get_enabled_set ''*'' = {''*''}"
    "get_enabled_set ''kafka_events, semantic_cache'' = {''kafka_events'', ''semantic_cache''}"
    by (simp_all add: get_enabled_set_def get_enabled_list_def startswith_def strip_def lstrip_def rstrip_def is_ws_def)
  show ?thesis
    using flags_as_set [of sorted_list_of_set KAFKA_EVENTS "''*''" "Flag KAFKA_EVENTS"]
      flags_as_set [of sorted_list_of_set KAFKA_EVENTS "''kafka_events, semantic_cache''" "Flag KAFKA_EVENTS"] e
    by simp
qed

text \<open>
  The environment helper knows other names than the settings: "production" is no production
  environment for it, and every unknown name counts as development.
\<close>

theorem environment_names:
  "(env_is_production var \<longleftrightarrow> (\<exists>v. var ''ENVIRONMENT'' = Some v \<and> lower v = ''prod'')) \<and>
   (var ''ENVIRONMENT'' = Some ''production'' \<longrightarrow> env_is_development var)"
proof
  have "lower ''dev'' = ''dev''" "lower ''production'' = ''production''" by (simp_all add: lower_def lower_char_def)
  then show "env_is_production var \<longleftrightarrow> (\<exists>v. var ''ENVIRONMENT'' = Some v \<and> lower v = ''prod'')"
    "var ''ENVIRONMENT'' = Some ''production'' \<longrightarrow> env_is_development var"
    by (auto simp: env_is_production_def env_is_development_def get_environment_def env_values_def Let_def split: option.splits)
qed

theorem environment_names_witness:
  "env_is_development (\<lambda>k. Some ''production'')"
  using environment_names [of "\<lambda>k. Some ''production''"] by simp

end
