(* ===== verification/Api_Keys.thy ===== *)
theory Api_Keys
  imports Prelude
begin

text \<open>
  API keys (\<open>app/core/security/api_key_service.py\<close>). The repository is a protocol without an
  implementation in the code base, so it is a parameter: what it returns for a hash, and what its
  two updates do. The service keeps it together with its own cache; \<open>sha256_hex\<close> is the digest, times are
  numbers, and the random parts of a key are arguments. The operations are coroutines: between an \<open>await\<close> and the
  rest of an operation others may run, so each is given by its pieces, and clients interleave them in any order.
\<close>

section \<open>Definitions\<close>

record api_key =
  key_id :: string
  hashed_key :: string
  key_tenant :: string
  key_name :: string
  key_permissions :: "string list"
  key_created_at :: int
  expires_at :: "int option"
  last_used_at :: "int option"
  key_active :: bool
  rate_limit :: int

record 's key_repository =
  get_by_key_hash :: "'s \<Rightarrow> string \<Rightarrow> api_key option"
  update_last_used :: "'s \<Rightarrow> string \<Rightarrow> 's \<times> unit res"
  repo_revoke :: "'s \<Rightarrow> string \<Rightarrow> 's \<times> unit res"

text \<open>The service: the state of its repository, if it has one, and the cache.\<close>

record 's key_service =
  repository :: "'s option"
  cache :: "(string, api_key) dict"

definition new_key_service :: "'s option \<Rightarrow> 's key_service" where
  "new_key_service repo = \<lparr>repository = repo, cache = []\<rparr>"

definition hash_key :: "(string \<Rightarrow> string) \<Rightarrow> string \<Rightarrow> string" where
  "hash_key sha256_hex key = sha256_hex key"

definition generate_key ::
  "(string \<Rightarrow> string) \<Rightarrow> string \<Rightarrow> string \<Rightarrow> int \<Rightarrow> string \<Rightarrow> string \<Rightarrow> string list option \<Rightarrow> string \<times> api_key" where
  "generate_key sha256_hex random_part new_id now tenant_id name permissions =
     (let plain_key = ''rag_eval_'' @ random_part in
      (plain_key,
       \<lparr>key_id = new_id, hashed_key = hash_key sha256_hex plain_key, key_tenant = tenant_id, key_name = name,
        key_permissions = (case permissions of Some ps \<Rightarrow> if ps \<noteq> [] then ps else [''eval:read''] | None \<Rightarrow> [''eval:read'']),
        key_created_at = now, expires_at = None, last_used_at = None, key_active = True, rate_limit = 1000\<rparr>))"

definition unexpired :: "int \<Rightarrow> api_key \<Rightarrow> bool" where
  "unexpired now k \<longleftrightarrow> (case expires_at k of None \<Rightarrow> True | Some t \<Rightarrow> now < t)"

text \<open>
  Validation up to the question to the repository: it returns a result, or waits for the answer for a hash.
\<close>

definition validate_start :: "(string \<Rightarrow> string) \<Rightarrow> int \<Rightarrow> string \<Rightarrow> 's key_service \<Rightarrow> api_key option + string" where
  "validate_start sha256_hex now key S =
     (let hashed = hash_key sha256_hex key;
          ask = (if repository S = None then Inl None else Inr hashed) in
      case dget (cache S) hashed of
        Some cached \<Rightarrow> if key_active cached \<and> unexpired now cached then Inl (Some cached) else ask
      | None \<Rightarrow> ask)"

text \<open>From the answer to the second \<open>await\<close>: a live key is put into the cache.\<close>

definition validate_resume :: "int \<Rightarrow> string \<Rightarrow> api_key option \<Rightarrow> 's key_service \<Rightarrow> 's key_service \<times> api_key option" where
  "validate_resume now hashed found S =
     (case found of
        None \<Rightarrow> (S, None)
      | Some k \<Rightarrow>
          if key_active k \<and> unexpired now k then (S\<lparr>cache := dset (cache S) hashed k\<rparr>, Some k) else (S, None))"

text \<open>A failing update of the last use is logged only; the state the failed call leaves is the repository's.\<close>

definition validate_touch :: "'s key_repository \<Rightarrow> api_key \<Rightarrow> 's key_service \<Rightarrow> 's key_service" where
  "validate_touch P k S = S\<lparr>repository := map_option (\<lambda>db. fst (update_last_used P db (key_id k))) (repository S)\<rparr>"

text \<open>A validation during which nothing else runs.\<close>

definition validate_key ::
  "'s key_repository \<Rightarrow> (string \<Rightarrow> string) \<Rightarrow> int \<Rightarrow> string \<Rightarrow> 's key_service \<Rightarrow> 's key_service \<times> api_key option" where
  "validate_key P sha256_hex now key S =
     (case validate_start sha256_hex now key S of
        Inl result \<Rightarrow> (S, result)
      | Inr hashed \<Rightarrow>
          (case validate_resume now hashed (Option.bind (repository S) (\<lambda>db. get_by_key_hash P db hashed)) S of
             (S, Some k) \<Rightarrow> (validate_touch P k S, Some k)
           | (S, None) \<Rightarrow> (S, None)))"

text \<open>The loop over the cache deletes the first entry of the key and stops.\<close>

fun drop_first_key :: "string \<Rightarrow> (string, api_key) dict \<Rightarrow> (string, api_key) dict" where
  "drop_first_key kid [] = []"
| "drop_first_key kid ((h, k) # c) = (if key_id k = kid then c else (h, k) # drop_first_key kid c)"

definition revoke_finish :: "string \<Rightarrow> 's key_service \<Rightarrow> 's key_service" where
  "revoke_finish kid S = S\<lparr>cache := drop_first_key kid (cache S)\<rparr>"

text \<open>A revocation during which nothing else runs.\<close>

definition revoke_key :: "'s key_repository \<Rightarrow> string \<Rightarrow> 's key_service \<Rightarrow> 's key_service \<times> bool" where
  "revoke_key P kid S =
     (case repository S of
        None \<Rightarrow> (S, False)
      | Some db \<Rightarrow>
          (case repo_revoke P db kid of
             (db, Inr u) \<Rightarrow> (revoke_finish kid (S\<lparr>repository := Some db\<rparr>), True)
           | (db, Inl e) \<Rightarrow> (S\<lparr>repository := Some db\<rparr>, False)))"

section \<open>Interleaved operations\<close>

text \<open>
  The operations in flight: a validation that waits for the repository, one whose answer has arrived, one that waits for
  the update of the last use; a revocation that waits, and one that has been carried out but not resumed.
\<close>

datatype key_task =
    Asking string
  | Answered string "api_key option"
  | Touching api_key
  | Revoking string
  | Revoked string

record 's key_system =
  service :: "'s key_service"
  tasks :: "key_task list"

text \<open>
  What an observer sees: a validation decides to accept a key at a time for a presented hash, and a revocation returns
  \<open>True\<close>.
\<close>

datatype key_label = Quiet | Accept int string api_key | Returned string

inductive key_step :: "'s key_repository \<Rightarrow> (string \<Rightarrow> string) \<Rightarrow> key_label \<Rightarrow> 's key_system \<Rightarrow> 's key_system \<Rightarrow> bool" for P sha where
  hit: "validate_start sha now key (service y) = Inl (Some k) \<Longrightarrow> key_step P sha (Accept now (hash_key sha key) k) y y"
| miss: "validate_start sha now key (service y) = Inl None \<Longrightarrow> key_step P sha Quiet y y"
| ask: "validate_start sha now key (service y) = Inr h \<Longrightarrow> key_step P sha Quiet y (y\<lparr>tasks := Asking h # tasks y\<rparr>)"
| answer: "tasks y = as @ Asking h # bs \<Longrightarrow> repository (service y) = Some db \<Longrightarrow>
    key_step P sha Quiet y (y\<lparr>tasks := as @ Answered h (get_by_key_hash P db h) # bs\<rparr>)"
| ask_fails: "tasks y = as @ Asking h # bs \<Longrightarrow> key_step P sha Quiet y (y\<lparr>tasks := as @ bs\<rparr>)"
| accept: "tasks y = as @ Answered h found # bs \<Longrightarrow> validate_resume now h found (service y) = (S', Some k) \<Longrightarrow>
    key_step P sha (Accept now h k) y \<lparr>service = S', tasks = as @ Touching k # bs\<rparr>"
| refuse: "tasks y = as @ Answered h found # bs \<Longrightarrow> validate_resume now h found (service y) = (S', None) \<Longrightarrow>
    key_step P sha Quiet y \<lparr>service = S', tasks = as @ bs\<rparr>"
| touch: "tasks y = as @ Touching k # bs \<Longrightarrow>
    key_step P sha Quiet y \<lparr>service = validate_touch P k (service y), tasks = as @ bs\<rparr>"
| revoke: "repository (service y) \<noteq> None \<Longrightarrow> key_step P sha Quiet y (y\<lparr>tasks := Revoking kid # tasks y\<rparr>)"
| revoked: "tasks y = as @ Revoking kid # bs \<Longrightarrow> repository (service y) = Some db \<Longrightarrow> repo_revoke P db kid = (db', Inr u) \<Longrightarrow>
    key_step P sha Quiet y \<lparr>service = (service y)\<lparr>repository := Some db'\<rparr>, tasks = as @ Revoked kid # bs\<rparr>"
| revoke_fails: "tasks y = as @ Revoking kid # bs \<Longrightarrow> repository (service y) = Some db \<Longrightarrow> repo_revoke P db kid = (db', Inl e) \<Longrightarrow>
    key_step P sha Quiet y \<lparr>service = (service y)\<lparr>repository := Some db'\<rparr>, tasks = as @ bs\<rparr>"
| revoke_returns: "tasks y = as @ Revoked kid # bs \<Longrightarrow>
    key_step P sha (Returned kid) y \<lparr>service = revoke_finish kid (service y), tasks = as @ bs\<rparr>"

inductive key_run :: "'s key_repository \<Rightarrow> (string \<Rightarrow> string) \<Rightarrow> key_label list \<Rightarrow> 's key_system \<Rightarrow> 's key_system \<Rightarrow> bool" for P sha where
  stop: "key_run P sha [] y y"
| more: "key_run P sha ls y y' \<Longrightarrow> key_step P sha l y' y'' \<Longrightarrow> key_run P sha (ls @ [l]) y y''"

definition key_start :: "'s option \<Rightarrow> 's key_system" where
  "key_start repo = \<lparr>service = new_key_service repo, tasks = []\<rparr>"

section \<open>What the repository promises\<close>

text \<open>
  A key is found under its own hash, two keys have two identifiers, a revoked key is returned as
  inactive or not at all, and neither update touches anything else that validation reads.
\<close>

definition same_key :: "api_key \<Rightarrow> api_key \<Rightarrow> bool" where
  "same_key a b \<longleftrightarrow> key_id a = key_id b \<and> hashed_key a = hashed_key b"

definition repository_ok :: "'s key_repository \<Rightarrow> bool" where
  "repository_ok P \<longleftrightarrow>
     (\<forall>db h k. get_by_key_hash P db h = Some k \<longrightarrow> hashed_key k = h) \<and>
     (\<forall>db db' h h' k k'. get_by_key_hash P db h = Some k \<and> get_by_key_hash P db' h' = Some k' \<and> key_id k = key_id k' \<longrightarrow> h = h') \<and>
     (\<forall>db kid h k. snd (repo_revoke P db kid) = Inr () \<and>
        get_by_key_hash P (fst (repo_revoke P db kid)) h = Some k \<and> key_id k = kid \<longrightarrow> \<not> key_active k) \<and>
     (\<forall>db kid h k. get_by_key_hash P (fst (repo_revoke P db kid)) h = Some k \<longrightarrow>
        (\<exists>k'. get_by_key_hash P db h = Some k' \<and> same_key k k' \<and> (key_active k \<longrightarrow> key_active k'))) \<and>
     (\<forall>db kid h. map_option (\<lambda>k. (key_id k, hashed_key k, key_active k, expires_at k)) (get_by_key_hash P (fst (update_last_used P db kid)) h) =
        map_option (\<lambda>k. (key_id k, hashed_key k, key_active k, expires_at k)) (get_by_key_hash P db h))"

text \<open>Cached keys came from the repository under their hash.\<close>

definition cache_ok :: "'s key_repository \<Rightarrow> (string, api_key) dict \<Rightarrow> bool" where
  "cache_ok P c \<longleftrightarrow> dict_wf c \<and> (\<forall>h k. dget c h = Some k \<longrightarrow> (\<exists>db. get_by_key_hash P db h = Some k))"

section \<open>Lemmas\<close>

lemma repository_okD:
  assumes "repository_ok P"
  shows "get_by_key_hash P db h = Some k \<Longrightarrow> hashed_key k = h"
    and "get_by_key_hash P db h = Some k \<Longrightarrow> get_by_key_hash P db' h' = Some k' \<Longrightarrow> key_id k = key_id k' \<Longrightarrow> h = h'"
    and "snd (repo_revoke P db kid) = Inr () \<Longrightarrow> get_by_key_hash P (fst (repo_revoke P db kid)) h = Some k \<Longrightarrow> key_id k = kid \<Longrightarrow>
      \<not> key_active k"
    and "get_by_key_hash P (fst (repo_revoke P db kid)) h = Some k \<Longrightarrow>
      \<exists>k'. get_by_key_hash P db h = Some k' \<and> same_key k k' \<and> (key_active k \<longrightarrow> key_active k')"
  using assms unfolding repository_ok_def by (simp_all, blast+)

lemma update_last_used_keeps:
  assumes "repository_ok P" "get_by_key_hash P (fst (update_last_used P db kid)) h = Some k"
  shows "\<exists>k'. get_by_key_hash P db h = Some k' \<and> key_id k = key_id k' \<and> key_active k = key_active k'"
proof -
  have "map_option (\<lambda>k. (key_id k, hashed_key k, key_active k, expires_at k)) (get_by_key_hash P (fst (update_last_used P db kid)) h) =
      map_option (\<lambda>k. (key_id k, hashed_key k, key_active k, expires_at k)) (get_by_key_hash P db h)"
    using assms(1) unfolding repository_ok_def by blast
  with assms(2) show ?thesis by (cases "get_by_key_hash P db h") auto
qed

lemma drop_first_key_dget:
  assumes "dict_wf c" "dget (drop_first_key kid c) h = Some k"
  shows "dget c h = Some k"
  using assms
proof (induction kid c rule: drop_first_key.induct)
  case (2 kid h' k' c)
  then have "h' \<notin> fst ` set c" by simp
  then have "dget c h' = None" by (simp add: map_of_eq_None_iff)
  with 2 show ?case by (auto split: if_splits)
qed simp

lemma dict_wf_drop_first_key: "dict_wf c \<Longrightarrow> dict_wf (drop_first_key kid c)"
proof (induction kid c rule: drop_first_key.induct)
  case (2 kid h k c)
  have "fst ` set (drop_first_key kid c) \<subseteq> fst ` set c" for c :: "(string, api_key) dict"
    by (induction kid c rule: drop_first_key.induct) auto
  with 2 show ?case by auto
qed simp

text \<open>When the identifier determines the hash, the first entry is the only one.\<close>

lemma drop_first_key_gone:
  assumes "dict_wf c" "\<And>h h' k k'. dget c h = Some k \<Longrightarrow> dget c h' = Some k' \<Longrightarrow> key_id k = key_id k' \<Longrightarrow> h = h'"
    and "dget (drop_first_key kid c) h = Some k"
  shows "key_id k \<noteq> kid"
  using assms
proof (induction kid c rule: drop_first_key.induct)
  case (2 kid h' k' c)
  have notin: "h' \<notin> fst ` set c" using "2.prems"(1) by simp
  have key: "g \<noteq> h'" if "dget c g = Some x" for g x
  proof
    assume "g = h'"
    then have "h' \<in> fst ` set c" using map_of_SomeD [OF that] by force
    with notin show False ..
  qed
  have c: "dget ((h', k') # c) g = Some x" if "dget c g = Some x" for g x
    using key [OF that] that by simp
  show ?case
  proof (cases "key_id k' = kid")
    case True
    then have k: "dget c h = Some k" using "2.prems"(3) by simp
    then have "h \<noteq> h'" by (rule key)
    moreover have "dget ((h', k') # c) h' = Some k'" by simp
    ultimately have "key_id k \<noteq> key_id k'" using "2.prems"(2) [OF c [OF k]] by blast
    then show ?thesis unfolding True .
  next
    case False
    show ?thesis
    proof (cases "h = h'")
      case True
      then show ?thesis using "2.prems"(3) False by simp
    next
      case h: False
      then have "dget (drop_first_key kid c) h = Some k" using "2.prems"(3) False by simp
      moreover have "dict_wf c" using "2.prems"(1) by simp
      ultimately show ?thesis using "2.IH" [OF False] "2.prems"(2) c by blast
    qed
  qed
qed simp

lemma cache_ok_dset:
  "cache_ok P c \<Longrightarrow> get_by_key_hash P db h = Some k \<Longrightarrow> cache_ok P (dset c h k)"
  unfolding cache_ok_def by (auto split: if_splits)

lemma cache_ok_drop: "cache_ok P c \<Longrightarrow> cache_ok P (drop_first_key kid c)"
  unfolding cache_ok_def using dict_wf_drop_first_key drop_first_key_dget by blast

section \<open>Invariants of the interleaved service\<close>

definition repo_gone :: "'s key_repository \<Rightarrow> string \<Rightarrow> 's key_service \<Rightarrow> bool" where
  "repo_gone P kid S \<longleftrightarrow>
     (\<forall>db h k. repository S = Some db \<and> get_by_key_hash P db h = Some k \<and> key_id k = kid \<longrightarrow> \<not> key_active k)"

text \<open>
  Cached keys and answers came from the repository, and a revocation that has been carried out holds there.
\<close>

definition system_ok :: "'s key_repository \<Rightarrow> 's key_system \<Rightarrow> bool" where
  "system_ok P y \<longleftrightarrow> cache_ok P (cache (service y)) \<and>
     (\<forall>h k. Answered h (Some k) \<in> set (tasks y) \<longrightarrow> (\<exists>db. get_by_key_hash P db h = Some k)) \<and>
     (\<forall>kid. Revoked kid \<in> set (tasks y) \<longrightarrow> repo_gone P kid (service y))"

text \<open>An answer that was given before a revocation and has not been used yet.\<close>

definition stale_answer :: "string \<Rightarrow> key_task list \<Rightarrow> bool" where
  "stale_answer kid ts \<longleftrightarrow> (\<exists>h k. Answered h (Some k) \<in> set ts \<and> key_id k = kid \<and> key_active k)"

text \<open>No validation can accept the key any more.\<close>

definition key_gone :: "'s key_repository \<Rightarrow> string \<Rightarrow> 's key_system \<Rightarrow> bool" where
  "key_gone P kid y \<longleftrightarrow> (\<forall>h k. dget (cache (service y)) h = Some k \<longrightarrow> key_id k \<noteq> kid) \<and>
     repo_gone P kid (service y) \<and> \<not> stale_answer kid (tasks y)"

lemma repo_gone_revoke:
  assumes "repository_ok P" "repository S = Some db" "repo_revoke P db kid = (db', r)"
  shows "repo_gone P kid' S \<Longrightarrow> repo_gone P kid' (S\<lparr>repository := Some db'\<rparr>)"
    and "r = Inr u \<Longrightarrow> repo_gone P kid (S\<lparr>repository := Some db'\<rparr>)"
proof -
  have db': "db' = fst (repo_revoke P db kid)" using assms(3) by simp
  show "repo_gone P kid' (S\<lparr>repository := Some db'\<rparr>)" if "repo_gone P kid' S"
    using repository_okD(4) [OF assms(1), of db kid] that assms(2) unfolding db' repo_gone_def same_key_def by fastforce
  show "repo_gone P kid (S\<lparr>repository := Some db'\<rparr>)" if "r = Inr u"
    using repository_okD(3) [OF assms(1), of db kid] that assms(3) unfolding repo_gone_def by auto
qed

lemma repo_gone_touch: "repository_ok P \<Longrightarrow> repo_gone P kid S \<Longrightarrow> repo_gone P kid (validate_touch P k S)"
  using update_last_used_keeps [of P _ "key_id k"] unfolding repo_gone_def validate_touch_def by fastforce

lemma cache_touch [simp]: "cache (validate_touch P k S) = cache S"
  by (simp add: validate_touch_def)

lemma repo_gone_cache [simp]: "repo_gone P kid (S\<lparr>cache := c\<rparr>) \<longleftrightarrow> repo_gone P kid S"
  by (simp add: repo_gone_def)

lemma resume_cases:
  assumes "validate_resume now h found S = (S', r)"
  obtains "S' = S" "r = None" | k where "found = Some k" "r = Some k" "key_active k" "unexpired now k" "S' = S\<lparr>cache := dset (cache S) h k\<rparr>"
  using assms by (auto simp: validate_resume_def split: option.splits if_splits)

lemma key_step_ok: "key_step P sha l y y' \<Longrightarrow> repository_ok P \<Longrightarrow> system_ok P y \<Longrightarrow> system_ok P y'"
proof (induction rule: key_step.induct)
  case (accept y as h found bs now S' k)
  from accept(2) obtain "found = Some k" "S' = (service y)\<lparr>cache := dset (cache (service y)) h k\<rparr>" by (elim resume_cases) auto
  then show ?case using accept(1,4) cache_ok_dset by (fastforce simp: system_ok_def)
next
  case (refuse y as h found bs now S')
  from refuse(2) have "S' = service y" by (elim resume_cases) auto
  then show ?case using refuse(1,4) by (auto simp: system_ok_def)
next
  case (touch y as k bs)
  then show ?case by (auto simp: system_ok_def intro: repo_gone_touch)
next
  case (revoked y as kid bs db db' u)
  then show ?case using repo_gone_revoke by (fastforce simp: system_ok_def)
next
  case (revoke_fails y as kid bs db db' e)
  then show ?case using repo_gone_revoke(1) by (fastforce simp: system_ok_def)
next
  case (revoke_returns y as kid bs)
  then show ?case by (auto simp: system_ok_def revoke_finish_def intro: cache_ok_drop)
qed (auto simp: system_ok_def)

lemma key_run_ok: "key_run P sha ls y y' \<Longrightarrow> repository_ok P \<Longrightarrow> system_ok P y \<Longrightarrow> system_ok P y'"
  by (induction rule: key_run.induct) (auto intro: key_step_ok)

lemma key_start_ok: "system_ok P (key_start repo)"
  by (simp add: system_ok_def key_start_def new_key_service_def cache_ok_def)

lemma returned_key_gone:
  assumes P: "repository_ok P" and ok: "system_ok P y" and step: "key_step P sha (Returned kid) y y'"
    and fresh: "\<not> stale_answer kid (tasks y)"
  shows "key_gone P kid y'"
proof -
  from step obtain as bs where y: "tasks y = as @ Revoked kid # bs"
    and y': "y' = \<lparr>service = revoke_finish kid (service y), tasks = as @ bs\<rparr>" by (auto elim: key_step.cases)
  have c: "cache_ok P (cache (service y))" using ok by (simp add: system_ok_def)
  have "key_id k \<noteq> kid" if "dget (drop_first_key kid (cache (service y))) h = Some k" for h k
  proof (rule drop_first_key_gone [OF _ _ that])
    show "dict_wf (cache (service y))" using c by (simp add: cache_ok_def)
    show "h = h'" if "dget (cache (service y)) h = Some k" "dget (cache (service y)) h' = Some k'" "key_id k = key_id k'" for h h' k k'
      using c that repository_okD(2) [OF P] unfolding cache_ok_def by blast
  qed
  moreover have "repo_gone P kid (service y)" using ok y by (simp add: system_ok_def)
  moreover have "\<not> stale_answer kid (as @ bs)" using fresh y by (auto simp: stale_answer_def)
  ultimately show ?thesis by (simp add: key_gone_def y' revoke_finish_def)
qed

lemma key_step_gone: "key_step P sha l y y' \<Longrightarrow> repository_ok P \<Longrightarrow> cache_ok P (cache (service y)) \<Longrightarrow> key_gone P kid y \<Longrightarrow> key_gone P kid y'"
proof (induction rule: key_step.induct)
  case (answer y as h bs db)
  then show ?case by (auto simp: key_gone_def stale_answer_def repo_gone_def)
next
  case (accept y as h found bs now S' k)
  from accept(2) obtain "found = Some k" "key_active k" "S' = (service y)\<lparr>cache := dset (cache (service y)) h k\<rparr>"
    by (elim resume_cases) auto
  then show ?case using accept(1,5) by (auto simp: key_gone_def stale_answer_def)
next
  case (refuse y as h found bs now S')
  from refuse(2) have "S' = service y" by (elim resume_cases) auto
  then show ?case using refuse(1,5) by (auto simp: key_gone_def stale_answer_def)
next
  case (touch y as k bs)
  then show ?case by (auto simp: key_gone_def stale_answer_def intro: repo_gone_touch)
next
  case (revoked y as kid' bs db db' u)
  then show ?case using repo_gone_revoke(1) by (fastforce simp: key_gone_def stale_answer_def)
next
  case (revoke_fails y as kid' bs db db' e)
  then show ?case using repo_gone_revoke(1) by (fastforce simp: key_gone_def stale_answer_def)
next
  case (revoke_returns y as kid' bs)
  have "dget (cache (service y)) h = Some k" if "dget (drop_first_key kid' (cache (service y))) h = Some k" for h k
    using drop_first_key_dget [OF _ that] revoke_returns(3) by (simp add: cache_ok_def)
  then show ?case using revoke_returns(1,4) by (auto simp: key_gone_def stale_answer_def revoke_finish_def)
qed (auto simp: key_gone_def stale_answer_def)

text \<open>What a step accepts.\<close>

lemma accepted_key:
  assumes "key_step P sha (Accept now h k) y y'"
  shows "key_active k \<and> unexpired now k \<and> (dget (cache (service y)) h = Some k \<or> Answered h (Some k) \<in> set (tasks y))"
  using assms
proof (cases rule: key_step.cases)
  case (hit key)
  then show ?thesis by (auto simp: validate_start_def Let_def split: option.splits if_splits)
next
  case (accept as found bs S')
  from accept(3) show ?thesis by (rule resume_cases) (use accept in auto)
qed

lemma gone_not_accepted: "key_step P sha (Accept now h k) y y' \<Longrightarrow> key_gone P kid y \<Longrightarrow> key_id k \<noteq> kid"
  using accepted_key unfolding key_gone_def stale_answer_def by blast

lemma key_run_gone:
  assumes "repository_ok P" "key_run P sha ls y y'" "system_ok P y" "key_gone P kid y"
  shows "key_gone P kid y' \<and> (\<forall>now h k. Accept now h k \<in> set ls \<longrightarrow> key_id k \<noteq> kid)"
  using assms(2-)
proof (induction rule: key_run.induct)
  case (more ls y y' l y'')
  then have gone: "key_gone P kid y'" "\<forall>now h k. Accept now h k \<in> set ls \<longrightarrow> key_id k \<noteq> kid" by blast+
  have "cache_ok P (cache (service y'))" using key_run_ok [OF more.hyps(1) assms(1) more.prems(1)] by (simp add: system_ok_def)
  then have "key_gone P kid y''" by (rule key_step_gone [OF more.hyps(2) assms(1) _ gone(1)])
  moreover have "key_id k \<noteq> kid" if "l = Accept now h k" for now h k
    using gone_not_accepted [OF _ gone(1)] more.hyps(2) that by blast
  ultimately show ?case using gone(2) by (auto simp del: not_None_eq)
qed simp

section \<open>Properties\<close>

text \<open>
  However operations interleave, a key is accepted only while it is active and unexpired as far as the service knows,
  and it is the one whose hash was presented.
\<close>

theorem accepted_key_is_live:
  assumes "repository_ok P" and "key_run P sha ls (key_start repo) y" and "key_step P sha (Accept now h k) y y'"
  shows "key_active k \<and> unexpired now k \<and> hashed_key k = h"
proof -
  have "system_ok P y" using key_run_ok [OF assms(2,1) key_start_ok] .
  then have "hashed_key k = h" if "dget (cache (service y)) h = Some k \<or> Answered h (Some k) \<in> set (tasks y)"
    using that repository_okD(1) [OF assms(1)] unfolding system_ok_def cache_ok_def by blast
  with accepted_key [OF assms(3)] show ?thesis by blast
qed

text \<open>
  C22: Validations and revocations interleave at their awaits. When a revocation returns and no validation holds an
  answer of the repository for this key that it has not used yet, then no validation accepts the key from then on,
  whatever else happens: it is gone from the cache, and the repository does not return it as active.
\<close>

theorem revoked_key_stays_invalid:
  assumes "repository_ok P" and "key_run P sha ls (key_start repo) y" and "key_step P sha (Returned kid) y y'"
    and "\<not> stale_answer kid (tasks y)" and "key_run P sha ls' y' y''"
  shows "\<forall>now h k. Accept now h k \<in> set ls' \<longrightarrow> key_id k \<noteq> kid"
proof -
  have ok: "system_ok P y" using key_run_ok [OF assms(2,1) key_start_ok] .
  from key_run_gone [OF assms(1,5) key_step_ok [OF assms(3,1) ok] returned_key_gone [OF assms(1) ok assms(3,4)]]
  show ?thesis by blast
qed

text \<open>A repository of one key, whose state says whether it is active.\<close>

definition demo_key :: "bool \<Rightarrow> string \<Rightarrow> string \<Rightarrow> api_key" where
  "demo_key active h i = \<lparr>key_id = i, hashed_key = h, key_tenant = ''t'', key_name = ''n'', key_permissions = [],
     key_created_at = 0, expires_at = None, last_used_at = None, key_active = active, rate_limit = 1000\<rparr>"

definition demo_repository :: "bool key_repository" where
  "demo_repository =
     \<lparr>get_by_key_hash = (\<lambda>active h. if h = ''k1'' then Some (demo_key active ''k1'' ''1'')
        else if h = ''k2'' then Some (demo_key True ''k2'' ''2'') else None),
      update_last_used = (\<lambda>active i. (active, Inr ())),
      repo_revoke = (\<lambda>active i. (active \<and> i \<noteq> ''1'', if i = ''2'' then Inl KeyError else Inr ()))\<rparr>"

lemma demo_repository_ok: "repository_ok demo_repository"
  unfolding repository_ok_def
proof (intro conjI allI impI)
  fix db kid h k
  assume "snd (repo_revoke demo_repository db kid) = Inr () \<and>
      get_by_key_hash demo_repository (fst (repo_revoke demo_repository db kid)) h = Some k \<and> key_id k = kid"
  then show "\<not> key_active k"
    by (cases "kid = ''1''") (auto simp: demo_repository_def demo_key_def split: if_splits)
qed (auto simp: demo_repository_def demo_key_def same_key_def split: if_splits)

lemma demo_ask: "validate_start (\<lambda>k. k) 1 ''k1'' (new_key_service (Some True)) = Inr ''k1''"
  by (simp add: validate_start_def hash_key_def new_key_service_def)

definition revoked_service :: "bool key_service" where
  "revoked_service = \<lparr>repository = Some False, cache = []\<rparr>"

lemma run_snoc: "key_run P sha ls y y' \<Longrightarrow> key_step P sha l y' y'' \<Longrightarrow> ms = ls @ [l] \<Longrightarrow> key_run P sha ms y y''"
  using key_run.more by blast

text \<open>A revocation on its own.\<close>

lemma demo_revoking:
  "key_run demo_repository (\<lambda>k. k) [Quiet, Quiet] (key_start (Some True)) \<lparr>service = revoked_service, tasks = [Revoked ''1'']\<rparr>"
proof (rule run_snoc)
  show "key_run demo_repository (\<lambda>k. k) [Quiet] (key_start (Some True)) \<lparr>service = new_key_service (Some True), tasks = [Revoking ''1'']\<rparr>"
    using key_run.more [OF key_run.stop key_step.revoke [of "key_start (Some True)" demo_repository "\<lambda>k. k" "''1''"]]
    by (simp add: key_start_def new_key_service_def)
  show "key_step demo_repository (\<lambda>k. k) Quiet \<lparr>service = new_key_service (Some True), tasks = [Revoking ''1'']\<rparr>
      \<lparr>service = revoked_service, tasks = [Revoked ''1'']\<rparr>"
    using key_step.revoked [of "\<lparr>service = new_key_service (Some True), tasks = [Revoking ''1'']\<rparr>" "[]" "''1''" "[]" True demo_repository False "()" "\<lambda>k. k"]
    by (simp add: new_key_service_def revoked_service_def demo_repository_def)
qed simp

theorem revoked_key_stays_invalid_witness:
  "\<not> (\<exists>y. key_run demo_repository (\<lambda>k. k) [Accept 9 ''k1'' (demo_key True ''k1'' ''1'')] \<lparr>service = revoked_service, tasks = []\<rparr> y)"
proof (rule notI, elim exE)
  fix y
  assume run: "key_run demo_repository (\<lambda>k. k) [Accept 9 ''k1'' (demo_key True ''k1'' ''1'')] \<lparr>service = revoked_service, tasks = []\<rparr> y"
  have step: "key_step demo_repository (\<lambda>k. k) (Returned ''1'') \<lparr>service = revoked_service, tasks = [Revoked ''1'']\<rparr>
      \<lparr>service = revoked_service, tasks = []\<rparr>"
    using key_step.revoke_returns [of "\<lparr>service = revoked_service, tasks = [Revoked ''1'']\<rparr>" "[]" "''1''" "[]"]
    by (simp add: revoke_finish_def revoked_service_def)
  have "\<not> stale_answer ''1'' (tasks \<lparr>service = revoked_service, tasks = [Revoked ''1'']\<rparr>)" by (simp add: stale_answer_def)
  from revoked_key_stays_invalid [OF demo_repository_ok demo_revoking step this run] show False by (simp add: demo_key_def)
qed

text \<open>
  The condition is needed: a validation whose answer arrived before the revocation puts the key back into the cache after
  the revocation has returned, and from then on the service accepts the revoked key again and again.
\<close>

definition raced_service :: "bool key_service" where
  "raced_service = \<lparr>repository = Some False, cache = [(''k1'', demo_key True ''k1'' ''1'')]\<rparr>"

lemma raced_before:
  "key_run demo_repository (\<lambda>k. k) [Quiet, Quiet, Quiet, Quiet] (key_start (Some True))
     \<lparr>service = revoked_service, tasks = [Revoked ''1'', Answered ''k1'' (Some (demo_key True ''k1'' ''1''))]\<rparr>"
proof (rule run_snoc)
  let ?a = "Answered ''k1'' (Some (demo_key True ''k1'' ''1''))"
  let ?S = "new_key_service (Some True)"
  have "key_run demo_repository (\<lambda>k. k) [Quiet] (key_start (Some True)) \<lparr>service = ?S, tasks = [Asking ''k1'']\<rparr>"
    using key_run.more [OF key_run.stop key_step.ask [of "\<lambda>k. k" 1 "''k1''" "key_start (Some True)" "''k1''"]] demo_ask
    by (simp add: key_start_def)
  moreover have "key_step demo_repository (\<lambda>k. k) Quiet \<lparr>service = ?S, tasks = [Asking ''k1'']\<rparr> \<lparr>service = ?S, tasks = [?a]\<rparr>"
    using key_step.answer [of "\<lparr>service = ?S, tasks = [Asking ''k1'']\<rparr>" "[]" "''k1''" "[]" True demo_repository "\<lambda>k. k"]
    by (simp add: new_key_service_def demo_repository_def)
  ultimately have "key_run demo_repository (\<lambda>k. k) [Quiet, Quiet] (key_start (Some True)) \<lparr>service = ?S, tasks = [?a]\<rparr>"
    by (rule run_snoc) simp
  moreover have "key_step demo_repository (\<lambda>k. k) Quiet \<lparr>service = ?S, tasks = [?a]\<rparr> \<lparr>service = ?S, tasks = [Revoking ''1'', ?a]\<rparr>"
    using key_step.revoke [of "\<lparr>service = ?S, tasks = [?a]\<rparr>" demo_repository "\<lambda>k. k" "''1''"] by (simp add: new_key_service_def)
  ultimately show "key_run demo_repository (\<lambda>k. k) [Quiet, Quiet, Quiet] (key_start (Some True)) \<lparr>service = ?S, tasks = [Revoking ''1'', ?a]\<rparr>"
    by (rule run_snoc) simp
  show "key_step demo_repository (\<lambda>k. k) Quiet \<lparr>service = ?S, tasks = [Revoking ''1'', ?a]\<rparr>
      \<lparr>service = revoked_service, tasks = [Revoked ''1'', ?a]\<rparr>"
    using key_step.revoked [of "\<lparr>service = ?S, tasks = [Revoking ''1'', ?a]\<rparr>" "[]" "''1''" "[?a]" True demo_repository False "()" "\<lambda>k. k"]
    by (simp add: new_key_service_def revoked_service_def demo_repository_def)
qed simp

theorem revocation_race:
  "\<exists>k y. key_run demo_repository (\<lambda>k. k)
     [Quiet, Quiet, Quiet, Quiet, Returned ''1'', Accept 5 ''k1'' k, Accept 100 ''k1'' k] (key_start (Some True)) y \<and>
   key_id k = ''1'' \<and> repository_ok demo_repository"
proof -
  let ?k = "demo_key True ''k1'' ''1''"
  let ?y = "\<lparr>service = revoked_service, tasks = [Answered ''k1'' (Some ?k)]\<rparr>"
  have "key_step demo_repository (\<lambda>k. k) (Returned ''1'') \<lparr>service = revoked_service, tasks = [Revoked ''1'', Answered ''k1'' (Some ?k)]\<rparr> ?y"
    using key_step.revoke_returns [of "\<lparr>service = revoked_service, tasks = [Revoked ''1'', Answered ''k1'' (Some ?k)]\<rparr>" "[]"]
    by (simp add: revoke_finish_def revoked_service_def)
  from run_snoc [OF raced_before this refl]
  have run: "key_run demo_repository (\<lambda>k. k) [Quiet, Quiet, Quiet, Quiet, Returned ''1''] (key_start (Some True)) ?y" by simp
  have "validate_resume 5 ''k1'' (Some ?k) revoked_service = (raced_service, Some ?k)"
    by (simp add: validate_resume_def revoked_service_def raced_service_def demo_key_def unexpired_def)
  then have "key_step demo_repository (\<lambda>k. k) (Accept 5 ''k1'' ?k) ?y \<lparr>service = raced_service, tasks = [Touching ?k]\<rparr>"
    using key_step.accept [of ?y "[]" "''k1''" "Some ?k" "[]" 5] by simp
  from run_snoc [OF run this refl]
  have run: "key_run demo_repository (\<lambda>k. k) [Quiet, Quiet, Quiet, Quiet, Returned ''1'', Accept 5 ''k1'' ?k] (key_start (Some True))
      \<lparr>service = raced_service, tasks = [Touching ?k]\<rparr>" by simp
  have "validate_start (\<lambda>k. k) 100 ''k1'' raced_service = Inl (Some ?k)"
    by (simp add: validate_start_def raced_service_def hash_key_def demo_key_def unexpired_def)
  then have "key_step demo_repository (\<lambda>k. k) (Accept 100 (hash_key (\<lambda>k. k) ''k1'') ?k) \<lparr>service = raced_service, tasks = [Touching ?k]\<rparr>
      \<lparr>service = raced_service, tasks = [Touching ?k]\<rparr>"
    by (intro key_step.hit) simp
  from run_snoc [OF run this refl] show ?thesis
    using demo_repository_ok by (intro exI [of _ ?k] exI) (simp_all add: hash_key_def demo_key_def)
qed

text \<open>
  A revocation elsewhere does not reach a cached key: as long as the cached entry is active and unexpired,
  validation returns it without asking the repository, whatever the repository says by then.
\<close>

theorem cached_key_ignores_repository:
  assumes "dget (cache S) (hash_key sha key) = Some k" and "key_active k" and "unexpired now k"
  shows "validate_key P sha now key (S\<lparr>repository := db\<rparr>) = (S\<lparr>repository := db\<rparr>, Some k)"
  using assms by (simp add: validate_key_def validate_start_def Let_def)

text \<open>The key is revoked in the repository and still accepted.\<close>

theorem cached_key_ignores_repository_witness:
  "snd (validate_key demo_repository (\<lambda>k. k) 9 ''k1''
     (\<lparr>repository = Some True, cache = [(''k1'', demo_key True ''k1'' ''1'')]\<rparr>\<lparr>repository := Some False\<rparr>)) =
   Some (demo_key True ''k1'' ''1'')"
proof -
  have "dget (cache \<lparr>repository = Some True, cache = [(''k1'', demo_key True ''k1'' ''1'')]\<rparr>) (hash_key (\<lambda>k. k) ''k1'') =
      Some (demo_key True ''k1'' ''1'')"
    by (simp add: hash_key_def)
  from cached_key_ignores_repository [OF this, of 9 demo_repository "Some False"] show ?thesis
    by (simp add: demo_key_def unexpired_def)
qed

end
