(* ===== verification/Errors.thy ===== *)
theory Errors
  imports Prelude
begin

text \<open>
  The application exceptions and their handlers (\<open>app/core/config/exceptions.py\<close>). An exception class is
  the function from its constructor arguments to \<open>ServiceException code status detail\<close>; the \<open>extra\<close>
  dictionary, which no code fills, is empty. The handlers turn every exception into a response.
\<close>

section \<open>Exception classes\<close>

definition new_exception :: "string \<Rightarrow> int \<Rightarrow> string \<Rightarrow> string option \<Rightarrow> exn" where
  "new_exception code status default_detail detail =
     ServiceException code status (case detail of Some d \<Rightarrow> if d \<noteq> [] then d else default_detail | None \<Rightarrow> default_detail)"

definition named_detail :: "string \<Rightarrow> string option \<Rightarrow> string \<Rightarrow> string" where
  "named_detail resource identifier what =
     (case identifier of
        Some i \<Rightarrow> if i \<noteq> [] then resource @ '' '' @ [CHR 0x27] @ i @ [CHR 0x27] @ '' '' @ what else resource @ '' '' @ what
      | None \<Rightarrow> resource @ '' '' @ what)"

definition unexpected :: string where
  "unexpected = ''An unexpected error occurred.''"

definition AuthenticationError :: "string option \<Rightarrow> exn" where
  "AuthenticationError = new_exception ''AUTHENTICATION_ERROR'' 401 ''Could not validate credentials.''"

definition InvalidCredentialsError :: "string option \<Rightarrow> exn" where
  "InvalidCredentialsError = new_exception ''INVALID_CREDENTIALS'' 401 ''Incorrect email or password.''"

definition TokenExpired :: "string option \<Rightarrow> exn" where
  "TokenExpired = new_exception ''TOKEN_EXPIRED'' 401 ''Token has expired.''"

definition InvalidToken :: "string option \<Rightarrow> exn" where
  "InvalidToken = new_exception ''INVALID_TOKEN'' 401 ''Token is invalid or malformed.''"

definition InsufficientPermissionsError :: "string option \<Rightarrow> exn" where
  "InsufficientPermissionsError = new_exception ''FORBIDDEN'' 403 ''You do not have permission.''"

definition NotFoundError :: "string \<Rightarrow> string option \<Rightarrow> exn" where
  "NotFoundError resource identifier =
     new_exception ''NOT_FOUND'' 404 unexpected (Some (named_detail resource identifier ''not found.''))"

definition ConflictError :: "string option \<Rightarrow> exn" where
  "ConflictError = new_exception ''CONFLICT'' 409 ''Conflict occurred.''"

definition AlreadyExistsError :: "string \<Rightarrow> string option \<Rightarrow> exn" where
  "AlreadyExistsError resource identifier =
     new_exception ''ALREADY_EXISTS'' 409 ''Conflict occurred.'' (Some (named_detail resource identifier ''already exists.''))"

definition DomainValidationError :: "string option \<Rightarrow> exn" where
  "DomainValidationError = new_exception ''VALIDATION_ERROR'' 422 ''Validation failed.''"

definition RateLimitExceededError :: "string option \<Rightarrow> exn" where
  "RateLimitExceededError = new_exception ''RATE_LIMIT_EXCEEDED'' 429 ''Rate limit exceeded. Try again later.''"

definition AgentExecutionError :: "string option \<Rightarrow> exn" where
  "AgentExecutionError = new_exception ''AGENT_EXECUTION_ERROR'' 500 unexpected"

definition provider_message :: "string \<Rightarrow> string \<Rightarrow> string \<Rightarrow> string" where
  "provider_message who absent detail = (if detail = [] then who @ absent else who @ '': '' @ detail)"

definition LLMProviderError :: "string \<Rightarrow> string \<Rightarrow> exn" where
  "LLMProviderError provider detail =
     new_exception ''LLM_PROVIDER_ERROR'' 502 unexpected (Some (provider_message provider '' provider error.'' detail))"

definition ExternalServiceError :: "string \<Rightarrow> string \<Rightarrow> exn" where
  "ExternalServiceError service detail =
     new_exception ''EXTERNAL_SERVICE_ERROR'' 502 unexpected (Some (provider_message service '' is unavailable.'' detail))"

definition EmbeddingServiceError :: "string \<Rightarrow> string \<Rightarrow> exn" where
  "EmbeddingServiceError provider detail =
     new_exception ''EMBEDDING_SERVICE_ERROR'' 502 unexpected (Some (provider_message provider '' is unavailable.'' detail))"

section \<open>Handlers\<close>

record json_response =
  resp_status :: int
  resp_body :: pydict

definition error_response :: "string \<Rightarrow> int \<Rightarrow> string \<Rightarrow> pyval \<Rightarrow> pydict \<Rightarrow> json_response" where
  "error_response path status code detail extra =
     \<lparr>resp_status = status,
      resp_body = [(''error'', PDict ([(''code'', PStr code), (''detail'', detail), (''path'', PStr path)] @
        (if extra \<noteq> [] then [(''extra'', PDict extra)] else [])))]\<rparr>"

text \<open>The handler the framework chooses: the most specific registered class of the exception.\<close>

definition handle_exception :: "string \<Rightarrow> exn \<Rightarrow> json_response" where
  "handle_exception path e =
     (case e of
        ServiceException code status detail \<Rightarrow> error_response path status code (PStr detail) []
      | HTTPException status detail \<Rightarrow> error_response path status ''HTTP_ERROR'' (PStr detail) []
      | _ \<Rightarrow> error_response path 500 ''INTERNAL_SERVER_ERROR'' (PStr ''Internal server error.'') [])"

definition validation_exception_handler :: "string \<Rightarrow> pyval \<Rightarrow> json_response" where
  "validation_exception_handler path errors = error_response path 422 ''REQUEST_VALIDATION_ERROR'' errors []"

section \<open>Properties\<close>

text \<open>
  The body of an error response has one shape whatever was raised, and the text of an exception
  that the application did not raise on purpose is not sent to the client: two such exceptions
  give the same response, with status 500.
\<close>

theorem error_responses:
  "(\<exists>code detail. resp_body (handle_exception path e) =
      [(''error'', PDict [(''code'', PStr code), (''detail'', PStr detail), (''path'', PStr path)])]) \<and>
   ((\<forall>c s d. e \<noteq> ServiceException c s d) \<and> (\<forall>s d. e \<noteq> HTTPException s d) \<longrightarrow>
     handle_exception path e = handle_exception path KeyError \<and> resp_status (handle_exception path e) = 500)"
  by (cases e) (simp_all add: handle_exception_def error_response_def)

theorem error_responses_witness:
  "handle_exception ''/x'' (ValueError ''secret'') = handle_exception ''/x'' KeyError"
  using error_responses [of "''/x''" "ValueError ''secret''"] by simp

lemma external_service_status:
  "handle_exception path (ExternalServiceError service detail) =
     error_response path 502 ''EXTERNAL_SERVICE_ERROR''
       (PStr (if service = [] \<and> detail = [] then '' is unavailable.'' else provider_message service '' is unavailable.'' detail)) []"
  by (simp add: handle_exception_def ExternalServiceError_def new_exception_def provider_message_def)

end
