(* ===== verification/Metric_Catalog.thy ===== *)
theory Metric_Catalog
  imports Prelude
begin

text \<open>
  The catalogue of metrics (\<open>app/core/config/metric_catalog.py\<close>): one record per metric, grouped as in the
  source, and what the evaluation code reads of it, the names and their categories.
\<close>

record metric_definition =
  m_name :: string
  m_category :: string
  m_description :: string
  m_when_to_use :: string
  m_tradeoff :: string
  m_how_to_improve :: string
  m_common_failure_mode :: string
  m_guardrail_or_pair_metric :: string
  m_decision_stage :: string
  m_target_guideline :: string

definition classification_metrics :: "metric_definition list" where
  "classification_metrics =
     [\<lparr>m_name = ''accuracy'',
       m_category = ''classification'',
       m_description = ''Overall proportion of correct predictions.'',
       m_when_to_use = ''Balanced classes and high-level quality checks.'',
       m_tradeoff = ''Can hide minority-class failures.'',
       m_how_to_improve = ''Improve label quality, rebalance data, and reduce ambiguous class definitions.'',
       m_common_failure_mode = ''High score on dominant class while minority classes degrade silently.'',
       m_guardrail_or_pair_metric = ''Pair with per-class recall and confusion matrix.'',
       m_decision_stage = ''Early baseline and regression smoke checks.'',
       m_target_guideline = ''Use as KPI only if class imbalance ratio is near 1:1.''\<rparr>,
      \<lparr>m_name = ''precision'',
       m_category = ''classification'',
       m_description = ''How many predicted positives are actually positive.'',
       m_when_to_use = ''False positives are costly.'',
       m_tradeoff = ''May reduce recall if optimized alone.'',
       m_how_to_improve = ''Tighten decision thresholds, improve negative examples, and add hard negatives.'',
       m_common_failure_mode = ''Model becomes too conservative and misses true positives.'',
       m_guardrail_or_pair_metric = ''Pair with recall and business false-negative cost.'',
       m_decision_stage = ''Policy tuning before production cutover.'',
       m_target_guideline = ''Set threshold from expected false-alert budget.''\<rparr>,
      \<lparr>m_name = ''recall'',
       m_category = ''classification'',
       m_description = ''How many actual positives are correctly detected.'',
       m_when_to_use = ''Missing positives is costly.'',
       m_tradeoff = ''May increase false positives if optimized alone.'',
       m_how_to_improve = ''Add diverse positive examples and reduce threshold conservatism.'',
       m_common_failure_mode = ''Recall increases while precision collapses and operations overload.'',
       m_guardrail_or_pair_metric = ''Pair with precision and reviewer throughput capacity.'',
       m_decision_stage = ''Risk-sensitive production policy selection.'',
       m_target_guideline = ''Tune to maximize true-positive capture within false-positive SLO.''\<rparr>,
      \<lparr>m_name = ''f1'',
       m_category = ''classification'',
       m_description = ''Harmonic balance between precision and recall.'',
       m_when_to_use = ''Need balance between FP and FN risk.'',
       m_tradeoff = ''Less interpretable for business stakeholders.'',
       m_how_to_improve = ''Jointly tune thresholds and improve both positive and negative hard samples.'',
       m_common_failure_mode = ''Single blended score hides asymmetric error business impact.'',
       m_guardrail_or_pair_metric = ''Pair with class-wise precision/recall and cost-weighted metrics.'',
       m_decision_stage = ''Model selection in offline evaluation.'',
       m_target_guideline = ''Use for ranking candidates; finalize with cost-aware thresholding.''\<rparr>]"

definition retrieval_metrics :: "metric_definition list" where
  "retrieval_metrics =
     [\<lparr>m_name = ''context_precision'',
       m_category = ''retrieval'',
       m_description = ''How much retrieved context is relevant.'',
       m_when_to_use = ''Evaluate retrieval ranking quality.'',
       m_tradeoff = ''May not capture generation correctness.'',
       m_how_to_improve = ''Improve chunking strategy, query rewriting, and reranker quality.'',
       m_common_failure_mode = ''High lexical relevance but missing facts needed for answer.'',
       m_guardrail_or_pair_metric = ''Pair with context_recall and faithfulness.'',
       m_decision_stage = ''Retriever and reranker iteration cycle.'',
       m_target_guideline = ''Increase top-k relevance without reducing answer coverage.''\<rparr>,
      \<lparr>m_name = ''context_utilization'',
       m_category = ''retrieval'',
       m_description = ''How much of the retrieved context is actually used by the answer.'',
       m_when_to_use = ''Detect when answers ignore retrieved evidence.'',
       m_tradeoff = ''Can be high even when the used context is incomplete.'',
       m_how_to_improve = ''Improve answer grounding prompts, citation instructions, and context formatting.'',
       m_common_failure_mode = ''Model answers from prior knowledge and underuses retrieved passages.'',
       m_guardrail_or_pair_metric = ''Pair with context_recall and faithfulness.'',
       m_decision_stage = ''Prompt and grounding behavior tuning.'',
       m_target_guideline = ''Increase utilization without lowering factual completeness.''\<rparr>,
      \<lparr>m_name = ''non_llm_context_precision'',
       m_category = ''retrieval'',
       m_description = ''String/reference-based precision over retrieved contexts without an LLM judge.'',
       m_when_to_use = ''Low-cost large-scale retrieval evaluation with reference contexts.'',
       m_tradeoff = ''Insensitive to semantic similarity and paraphrases.'',
       m_how_to_improve = ''Normalize text, improve chunk boundaries, and strengthen lexical matching quality.'',
       m_common_failure_mode = ''Semantically relevant passages score low due to wording mismatch.'',
       m_guardrail_or_pair_metric = ''Pair with context_precision and manual spot checks.'',
       m_decision_stage = ''High-volume regression evaluation pipelines.'',
       m_target_guideline = ''Use as fast guardrail, not as the only relevance signal.''\<rparr>,
      \<lparr>m_name = ''id_based_context_precision'',
       m_category = ''retrieval'',
       m_description = ''Precision using retrieved context IDs against reference context IDs.'',
       m_when_to_use = ''Datasets have stable document/chunk identifiers.'',
       m_tradeoff = ''Cannot validate relevance quality if IDs are stale or mislabeled.'',
       m_how_to_improve = ''Improve retrieval ranking and ID mapping consistency across indexing pipelines.'',
       m_common_failure_mode = ''Index/version drift causes correct text with mismatched IDs.'',
       m_guardrail_or_pair_metric = ''Pair with non_llm_context_precision and context_precision.'',
       m_decision_stage = ''Retriever ranking and indexing integrity checks.'',
       m_target_guideline = ''Maintain high precision while tracking index freshness.''\<rparr>,
      \<lparr>m_name = ''context_recall'',
       m_category = ''retrieval'',
       m_description = ''How much required context was retrieved.'',
       m_when_to_use = ''Evaluate retrieval coverage.'',
       m_tradeoff = ''Can reward verbose retrieval with extra noise.'',
       m_how_to_improve = ''Increase retriever recall via better embeddings, expansion, and top-k tuning.'',
       m_common_failure_mode = ''Recall rises by adding noisy passages that hurt generation.'',
       m_guardrail_or_pair_metric = ''Pair with context_precision and noise_sensitivity.'',
       m_decision_stage = ''Retriever capacity and top-k calibration.'',
       m_target_guideline = ''Improve coverage while keeping prompt token budget stable.''\<rparr>,
      \<lparr>m_name = ''non_llm_context_recall'',
       m_category = ''retrieval'',
       m_description = ''Reference-based recall over required contexts without an LLM judge.'',
       m_when_to_use = ''Need fast, deterministic recall checks at scale.'',
       m_tradeoff = ''Misses semantically equivalent passages with different wording.'',
       m_how_to_improve = ''Improve retriever coverage, query expansion, and reference set completeness.'',
       m_common_failure_mode = ''True positives are undercounted when references are incomplete.'',
       m_guardrail_or_pair_metric = ''Pair with context_recall and id_based_context_recall.'',
       m_decision_stage = ''Retriever coverage and top-k tuning.'',
       m_target_guideline = ''Track over time to detect recall regressions early.''\<rparr>,
      \<lparr>m_name = ''id_based_context_recall'',
       m_category = ''retrieval'',
       m_description = ''Recall using retrieved context IDs against reference context IDs.'',
       m_when_to_use = ''Ground-truth relevant context IDs are available.'',
       m_tradeoff = ''Depends heavily on reference ID quality and ID stability.'',
       m_how_to_improve = ''Increase retriever breadth, improve candidate generation, and maintain ID consistency.'',
       m_common_failure_mode = ''Good retrieval appears poor when references or IDs are outdated.'',
       m_guardrail_or_pair_metric = ''Pair with context_recall and context_precision.'',
       m_decision_stage = ''Coverage validation for indexed corpora.'',
       m_target_guideline = ''Use as objective recall guardrail for indexed datasets.''\<rparr>,
      \<lparr>m_name = ''context_entity_recall'',
       m_category = ''retrieval'',
       m_description = ''Entity-level recall over retrieved contexts.'',
       m_when_to_use = ''Entity-sensitive tasks and factual QA.'',
       m_tradeoff = ''Depends on reliable entity extraction.'',
       m_how_to_improve = ''Improve NER quality, entity normalization, and domain-specific synonyms.'',
       m_common_failure_mode = ''Entity aliases and abbreviations undercount true retrieval quality.'',
       m_guardrail_or_pair_metric = ''Pair with context_recall and domain entity dictionary audits.'',
       m_decision_stage = ''Domain QA readiness for entity-heavy use cases.'',
       m_target_guideline = ''Track top business entities separately from aggregate entity recall.''\<rparr>]"

definition generation_metrics :: "metric_definition list" where
  "generation_metrics =
     [\<lparr>m_name = ''answer_relevancy'',
       m_category = ''generation'',
       m_description = ''How relevant the answer is to the user query.'',
       m_when_to_use = ''Detect off-topic or generic answers.'',
       m_tradeoff = ''Relevant answers can still be incorrect.'',
       m_how_to_improve = ''Tighten system prompts, improve query understanding, and constrain answer scope.'',
       m_common_failure_mode = ''Polished but shallow answers score high despite factual gaps.'',
       m_guardrail_or_pair_metric = ''Pair with faithfulness and factual correctness checks.'',
       m_decision_stage = ''Response quality tuning before release.'',
       m_target_guideline = ''Use as minimum floor; never as sole release gate.''\<rparr>,
      \<lparr>m_name = ''faithfulness'',
       m_category = ''generation'',
       m_description = ''Whether answer claims are grounded in provided context.'',
       m_when_to_use = ''Hallucination risk is critical.'',
       m_tradeoff = ''May penalize useful reasoning not explicit in context.'',
       m_how_to_improve = ''Improve citation grounding, reduce unsupported synthesis, and refine retrieval quality.'',
       m_common_failure_mode = ''Model hallucinates plausible details absent from retrieved evidence.'',
       m_guardrail_or_pair_metric = ''Pair with answer_relevancy and context_recall.'',
       m_decision_stage = ''Production release gate and incident prevention.'',
       m_target_guideline = ''Set strict minimum threshold for high-risk domains.''\<rparr>]"

definition robustness_metrics :: "metric_definition list" where
  "robustness_metrics =
     [\<lparr>m_name = ''noise_sensitivity'',
       m_category = ''robustness'',
       m_description = ''How fragile generation is to noisy retrieved context.'',
       m_when_to_use = ''Real-world retrieval includes irrelevant documents.'',
       m_tradeoff = ''Harder to optimize directly; needs targeted test sets.'',
       m_how_to_improve = ''Add distractor-aware training/evals and improve context filtering/reranking.'',
       m_common_failure_mode = ''Model follows noisy snippets and ignores the most relevant evidence.'',
       m_guardrail_or_pair_metric = ''Pair with faithfulness and adversarial retrieval test suites.'',
       m_decision_stage = ''Pre-production robustness and chaos evaluation.'',
       m_target_guideline = ''Track trend over releases; block rollout on sharp regressions.''\<rparr>]"

definition agent_metrics :: "metric_definition list" where
  "agent_metrics =
     [\<lparr>m_name = ''topic_adherence'',
       m_category = ''agent'',
       m_description = ''Whether the agent remains aligned with the intended topic and scope.'',
       m_when_to_use = ''Agent workflows where off-topic drift is costly.'',
       m_tradeoff = ''May penalize valid exploratory steps in ambiguous tasks.'',
       m_how_to_improve = ''Tighten instructions, improve planning prompts, and constrain tool usage boundaries.'',
       m_common_failure_mode = ''Agent follows tangential context and diverges from user intent.'',
       m_guardrail_or_pair_metric = ''Pair with agent_goal_accuracy and human review traces.'',
       m_decision_stage = ''Agent behavior policy tuning.'',
       m_target_guideline = ''Set minimum threshold before autonomous execution rollout.''\<rparr>,
      \<lparr>m_name = ''tool_call_accuracy'',
       m_category = ''agent'',
       m_description = ''How often selected tool calls are correct for the task step.'',
       m_when_to_use = ''Tool-augmented agents where API/tool correctness matters.'',
       m_tradeoff = ''Can overlook partial success when sequence-level behavior is flawed.'',
       m_how_to_improve = ''Improve tool descriptions, function schemas, and tool-selection prompting.'',
       m_common_failure_mode = ''Agent calls plausible but wrong tools or arguments.'',
       m_guardrail_or_pair_metric = ''Pair with tool_call_f1 and execution success rate.'',
       m_decision_stage = ''Agent-tool integration hardening.'',
       m_target_guideline = ''Treat regressions as release blockers for critical automations.''\<rparr>,
      \<lparr>m_name = ''tool_call_f1'',
       m_category = ''agent'',
       m_description = ''Balanced precision/recall measure for correct tool invocation decisions.'',
       m_when_to_use = ''Need balanced view of missed vs incorrect tool calls.'',
       m_tradeoff = ''Aggregated score can hide high-impact tool-specific failures.'',
       m_how_to_improve = ''Tune tool selection prompts and add hard-negative tool examples.'',
       m_common_failure_mode = ''Overall F1 looks acceptable while one critical tool fails often.'',
       m_guardrail_or_pair_metric = ''Pair with per-tool confusion analysis and tool_call_accuracy.'',
       m_decision_stage = ''Pre-production agent evaluation.'',
       m_target_guideline = ''Use for model comparison, then verify per-tool reliability.''\<rparr>,
      \<lparr>m_name = ''agent_goal_accuracy'',
       m_category = ''agent'',
       m_description = ''Whether final agent outputs satisfy the user goal.'',
       m_when_to_use = ''End-to-end agent success measurement.'',
       m_tradeoff = ''Can hide inefficiency or unsafe intermediate actions.'',
       m_how_to_improve = ''Improve planning quality, stopping criteria, and recovery strategies.'',
       m_common_failure_mode = ''Agent reaches output format but fails true task objective.'',
       m_guardrail_or_pair_metric = ''Pair with topic_adherence and safety policy checks.'',
       m_decision_stage = ''Final acceptance gate for agent systems.'',
       m_target_guideline = ''Define goal-completion rubric before thresholding this metric.''\<rparr>]"

definition METRIC_CATALOG :: "metric_definition list" where
  "METRIC_CATALOG = classification_metrics @ retrieval_metrics @ generation_metrics @ robustness_metrics @ agent_metrics"

section \<open>Names and categories\<close>

lemma classification_names:
  "map (\<lambda>m. (m_name m, m_category m)) classification_metrics =
     [(''accuracy'', ''classification''),
      (''precision'', ''classification''),
      (''recall'', ''classification''),
      (''f1'', ''classification'')]"
  by (simp add: classification_metrics_def)

lemma retrieval_names:
  "map (\<lambda>m. (m_name m, m_category m)) retrieval_metrics =
     [(''context_precision'', ''retrieval''),
      (''context_utilization'', ''retrieval''),
      (''non_llm_context_precision'', ''retrieval''),
      (''id_based_context_precision'', ''retrieval''),
      (''context_recall'', ''retrieval''),
      (''non_llm_context_recall'', ''retrieval''),
      (''id_based_context_recall'', ''retrieval''),
      (''context_entity_recall'', ''retrieval'')]"
  by (simp add: retrieval_metrics_def)

lemma generation_names:
  "map (\<lambda>m. (m_name m, m_category m)) generation_metrics =
     [(''answer_relevancy'', ''generation''),
      (''faithfulness'', ''generation'')]"
  by (simp add: generation_metrics_def)

lemma robustness_names:
  "map (\<lambda>m. (m_name m, m_category m)) robustness_metrics =
     [(''noise_sensitivity'', ''robustness'')]"
  by (simp add: robustness_metrics_def)

lemma agent_names:
  "map (\<lambda>m. (m_name m, m_category m)) agent_metrics =
     [(''topic_adherence'', ''agent''),
      (''tool_call_accuracy'', ''agent''),
      (''tool_call_f1'', ''agent''),
      (''agent_goal_accuracy'', ''agent'')]"
  by (simp add: agent_metrics_def)

lemmas catalog_names =
  classification_names retrieval_names generation_names robustness_names agent_names

end
