(* ===== verification/Ragas_Adapter.thy ===== *)
theory Ragas_Adapter
  imports Metric_Catalog Errors
begin

text \<open>
  The adapter to the scoring library (\<open>app/infra/evaluation/ragas_adapter.py\<close>). The library is a
  parameter, a record of what the adapter uses of it: its imports, its classes, their constructors
  and its evaluation functions. The requirements file is a parameter as parsed. Scores are of a type
  of their own, since the library may return values that are no finite number.
\<close>

section \<open>Metrics\<close>

definition SUPPORTED_METRICS :: "string list" where
  "SUPPORTED_METRICS =
     map m_name (filter (\<lambda>m. m_category m \<in> {''retrieval'', ''generation'', ''robustness'', ''agent''}) METRIC_CATALOG)"

definition MULTI_TURN_ONLY_METRICS :: "string list" where
  "MULTI_TURN_ONLY_METRICS = [''topic_adherence'', ''tool_call_accuracy'', ''tool_call_f1'', ''agent_goal_accuracy'']"

definition SUPPORTED_CONSTRUCTOR_ARGS :: "string list" where
  "SUPPORTED_CONSTRUCTOR_ARGS = [''llm'', ''embeddings'']"

text \<open>The normalised requirements; entries of the wrong shape are skipped.\<close>

type_synonym requirements = "(string, string list) dict"

fun normalize_args :: "pyval list \<Rightarrow> string list" where
  "normalize_args [] = []"
| "normalize_args (PStr a # args) =
     (if a \<in> set SUPPORTED_CONSTRUCTOR_ARGS then a # normalize_args args else normalize_args args)"
| "normalize_args (_ # args) = normalize_args args"

fun normalize_entry :: "string \<times> pyval \<Rightarrow> requirements \<Rightarrow> requirements" where
  "normalize_entry (name, PDict cfg) acc =
     (case dget_dflt cfg ''constructor_args'' (PList []) of
        PList args \<Rightarrow> dset acc name (normalize_args args)
      | _ \<Rightarrow> acc)"
| "normalize_entry (name, _) acc = acc"

text \<open>
  \<open>yaml\<close> is \<open>None\<close> when the parser or the file is missing, otherwise the parsed document. A \<open>metrics\<close>
  entry that is no mapping has no \<open>items\<close>.
\<close>

definition load_metric_requirements_config :: "pyval option \<Rightarrow> requirements res" where
  "load_metric_requirements_config yaml =
     (case yaml of
        None \<Rightarrow> Inr []
      | Some doc \<Rightarrow>
          (case py_or doc (PDict []) of
             PDict d \<Rightarrow>
               (case dget_dflt d ''metrics'' (PDict []) of
                  PDict ms \<Rightarrow> Inr (fold normalize_entry ms [])
                | _ \<Rightarrow> Inl AttributeError)
           | _ \<Rightarrow> Inr []))"

definition required_constructor_args :: "requirements \<Rightarrow> string list \<Rightarrow> string set" where
  "required_constructor_args reqs metric_names = (\<Union>m\<in>set metric_names. set (dget_dflt reqs m []))"

section \<open>The library\<close>

record sample =
  s_user_input :: string
  s_response :: string
  s_reference :: string
  s_retrieved_contexts :: "string list"
  s_reference_contexts :: "string list"
  s_retrieved_context_ids :: "string list"
  s_reference_context_ids :: "string list"

datatype tool_call = ToolCall string pyval

datatype message = HumanMessage string | AIMessage string "tool_call list option" | ToolMessage string

text \<open>
  The wrapper that the adapter puts around embeddings. The methods of the wrapped object are parameters; one of
  them, \<open>embed_text\<close>, may be missing, and it is called with a text or with a list of texts.
\<close>

datatype 'e embeddings_adapter = LangChainEmbeddingsAdapter 'e

datatype text_arg = OneText string | ManyTexts "string list"

record ('e, 'w) embedding_methods =
  embed_text_of :: "'e \<Rightarrow> (text_arg \<Rightarrow> 'w res) option"
  embed_query_of :: "'e \<Rightarrow> string \<Rightarrow> 'w res"
  embed_documents_of :: "'e \<Rightarrow> string list \<Rightarrow> 'w res"

fun adapter_embed_query :: "('e, 'w) embedding_methods \<Rightarrow> 'e embeddings_adapter \<Rightarrow> string \<Rightarrow> 'w res" where
  "adapter_embed_query E (LangChainEmbeddingsAdapter e) s =
     (case embed_text_of E e of Some f \<Rightarrow> f (OneText s) | None \<Rightarrow> embed_query_of E e s)"

fun adapter_embed_documents :: "('e, 'w) embedding_methods \<Rightarrow> 'e embeddings_adapter \<Rightarrow> string list \<Rightarrow> 'w res" where
  "adapter_embed_documents E (LangChainEmbeddingsAdapter e) texts =
     (case embed_text_of E e of Some f \<Rightarrow> f (ManyTexts texts) | None \<Rightarrow> embed_documents_of E e texts)"

text \<open>
  \<open>'c\<close> are metric classes, \<open>'m\<close> metric objects, \<open>'l\<close> language models, \<open>'e\<close> embeddings, \<open>'v\<close> the values in a
  result row (\<open>None\<close> stands for Python's) and \<open>'f\<close> floats.
\<close>

record ('c, 'm, 'l, 'e, 'v, 'f) ragas =
  single_turn_import :: "unit res"
  multi_turn_import :: "unit res"
  metrics_attr :: "string \<Rightarrow> 'c option"
  collections_attr :: "string \<Rightarrow> 'c option"
  init_parameters :: "'c \<Rightarrow> string list option"
  is_class :: "'c \<Rightarrow> bool"
  construct :: "'c \<Rightarrow> 'l option \<Rightarrow> 'e option \<Rightarrow> 'm res"
  as_object :: "'c \<Rightarrow> 'm"
  is_metric :: "'m \<Rightarrow> bool"
  type_repr :: "'m \<Rightarrow> string"
  make_dataset :: "sample \<Rightarrow> unit res"
  aevaluate :: "sample \<Rightarrow> 'm list \<Rightarrow> 'l option \<Rightarrow> 'e embeddings_adapter option \<Rightarrow> (string, 'v option) dict res"
  to_float :: "'v \<Rightarrow> 'f res"
  topic_adherence_score :: "'l \<Rightarrow> message list \<Rightarrow> string list \<Rightarrow> 'f res"
  goal_accuracy_score :: "'l \<Rightarrow> message list \<Rightarrow> string \<Rightarrow> 'f res"
  tool_call_accuracy_score :: "message list \<Rightarrow> tool_call list \<Rightarrow> 'f res"
  tool_call_f1_score :: "message list \<Rightarrow> tool_call list \<Rightarrow> 'f res"

section \<open>Single-turn evaluation\<close>

definition infer_constructor_args_from_signature :: "('c, 'm, 'l, 'e, 'v, 'f) ragas \<Rightarrow> 'c \<Rightarrow> string list" where
  "infer_constructor_args_from_signature L c =
     (case init_parameters L c of
        None \<Rightarrow> []
      | Some ps \<Rightarrow> filter (\<lambda>a. a \<in> set ps) SUPPORTED_CONSTRUCTOR_ARGS)"

definition resolve_metric_class :: "('c, 'm, 'l, 'e, 'v, 'f) ragas \<Rightarrow> string \<Rightarrow> 'c res" where
  "resolve_metric_class L class_name =
     (case metrics_attr L class_name of
        Some c \<Rightarrow> Inr c
      | None \<Rightarrow>
          (case collections_attr L class_name of
             Some c \<Rightarrow> Inr c
           | None \<Rightarrow> Inl (ExternalServiceError ''ragas'' (''ragas metric class not available: ('' @ [CHR 0x27] @ class_name @ [CHR 0x27] @ '',)''))))"

definition class_names :: "(string, string) dict" where
  "class_names =
     [(''context_precision'', ''ContextPrecision''), (''context_utilization'', ''ContextUtilization''),
      (''non_llm_context_precision'', ''NonLLMContextPrecisionWithReference''),
      (''id_based_context_precision'', ''IDBasedContextPrecision''), (''context_recall'', ''ContextRecall''),
      (''non_llm_context_recall'', ''NonLLMContextRecall''), (''id_based_context_recall'', ''IDBasedContextRecall''),
      (''context_entity_recall'', ''ContextEntityRecall''), (''answer_relevancy'', ''AnswerRelevancy''),
      (''faithfulness'', ''Faithfulness''), (''noise_sensitivity'', ''NoiseSensitivity''),
      (''topic_adherence'', ''TopicAdherence''), (''tool_call_accuracy'', ''ToolCallAccuracy''),
      (''tool_call_f1'', ''ToolCallF1''), (''agent_goal_accuracy'', ''AgentGoalAccuracy'')]"

text \<open>All classes are resolved before any is used.\<close>

definition metric_builders :: "('c, 'm, 'l, 'e, 'v, 'f) ragas \<Rightarrow> (string, 'c) dict res" where
  "metric_builders L = mapE (\<lambda>(m, c). bindE (resolve_metric_class L c) (\<lambda>k. Inr (m, k))) class_names"

definition requires_arg :: "string \<Rightarrow> string \<Rightarrow> exn" where
  "requires_arg metric_name arg =
     ValueError (''Metric '' @ [CHR 0x27] @ metric_name @ [CHR 0x27] @ '' requires constructor argument: '' @ arg)"

definition build_metric ::
  "('c, 'm, 'l, 'e, 'v, 'f) ragas \<Rightarrow> requirements \<Rightarrow> (string, 'c) dict \<Rightarrow> 'l option \<Rightarrow> 'e option \<Rightarrow> string \<Rightarrow> 'm res" where
  "build_metric L reqs builders llm embeddings metric_name =
     bindE (dget_or_raise builders metric_name) (\<lambda>c.
     let required = dget_dflt reqs metric_name (infer_constructor_args_from_signature L c) in
     bindE (if ''llm'' \<in> set required \<and> llm = None then Inl (requires_arg metric_name ''llm'') else Inr ()) (\<lambda>_.
     bindE (if ''embeddings'' \<in> set required \<and> embeddings = None then Inl (requires_arg metric_name ''embeddings'')
            else Inr ()) (\<lambda>_.
     bindE (if is_class L c
            then construct L c (if ''llm'' \<in> set required then llm else None)
                   (if ''embeddings'' \<in> set required then embeddings else None)
            else Inr (as_object L c)) (\<lambda>m.
     if \<not> is_metric L m then
       Inl (ExternalServiceError ''ragas''
         (''Metric '' @ [CHR 0x27] @ metric_name @ [CHR 0x27] @ '' resolved to invalid object '' @ type_repr L m @
          ''. aevaluate requires initialized ragas.metrics.base.Metric objects.''))
     else Inr m))))"

text \<open>The comprehension over the requested names: a repeated name is scored once.\<close>

fun collect_scores :: "('c, 'm, 'l, 'e, 'v, 'f) ragas \<Rightarrow> (string, 'v option) dict \<Rightarrow> string list \<Rightarrow> (string, 'f) dict \<Rightarrow>
    (string, 'f) dict res" where
  "collect_scores L row [] acc = Inr acc"
| "collect_scores L row (m # ms) acc =
     (case dget row m of
        Some (Some v) \<Rightarrow> bindE (to_float L v) (\<lambda>f. collect_scores L row ms (dset acc m f))
      | _ \<Rightarrow> collect_scores L row ms acc)"

record single_turn_request =
  q_user_input :: string
  q_response :: string
  q_retrieved_contexts :: "string list"
  q_reference_contexts :: "string list option"
  q_retrieved_context_ids :: "string list option"
  q_reference_context_ids :: "string list option"
  q_reference :: "string option"
  q_metric_names :: "string list"

definition or_empty :: "'a list option \<Rightarrow> 'a list" where
  "or_empty x = (case x of None \<Rightarrow> [] | Some ys \<Rightarrow> ys)"

definition make_sample :: "single_turn_request \<Rightarrow> sample" where
  "make_sample q =
     \<lparr>s_user_input = q_user_input q, s_response = q_response q, s_reference = or_empty (q_reference q),
      s_retrieved_contexts = q_retrieved_contexts q, s_reference_contexts = or_empty (q_reference_contexts q),
      s_retrieved_context_ids = or_empty (q_retrieved_context_ids q),
      s_reference_context_ids = or_empty (q_reference_context_ids q)\<rparr>"

text \<open>A failing import becomes an external service error; \<open>msg\<close> prints its cause.\<close>

definition ragas_import :: "(exn \<Rightarrow> string) \<Rightarrow> unit res \<Rightarrow> unit res" where
  "ragas_import msg imported =
     (case imported of
        Inr u \<Rightarrow> Inr ()
      | Inl e \<Rightarrow> Inl (ExternalServiceError ''ragas'' (''ragas is not available: '' @ msg e)))"

text \<open>\<open>shown\<close> prints a list of names inside a message.\<close>

definition run_single_turn ::
  "('c, 'm, 'l, 'e, 'v, 'f) ragas \<Rightarrow> (exn \<Rightarrow> string) \<Rightarrow> (string list \<Rightarrow> string) \<Rightarrow> pyval option \<Rightarrow>
   'l option \<Rightarrow> 'e option \<Rightarrow> single_turn_request \<Rightarrow> (string, 'f) dict res" where
  "run_single_turn L msg shown yaml llm embeddings q =
     (let names = q_metric_names q;
          unsupported = filter (\<lambda>m. m \<notin> set SUPPORTED_METRICS) names;
          multi_turn_requested = filter (\<lambda>m. m \<in> set MULTI_TURN_ONLY_METRICS) names in
      if unsupported \<noteq> [] then Inl (ValueError (''Unsupported ragas metrics: '' @ shown unsupported))
      else if multi_turn_requested \<noteq> [] then
        Inl (ValueError (''Metrics '' @ shown multi_turn_requested @ '' require multi-turn conversation data '' @
               ''and cannot be evaluated via the single-turn endpoint.''))
      else
        bindE (ragas_import msg (single_turn_import L)) (\<lambda>_.
        bindE (metric_builders L) (\<lambda>builders.
        bindE (make_dataset L (make_sample q)) (\<lambda>_.
        bindE (load_metric_requirements_config yaml) (\<lambda>reqs.
        bindE (mapE (build_metric L reqs builders llm embeddings) names) (\<lambda>metrics.
        bindE (aevaluate L (make_sample q) metrics llm (map_option LangChainEmbeddingsAdapter embeddings)) (\<lambda>row.
        collect_scores L row names [])))))))"

section \<open>Multi-turn evaluation\<close>

text \<open>A tool call of a message or of the reference; both keys are read.\<close>

fun read_tool_call :: "pyval \<Rightarrow> tool_call res" where
  "read_tool_call (PDict d) =
     bindE (dget_or_raise d ''name'') (\<lambda>n.
     bindE (dget_or_raise d ''args'') (\<lambda>a.
     case n of PStr s \<Rightarrow> Inr (ToolCall s a) | _ \<Rightarrow> Inl (ValueError ''ToolCall'')))"
| "read_tool_call _ = Inl TypeError"

definition read_message :: "pydict \<Rightarrow> message list res" where
  "read_message d =
     bindE (dget_or_raise d ''role'') (\<lambda>role.
     bindE (dget_or_raise d ''content'') (\<lambda>content.
     let raw = py_or (dget_dflt d ''tool_calls'' PNone) (PList []) in
     case (role, content) of
       (PStr r, PStr c) \<Rightarrow>
         if r = ''human'' then Inr [HumanMessage c]
         else if r = ''ai'' then
           if truthy raw then
             bindE (py_iter raw) (\<lambda>vs. bindE (mapE read_tool_call vs) (\<lambda>tcs. Inr [AIMessage c (Some tcs)]))
           else Inr [AIMessage c None]
         else if r = ''tool'' then Inr [ToolMessage c]
         else Inr []
     | _ \<Rightarrow> Inl (ValueError ''message'')))"

record multi_turn_request =
  w_messages :: "pydict list"
  w_reference :: "string option"
  w_reference_topics :: "string list option"
  w_reference_tool_calls :: "pydict list option"
  w_metric_names :: "string list"

definition score_metric ::
  "('c, 'm, 'l, 'e, 'v, 'f) ragas \<Rightarrow> 'l option \<Rightarrow> message list \<Rightarrow> string option \<Rightarrow> string list option \<Rightarrow>
   tool_call list option \<Rightarrow> string \<Rightarrow> 'f res" where
  "score_metric L llm msgs reference topics tool_calls m =
     (if m = ''topic_adherence'' then
        if or_empty topics = [] then Inl (ValueError ''topic_adherence requires reference_topics'')
        else (case llm of None \<Rightarrow> Inl (ValueError ''topic_adherence requires llm'')
              | Some l \<Rightarrow> topic_adherence_score L l msgs (or_empty topics))
      else if m = ''agent_goal_accuracy'' then
        if or_empty reference = [] then Inl (ValueError ''agent_goal_accuracy requires reference'')
        else (case llm of None \<Rightarrow> Inl (ValueError ''agent_goal_accuracy requires llm'')
              | Some l \<Rightarrow> goal_accuracy_score L l msgs (or_empty reference))
      else if m = ''tool_call_accuracy'' then
        (case tool_calls of None \<Rightarrow> Inl (ValueError ''tool_call_accuracy requires reference_tool_calls'')
         | Some tcs \<Rightarrow> tool_call_accuracy_score L msgs tcs)
      else if m = ''tool_call_f1'' then
        (case tool_calls of None \<Rightarrow> Inl (ValueError ''tool_call_f1 requires reference_tool_calls'')
         | Some tcs \<Rightarrow> tool_call_f1_score L msgs tcs)
      else Inl UnboundLocalError)"

fun score_metrics :: "(string \<Rightarrow> 'f res) \<Rightarrow> string list \<Rightarrow> (string, 'f) dict \<Rightarrow> (string, 'f) dict res" where
  "score_metrics score [] acc = Inr acc"
| "score_metrics score (m # ms) acc = bindE (score m) (\<lambda>f. score_metrics score ms (dset acc m f))"

definition run_multi_turn ::
  "('c, 'm, 'l, 'e, 'v, 'f) ragas \<Rightarrow> (exn \<Rightarrow> string) \<Rightarrow> (string list \<Rightarrow> string) \<Rightarrow> 'l option \<Rightarrow> multi_turn_request \<Rightarrow>
   (string, 'f) dict res" where
  "run_multi_turn L msg shown llm w =
     (let names = w_metric_names w;
          unsupported = filter (\<lambda>m. m \<notin> set MULTI_TURN_ONLY_METRICS) names in
      if unsupported \<noteq> [] then
        Inl (ValueError (''Metrics '' @ shown unsupported @ '' are not supported by the multi-turn endpoint. '' @
               ''Supported: '' @ shown [''agent_goal_accuracy'', ''tool_call_accuracy'', ''tool_call_f1'', ''topic_adherence'']))
      else
        bindE (ragas_import msg (multi_turn_import L)) (\<lambda>_.
        bindE (mapE read_message (w_messages w)) (\<lambda>msgss.
        bindE (case w_reference_tool_calls w of
                 None \<Rightarrow> Inr None
               | Some ds \<Rightarrow> bindE (mapE (\<lambda>d. read_tool_call (PDict d)) ds) (\<lambda>tcs. Inr (Some tcs))) (\<lambda>tool_calls.
        score_metrics (score_metric L llm (concat msgss) (w_reference w) (w_reference_topics w) tool_calls) names []))))"

section \<open>Lemmas\<close>

lemma supported_metrics_list:
  "SUPPORTED_METRICS =
     [''context_precision'', ''context_utilization'', ''non_llm_context_precision'', ''id_based_context_precision'',
      ''context_recall'', ''non_llm_context_recall'', ''id_based_context_recall'', ''context_entity_recall'',
      ''answer_relevancy'', ''faithfulness'', ''noise_sensitivity'',
      ''topic_adherence'', ''tool_call_accuracy'', ''tool_call_f1'', ''agent_goal_accuracy'']"
proof -
  have "SUPPORTED_METRICS = map fst (filter (\<lambda>(n, c). c \<in> {''retrieval'', ''generation'', ''robustness'', ''agent''})
      (map (\<lambda>m. (m_name m, m_category m)) METRIC_CATALOG))"
    by (simp add: SUPPORTED_METRICS_def filter_map comp_def)
  then show ?thesis by (simp add: METRIC_CATALOG_def catalog_names)
qed

lemma builder_names: "dkeys class_names = SUPPORTED_METRICS"
  by (simp add: class_names_def supported_metrics_list)

lemma metric_builders_keys: "metric_builders L = Inr bs \<Longrightarrow> dkeys bs = SUPPORTED_METRICS"
proof -
  assume "metric_builders L = Inr bs"
  then have "list_all2 (\<lambda>x b. bindE (resolve_metric_class L (snd x)) (\<lambda>k. Inr (fst x, k)) = Inr b) class_names bs"
    by (simp add: metric_builders_def mapE_eq_Inr_iff case_prod_beta)
  then have "list_all2 (\<lambda>x b. fst b = fst x) class_names bs"
    by (rule list_all2_mono) (auto simp: bindE_eq_Inr)
  then have "map fst class_names = map fst bs"
    by (auto simp: list_all2_conv_all_nth intro: nth_equalityI)
  then show ?thesis by (simp add: builder_names)
qed

lemma collect_scores_spec:
  "collect_scores L row ms acc = Inr r \<Longrightarrow> dict_wf acc \<Longrightarrow>
     dict_wf r \<and> (\<forall>m f. dget r m = Some f \<longleftrightarrow>
       (if m \<in> set ms \<and> (\<exists>v. dget row m = Some (Some v)) then (\<exists>v. dget row m = Some (Some v) \<and> to_float L v = Inr f)
        else dget acc m = Some f))"
proof (induction ms arbitrary: acc)
  case (Cons x ms)
  show ?case
  proof (cases "\<exists>v. dget row x = Some (Some v)")
    case True
    then obtain v where v: "dget row x = Some (Some v)" by blast
    with Cons.prems obtain f where f: "to_float L v = Inr f" "collect_scores L row ms (dset acc x f) = Inr r"
      by (auto simp: bindE_eq_Inr)
    from Cons.IH [OF f(2)] Cons.prems(2) v f(1) show ?thesis by auto
  next
    case False
    with Cons.prems(1) have "collect_scores L row ms acc = Inr r" by (auto split: option.splits)
    from Cons.IH [OF this Cons.prems(2)] False show ?thesis by auto
  qed
qed simp

lemma collect_scores_total:
  "(\<And>v. is_ok (to_float L v)) \<Longrightarrow> is_ok (collect_scores L row ms acc)"
proof (induction ms arbitrary: acc)
  case (Cons x ms)
  have "is_ok (case dget row x of Some (Some v) \<Rightarrow> bindE (to_float L v) (\<lambda>f. collect_scores L row ms (dset acc x f))
      | _ \<Rightarrow> collect_scores L row ms acc)"
  proof (cases "dget row x")
    case (Some w)
    show ?thesis
    proof (cases w)
      case (Some v)
      obtain f where "to_float L v = Inr f" using Cons.prems [of v] by (auto simp: is_ok_iff)
      with \<open>dget row x = Some w\<close> Some show ?thesis using Cons by simp
    qed (use Some Cons in simp)
  qed (use Cons in simp)
  then show ?case by simp
qed simp

lemma build_metric_ok:
  assumes "metric_name \<in> set (dkeys builders)"
    and "\<And>c l e. \<exists>m. construct L c l e = Inr m \<and> is_metric L m" and "\<And>c. is_class L c"
  shows "\<exists>m. build_metric L reqs builders (Some l) (Some e) metric_name = Inr m \<and> is_metric L m"
proof -
  obtain c where c: "dget builders metric_name = Some c"
    using assms(1) by (metis list.set_map map_of_eq_None_iff option.exhaust)
  define k where "k = dget_dflt reqs metric_name (infer_constructor_args_from_signature L c)"
  obtain m where m: "construct L c (if ''llm'' \<in> set k then Some l else None) (if ''embeddings'' \<in> set k then Some e else None) =
      Inr m" "is_metric L m"
    using assms(2) by blast
  then show ?thesis using assms(3) c k_def
    by (simp add: build_metric_def dget_or_raise_def Let_def del: split_paired_Ex)
qed

lemma mapE_ok: "(\<And>x. x \<in> set xs \<Longrightarrow> is_ok (f x)) \<Longrightarrow> is_ok (mapE f xs)"
  by (induction xs) (fastforce simp: is_ok_iff)+

lemma score_metrics_spec:
  "score_metrics score ms acc = Inr r \<Longrightarrow>
     (\<forall>m\<in>set ms. is_ok (score m)) \<and>
     (\<forall>m. dget r m = (if m \<in> set ms then (case score m of Inr f \<Rightarrow> Some f | Inl e \<Rightarrow> None) else dget acc m))"
proof (induction ms arbitrary: acc)
  case (Cons x ms)
  then obtain f where f: "score x = Inr f" "score_metrics score ms (dset acc x f) = Inr r" by (auto simp: bindE_eq_Inr)
  from Cons.IH [OF f(2)] f(1) show ?case by auto
qed simp

lemma score_metrics_total:
  "(\<forall>m\<in>set ms. is_ok (score m)) \<Longrightarrow> is_ok (score_metrics score ms acc)"
  by (induction ms arbitrary: acc) (auto simp: is_ok_iff)

section \<open>Properties\<close>

text \<open>
  C28: A single-turn evaluation that returns was asked for single-turn metrics only, evaluated one
  library metric per requested name, and its scores are exactly the values the result row holds
  for requested names, converted to floats.
\<close>

theorem single_turn_scores:
  assumes "run_single_turn L msg shown yaml llm embeddings q = Inr scores"
  shows "set (q_metric_names q) \<subseteq> set SUPPORTED_METRICS - set MULTI_TURN_ONLY_METRICS \<and> dict_wf scores \<and>
    (\<exists>metrics row. length metrics = length (q_metric_names q) \<and>
       aevaluate L (make_sample q) metrics llm (map_option LangChainEmbeddingsAdapter embeddings) = Inr row \<and>
       (\<forall>m f. dget scores m = Some f \<longleftrightarrow>
          m \<in> set (q_metric_names q) \<and> (\<exists>v. dget row m = Some (Some v) \<and> to_float L v = Inr f)))"
proof -
  from assms have names: "set (q_metric_names q) \<subseteq> set SUPPORTED_METRICS - set MULTI_TURN_ONLY_METRICS"
    by (auto simp: run_single_turn_def Let_def filter_empty_conv split: if_splits)
  from assms obtain builders reqs metrics row where
    metrics: "mapE (build_metric L reqs builders llm embeddings) (q_metric_names q) = Inr metrics"
    and row: "aevaluate L (make_sample q) metrics llm (map_option LangChainEmbeddingsAdapter embeddings) = Inr row"
    and scores: "collect_scores L row (q_metric_names q) [] = Inr scores"
    by (auto simp: run_single_turn_def Let_def bindE_eq_Inr split: if_splits)
  have "dict_wf scores \<and> (\<forall>m f. dget scores m = Some f \<longleftrightarrow>
      m \<in> set (q_metric_names q) \<and> (\<exists>v. dget row m = Some (Some v) \<and> to_float L v = Inr f))"
    using collect_scores_spec [OF scores] by auto
  then show ?thesis using names row length_mapE [OF metrics] by blast
qed

text \<open>
  For every choice of single-turn metrics the adapter finds a class and its constructor arguments:
  with a library that resolves its classes, constructs metrics and returns a row, a language model,
  embeddings and a readable requirements file, the evaluation returns.
\<close>

theorem single_turn_runs:
  assumes "set (q_metric_names q) \<subseteq> set SUPPORTED_METRICS - set MULTI_TURN_ONLY_METRICS"
    and "single_turn_import L = Inr ()" and "metric_builders L = Inr builders"
    and "make_dataset L (make_sample q) = Inr ()" and "load_metric_requirements_config yaml = Inr reqs"
    and "\<And>c l e. \<exists>m. construct L c l e = Inr m \<and> is_metric L m" and "\<And>c. is_class L c"
    and "\<And>ms. is_ok (aevaluate L (make_sample q) ms (Some l) (Some (LangChainEmbeddingsAdapter e)))" and "\<And>v. is_ok (to_float L v)"
  shows "\<exists>scores. run_single_turn L msg shown yaml (Some l) (Some e) q = Inr scores"
proof -
  have "is_ok (build_metric L reqs builders (Some l) (Some e) m)" if "m \<in> set (q_metric_names q)" for m
  proof -
    have "m \<in> set (dkeys builders)" using that assms(1) metric_builders_keys [OF assms(3)] by auto
    from build_metric_ok [OF this assms(6,7), of reqs l e] show ?thesis by (auto simp: is_ok_iff)
  qed
  then have "is_ok (mapE (build_metric L reqs builders (Some l) (Some e)) (q_metric_names q))" by (rule mapE_ok)
  then obtain ms where ms: "mapE (build_metric L reqs builders (Some l) (Some e)) (q_metric_names q) = Inr ms"
    by (auto simp: is_ok_iff)
  obtain row where row: "aevaluate L (make_sample q) ms (Some l) (Some (LangChainEmbeddingsAdapter e)) = Inr row" using assms(8) by (auto simp: is_ok_iff)
  obtain scores where "collect_scores L row (q_metric_names q) [] = Inr scores"
    using collect_scores_total [OF assms(9), of row "q_metric_names q" "[]"] by (auto simp: is_ok_iff)
  moreover have "filter (\<lambda>m. m \<notin> set SUPPORTED_METRICS) (q_metric_names q) = []"
    "filter (\<lambda>m. m \<in> set MULTI_TURN_ONLY_METRICS) (q_metric_names q) = []"
    using assms(1) by (auto simp: filter_empty_conv)
  ultimately show ?thesis using assms(2-5) ms row by (simp add: run_single_turn_def ragas_import_def Let_def)
qed

text \<open>A library whose metrics all score one.\<close>

definition demo_ragas :: "(unit, unit, unit, unit, unit, nat) ragas" where
  "demo_ragas =
     \<lparr>single_turn_import = Inr (), multi_turn_import = Inr (), metrics_attr = (\<lambda>n. Some ()),
      collections_attr = (\<lambda>n. None), init_parameters = (\<lambda>c. None), is_class = (\<lambda>c. True),
      construct = (\<lambda>c l e. Inr ()), as_object = (\<lambda>c. ()), is_metric = (\<lambda>m. True), type_repr = (\<lambda>m. []),
      make_dataset = (\<lambda>s. Inr ()), aevaluate = (\<lambda>s ms l e. Inr [(''faithfulness'', Some ())]), to_float = (\<lambda>v. Inr 1),
      topic_adherence_score = (\<lambda>l ms ts. Inr 1), goal_accuracy_score = (\<lambda>l ms r. Inr 1),
      tool_call_accuracy_score = (\<lambda>ms ts. Inr 1), tool_call_f1_score = (\<lambda>ms ts. Inr 1)\<rparr>"

definition demo_single :: single_turn_request where
  "demo_single = \<lparr>q_user_input = ''u'', q_response = ''r'', q_retrieved_contexts = [''c''], q_reference_contexts = None,
     q_retrieved_context_ids = None, q_reference_context_ids = None, q_reference = None,
     q_metric_names = [''faithfulness'', ''context_recall'']\<rparr>"

lemma demo_builders: "metric_builders demo_ragas = Inr (map (\<lambda>(m, c). (m, ())) class_names)"
  unfolding metric_builders_def
  by (rule mapE_total) (auto simp: resolve_metric_class_def demo_ragas_def)

lemma demo_single_run:
  "run_single_turn demo_ragas msg shown None (Some ()) (Some ()) demo_single = Inr [(''faithfulness'', 1)]"
proof -
  have b: "build_metric demo_ragas [] (map (\<lambda>(m, c). (m, ())) class_names) (Some ()) (Some ()) m = Inr ()"
    if "m \<in> set (q_metric_names demo_single)" for m
    using that
    by (auto simp: build_metric_def dget_or_raise_def dget_dflt_def demo_single_def demo_ragas_def class_names_def
        infer_constructor_args_from_signature_def Let_def)
  have "mapE (build_metric demo_ragas [] (map (\<lambda>(m, c). (m, ())) class_names) (Some ()) (Some ()))
      (q_metric_names demo_single) = Inr (map (\<lambda>_. ()) (q_metric_names demo_single))"
    by (rule mapE_total) (rule b)
  then show ?thesis
    unfolding run_single_turn_def demo_builders
    by (simp add: Let_def supported_metrics_list MULTI_TURN_ONLY_METRICS_def ragas_import_def
        load_metric_requirements_config_def demo_single_def) (simp add: demo_ragas_def)
qed

theorem single_turn_scores_witness:
  "run_single_turn demo_ragas (\<lambda>e. []) (\<lambda>ns. []) None (Some ()) (Some ()) demo_single = Inr [(''faithfulness'', 1)] \<and>
   (\<exists>metrics row. length metrics = length (q_metric_names demo_single) \<and>
      aevaluate demo_ragas (make_sample demo_single) metrics (Some ()) (Some (LangChainEmbeddingsAdapter ())) = Inr row)"
  using single_turn_scores [OF demo_single_run] demo_single_run by auto

theorem single_turn_runs_witness:
  "\<exists>scores. run_single_turn demo_ragas (\<lambda>e. []) (\<lambda>ns. []) None (Some ()) (Some ()) demo_single = Inr scores"
  by (rule single_turn_runs [OF _ _ demo_builders, where reqs = "[]"])
     (simp_all add: demo_single_def supported_metrics_list MULTI_TURN_ONLY_METRICS_def
        load_metric_requirements_config_def demo_ragas_def)

text \<open>
  A multi-turn evaluation of well-formed messages with multi-turn metrics returns exactly when every
  requested metric can be scored (its reference data and model are there and the library scores
  it), and then it returns one score for each requested metric and for no other.
\<close>

theorem multi_turn_scores:
  assumes "set (w_metric_names w) \<subseteq> set MULTI_TURN_ONLY_METRICS" and "multi_turn_import L = Inr ()"
    and "mapE read_message (w_messages w) = Inr msgss"
    and "(case w_reference_tool_calls w of None \<Rightarrow> Inr None
          | Some ds \<Rightarrow> bindE (mapE (\<lambda>d. read_tool_call (PDict d)) ds) (\<lambda>tcs. Inr (Some tcs))) = Inr calls"
  shows "let score = score_metric L llm (concat msgss) (w_reference w) (w_reference_topics w) calls in
    (is_ok (run_multi_turn L msg shown llm w) \<longleftrightarrow> (\<forall>m\<in>set (w_metric_names w). is_ok (score m))) \<and>
    (\<forall>scores. run_multi_turn L msg shown llm w = Inr scores \<longrightarrow>
       (\<forall>m f. dget scores m = Some f \<longleftrightarrow> m \<in> set (w_metric_names w) \<and> score m = Inr f))"
proof -
  define score where "score = score_metric L llm (concat msgss) (w_reference w) (w_reference_topics w) calls"
  have "filter (\<lambda>m. m \<notin> set MULTI_TURN_ONLY_METRICS) (w_metric_names w) = []"
    using assms(1) by (auto simp: filter_empty_conv)
  then have run: "run_multi_turn L msg shown llm w = score_metrics score (w_metric_names w) []"
    using assms(2-4) by (simp add: run_multi_turn_def ragas_import_def score_def)
  have "is_ok (score_metrics score (w_metric_names w) []) \<longleftrightarrow> (\<forall>m\<in>set (w_metric_names w). is_ok (score m))"
    using score_metrics_spec [of score "w_metric_names w" "[]"] score_metrics_total [of "w_metric_names w" score "[]"]
    by (auto simp: is_ok_iff)
  moreover have "dget scores m = Some f \<longleftrightarrow> m \<in> set (w_metric_names w) \<and> score m = Inr f"
    if "score_metrics score (w_metric_names w) [] = Inr scores" for scores m f
    using score_metrics_spec [OF that] by (auto split: sum.splits)
  ultimately show ?thesis unfolding run score_def Let_def by blast
qed

definition demo_multi :: multi_turn_request where
  "demo_multi = \<lparr>w_messages = [[(''role'', PStr ''human''), (''content'', PStr ''hi'')]], w_reference = None,
     w_reference_topics = Some [''greeting''], w_reference_tool_calls = None, w_metric_names = [''topic_adherence'']\<rparr>"

text \<open>With the topics at hand the metric is scored; the missing tool calls do not matter.\<close>

theorem multi_turn_scores_witness:
  "is_ok (run_multi_turn demo_ragas (\<lambda>e. []) (\<lambda>ns. []) (Some ()) demo_multi)"
  using multi_turn_scores [of demo_multi demo_ragas "[[HumanMessage ''hi'']]" None "Some ()" "\<lambda>e. []" "\<lambda>ns. []"]
  by (simp add: Let_def demo_multi_def MULTI_TURN_ONLY_METRICS_def demo_ragas_def read_message_def dget_or_raise_def
      score_metric_def or_empty_def)

text \<open>
  The wrapper is transparent for an object without \<open>embed_text\<close>. For an object that has it the other two methods
  are never called; in particular a list of texts is handed to it as it is.
\<close>

theorem embeddings_wrapper:
  "(embed_text_of E e = None \<longrightarrow>
      adapter_embed_query E (LangChainEmbeddingsAdapter e) = embed_query_of E e \<and>
      adapter_embed_documents E (LangChainEmbeddingsAdapter e) = embed_documents_of E e) \<and>
   (\<forall>f. embed_text_of E e = Some f \<longrightarrow>
      adapter_embed_query (E\<lparr>embed_query_of := g\<rparr>) (LangChainEmbeddingsAdapter e) = f \<circ> OneText \<and>
      adapter_embed_documents (E\<lparr>embed_documents_of := h\<rparr>) (LangChainEmbeddingsAdapter e) = f \<circ> ManyTexts)"
  by (auto simp: fun_eq_iff)

end
