(* ===== verification/Evaluation.thy ===== *)
theory Evaluation
  imports Ragas_Adapter Eval_Metrics
begin

text \<open>
  Evaluation on top of the adapter: the entities (\<open>app/domain/evaluation/entities.py\<close>), the ports
  (\<open>app/domain/evaluation/ports.py\<close>), the in-memory bus (\<open>app/infra/event_bus/in_memory_event_bus.py\<close>), the
  service (\<open>app/services/evaluation_service.py\<close>) and the use case
  (\<open>app/application/evaluation/use_cases.py\<close>). The two ports are locales: what the use case promises is
  proved from their laws, and the service and the bus are instances of them.
\<close>

section \<open>Entities\<close>

record evaluation_input =
  question :: string
  contexts :: "string list"
  answer :: string
  ground_truth :: string
  request_id :: "string option"

record 'f evaluation_score =
  metric_name :: string
  score_value :: 'f

record 'f evaluation_result =
  scores :: "'f evaluation_score list"
  raw_payload :: "(string, 'f) dict"

section \<open>The in-memory bus\<close>

type_synonym 'p bus = "(string \<times> 'p) list"

definition new_bus :: "'p bus" where
  "new_bus = []"

definition bus_publish :: "string \<Rightarrow> 'p \<Rightarrow> 'p bus \<Rightarrow> 'p bus \<times> unit res" where
  "bus_publish event_name payload events = (events @ [(event_name, payload)], Inr ())"

section \<open>The service\<close>

definition metric_catalog :: "metric_definition list" where
  "metric_catalog = METRIC_CATALOG"

text \<open>The entry point of the evaluator port.\<close>

definition single_request_of :: "evaluation_input \<Rightarrow> string list \<Rightarrow> single_turn_request" where
  "single_request_of i metrics =
     \<lparr>q_user_input = question i, q_response = answer i, q_retrieved_contexts = contexts i,
      q_reference_contexts = None, q_retrieved_context_ids = None, q_reference_context_ids = None,
      q_reference = Some (ground_truth i), q_metric_names = metrics\<rparr>"

definition service_evaluate ::
  "('c, 'm, 'l, 'e, 'v, 'f) ragas \<Rightarrow> (exn \<Rightarrow> string) \<Rightarrow> (string list \<Rightarrow> string) \<Rightarrow> pyval option \<Rightarrow> 'l option \<Rightarrow> 'e option \<Rightarrow>
   evaluation_input \<Rightarrow> string list \<Rightarrow> 'f evaluation_result res" where
  "service_evaluate L msg shown yaml llm embeddings i metrics =
     bindE (run_single_turn L msg shown yaml llm embeddings (single_request_of i metrics)) (\<lambda>d.
     Inr \<lparr>scores = map (\<lambda>(m, v). \<lparr>metric_name = m, score_value = v\<rparr>) d, raw_payload = d\<rparr>)"

record classification_result =
  cl_summary :: summary
  cl_actual :: "(string, int) dict"
  cl_predicted :: "(string, int) dict"

definition evaluate_classification ::
  "string list \<Rightarrow> string list \<Rightarrow> string \<Rightarrow> pydict bus \<Rightarrow> pydict bus \<times> classification_result res" where
  "evaluate_classification actual predicted positive_label events =
     (case classification_summary actual predicted positive_label of
        Inl e \<Rightarrow> (events, Inl e)
      | Inr s \<Rightarrow>
          (fst (bus_publish ''evaluation.classification.completed''
             [(''samples'', PInt (samples s)), (''positive_label'', PStr positive_label), (''accuracy'', PFloat (accuracy s))] events),
           Inr \<lparr>cl_summary = s, cl_actual = class_distribution actual, cl_predicted = class_distribution predicted\<rparr>))"

text \<open>The payload of the two completion events: the requested names and the number of scores.\<close>

definition ragas_payload :: "string list \<Rightarrow> (string, 'f) dict \<Rightarrow> pydict" where
  "ragas_payload names sc = [(''metrics'', PList (map PStr names)), (''score_count'', PInt (int (length sc)))]"

definition or_else :: "'a option \<Rightarrow> 'a option \<Rightarrow> 'a option" where
  "or_else x y = (case x of None \<Rightarrow> y | Some a \<Rightarrow> Some a)"

text \<open>Models and embeddings are objects, which are truthy; an argument takes precedence over the service's own.\<close>

definition evaluate_ragas_single_turn ::
  "('c, 'm, 'l, 'e, 'v, 'f) ragas \<Rightarrow> (exn \<Rightarrow> string) \<Rightarrow> (string list \<Rightarrow> string) \<Rightarrow> pyval option \<Rightarrow> 'l option \<Rightarrow> 'e option \<Rightarrow>
   single_turn_request \<Rightarrow> 'l option \<Rightarrow> 'e option \<Rightarrow> pydict bus \<Rightarrow> pydict bus \<times> (string, 'f) dict res" where
  "evaluate_ragas_single_turn L msg shown yaml own_llm own_embeddings q llm embeddings events =
     (case run_single_turn L msg shown yaml (or_else llm own_llm) (or_else embeddings own_embeddings) q of
        Inl e \<Rightarrow> (events, Inl e)
      | Inr sc \<Rightarrow> (fst (bus_publish ''evaluation.ragas.completed'' (ragas_payload (q_metric_names q) sc) events), Inr sc))"

definition evaluate_ragas_multi_turn ::
  "('c, 'm, 'l, 'e, 'v, 'f) ragas \<Rightarrow> (exn \<Rightarrow> string) \<Rightarrow> (string list \<Rightarrow> string) \<Rightarrow> 'l option \<Rightarrow>
   multi_turn_request \<Rightarrow> pydict bus \<Rightarrow> pydict bus \<times> (string, 'f) dict res" where
  "evaluate_ragas_multi_turn L msg shown own_llm w events =
     (case run_multi_turn L msg shown own_llm w of
        Inl e \<Rightarrow> (events, Inl e)
      | Inr sc \<Rightarrow>
          (fst (bus_publish ''evaluation.ragas.multi_turn.completed'' (ragas_payload (w_metric_names w) sc) events), Inr sc))"

section \<open>Request schemas\<close>

text \<open>The lengths the request models demand; the framework answers 422 otherwise.\<close>

definition classification_request_ok :: "string list \<Rightarrow> string list \<Rightarrow> bool" where
  "classification_request_ok actual predicted \<longleftrightarrow> 1 \<le> length actual \<and> 1 \<le> length predicted"

definition single_request_ok :: "single_turn_request \<Rightarrow> bool" where
  "single_request_ok q \<longleftrightarrow> 1 \<le> length (q_retrieved_contexts q) \<and> 1 \<le> length (q_metric_names q)"

definition multi_request_ok :: "multi_turn_request \<Rightarrow> bool" where
  "multi_request_ok w \<longleftrightarrow> 1 \<le> length (w_messages w) \<and> 1 \<le> length (w_metric_names w)"

text \<open>The classification endpoint.\<close>

definition classification_endpoint ::
  "string list \<Rightarrow> string list \<Rightarrow> string option \<Rightarrow> classification_result res" where
  "classification_endpoint actual predicted positive_label =
     (if \<not> classification_request_ok actual predicted then Inl (HTTPException 422 ''body'')
      else snd (evaluate_classification actual predicted
             (case positive_label of None \<Rightarrow> ''positive'' | Some l \<Rightarrow> l) new_bus))"

section \<open>The use case\<close>

datatype 'f use_case_event =
    CompletedPayload "string option" string "(string \<times> 'f) list"
    \<comment> \<open>request id, question, scores\<close>
  | FailedPayload "string option" string string string
    \<comment> \<open>request id, question, error type, error message\<close>

text \<open>\<open>type_of\<close> and \<open>msg\<close> print an exception's class and text. The handler also covers a failing publisher.\<close>

definition report_failure ::
  "(string \<Rightarrow> 'f use_case_event \<Rightarrow> 's \<Rightarrow> 's \<times> unit res) \<Rightarrow> (exn \<Rightarrow> string) \<Rightarrow> (exn \<Rightarrow> string) \<Rightarrow> evaluation_input \<Rightarrow>
   exn \<Rightarrow> 's \<Rightarrow> 's \<times> 'f evaluation_result res" where
  "report_failure publish type_of msg i e s =
     (case publish ''evaluation.failed'' (FailedPayload (request_id i) (question i) (type_of e) (msg e)) s of
        (s, Inr u) \<Rightarrow> (s, Inl e)
      | (s, Inl e') \<Rightarrow> (s, Inl e'))"

definition execute ::
  "(evaluation_input \<Rightarrow> string list \<Rightarrow> 'f evaluation_result res) \<Rightarrow>
   (string \<Rightarrow> 'f use_case_event \<Rightarrow> 's \<Rightarrow> 's \<times> unit res) \<Rightarrow> (exn \<Rightarrow> string) \<Rightarrow> (exn \<Rightarrow> string) \<Rightarrow>
   evaluation_input \<Rightarrow> string list \<Rightarrow> 's \<Rightarrow> 's \<times> 'f evaluation_result res" where
  "execute evaluate publish type_of msg i metrics s =
     (case evaluate i metrics of
        Inl e \<Rightarrow> report_failure publish type_of msg i e s
      | Inr r \<Rightarrow>
          (case publish ''evaluation.completed''
                  (CompletedPayload (request_id i) (question i) (map (\<lambda>x. (metric_name x, score_value x)) (scores r))) s of
             (s, Inr u) \<Rightarrow> (s, Inr r)
           | (s, Inl e) \<Rightarrow> report_failure publish type_of msg i e s))"

section \<open>The ports\<close>

text \<open>An evaluator reports its raw scores as a list of scores.\<close>

locale evaluator_port =
  fixes evaluate :: "evaluation_input \<Rightarrow> string list \<Rightarrow> 'f evaluation_result res"
  assumes scores_are_raw: "evaluate i metrics = Inr r \<Longrightarrow> map (\<lambda>x. (metric_name x, score_value x)) (scores r) = raw_payload r"

text \<open>A publisher that accepts every event and keeps them in order.\<close>

locale event_publisher_port =
  fixes publish :: "string \<Rightarrow> 'f use_case_event \<Rightarrow> 's \<Rightarrow> 's \<times> unit res"
    and history :: "'s \<Rightarrow> (string \<times> 'f use_case_event) list"
  assumes accepts: "snd (publish n p s) = Inr ()"
    and appends: "history (fst (publish n p s)) = history s @ [(n, p)]"
begin

lemma publish_next: "\<exists>s'. publish n p s = (s', Inr ()) \<and> history s' = history s @ [(n, p)]"
  using accepts [of n p s] appends [of n p s] by (metis prod.collapse)

end

locale evaluation_ports = evaluator_port evaluate + event_publisher_port publish history
  for evaluate :: "evaluation_input \<Rightarrow> string list \<Rightarrow> 'f evaluation_result res"
    and publish :: "string \<Rightarrow> 'f use_case_event \<Rightarrow> 's \<Rightarrow> 's \<times> unit res" and history
begin

lemma execute_success:
  assumes "evaluate i metrics = Inr r"
  shows "snd (execute evaluate publish type_of msg i metrics s) = Inr r"
    and "history (fst (execute evaluate publish type_of msg i metrics s)) =
      history s @ [(''evaluation.completed'', CompletedPayload (request_id i) (question i) (raw_payload r))]"
  using assms scores_are_raw [OF assms]
    publish_next [of "''evaluation.completed''" "CompletedPayload (request_id i) (question i) (raw_payload r)" s]
  by (auto simp: execute_def)

lemma execute_failure:
  assumes "evaluate i metrics = Inl e"
  shows "snd (execute evaluate publish type_of msg i metrics s) = Inl e"
    and "history (fst (execute evaluate publish type_of msg i metrics s)) =
      history s @ [(''evaluation.failed'', FailedPayload (request_id i) (question i) (type_of e) (msg e))]"
  using assms
    publish_next [of "''evaluation.failed''" "FailedPayload (request_id i) (question i) (type_of e) (msg e)" s]
  by (auto simp: execute_def report_failure_def)

end

interpretation in_memory: event_publisher_port bus_publish "\<lambda>events. events"
  by unfold_locales (simp_all add: bus_publish_def)

interpretation service: evaluator_port "service_evaluate L msg shown yaml llm embeddings"
  for L msg shown yaml llm embeddings
  by unfold_locales (auto simp: service_evaluate_def bindE_eq_Inr intro!: map_idI)

interpretation use_case: evaluation_ports "service_evaluate L msg shown yaml llm embeddings" bus_publish "\<lambda>events. events"
  for L msg shown yaml llm embeddings
  by unfold_locales

section \<open>Properties\<close>

text \<open>
  C39: The use case, run with the evaluation service and the in-memory bus, publishes exactly one event: on
  success the completion event with the raw scores, and the result is returned; on a failure of
  the evaluation the failure event with that error, and the error is raised again.
\<close>

theorem use_case_events:
  "case service_evaluate L msg shown yaml llm embeddings i metrics of
     Inr r \<Rightarrow> execute (service_evaluate L msg shown yaml llm embeddings) bus_publish type_of text_of i metrics events =
       (events @ [(''evaluation.completed'', CompletedPayload (request_id i) (question i) (raw_payload r))], Inr r)
   | Inl e \<Rightarrow> execute (service_evaluate L msg shown yaml llm embeddings) bus_publish type_of text_of i metrics events =
       (events @ [(''evaluation.failed'', FailedPayload (request_id i) (question i) (type_of e) (text_of e))], Inl e)"
  using use_case.execute_success [of L msg shown yaml llm embeddings i metrics]
    use_case.execute_failure [of L msg shown yaml llm embeddings i metrics]
  by (simp add: prod_eq_iff split: sum.splits)

text \<open>
  The classification endpoint answers 422 for an empty list, fails on lists of different lengths,
  and otherwise returns the summary with the label counts of both lists.
\<close>

theorem classification_endpoint_outcomes:
  "classification_endpoint actual predicted label =
     (if actual = [] \<or> predicted = [] then Inl (HTTPException 422 ''body'')
      else if length actual \<noteq> length predicted then Inl (ValueError ''actual and predicted lengths must match'')
      else bindE (classification_summary actual predicted (case label of None \<Rightarrow> ''positive'' | Some l \<Rightarrow> l)) (\<lambda>s.
        Inr \<lparr>cl_summary = s, cl_actual = class_distribution actual, cl_predicted = class_distribution predicted\<rparr>))"
  by (cases actual; cases predicted)
     (auto simp: classification_endpoint_def classification_request_ok_def evaluate_classification_def
       classification_summary_def split: sum.splits)

end
