(* ===== verification/Job_Store.thy ===== *)
theory Job_Store
  imports Settings
begin

text \<open>
  The job store (\<open>app/infra/jobs/redis_job_store.py\<close>), the polling endpoints
  (\<open>app/api/v1/jobs_router.py\<close>, \<open>app/api/v2/jobs_router.py\<close>) and the Celery tasks that drive a job
  (\<open>app/workers/tasks/eval_tasks.py\<close>). The Redis server is a parameter: reading and writing a key at a
  time, where a written value is visible until its time to live is over (\<open>redis_ok\<close>). A stored document
  is represented by the value its JSON text denotes, and times are whole seconds; \<open>stamp\<close> prints them.
\<close>

section \<open>The store\<close>

record 'db redis =
  rget :: "'db \<Rightarrow> int \<Rightarrow> string \<Rightarrow> pydict option"
  rset :: "'db \<Rightarrow> int \<Rightarrow> string \<Rightarrow> pydict \<Rightarrow> int \<Rightarrow> 'db"

definition redis_ok :: "'db redis \<Rightarrow> bool" where
  "redis_ok R \<longleftrightarrow>
     (\<forall>kv t k v ex t' k'. t \<le> t' \<longrightarrow>
        rget R (rset R kv t k v ex) t' k' =
          (if k' = k then if t' < t + ex then Some v else None else rget R kv t' k'))"

text \<open>The address of the server.\<close>

definition redis_url_parts :: "redis_settings \<Rightarrow> string" where
  "redis_url_parts s =
     (if REDIS_SSL s then ''rediss'' else ''redis'') @ ''://'' @
     (if REDIS_PASSWORD s \<noteq> [] then '':'' @ REDIS_PASSWORD s @ ''@'' else []) @
     REDIS_HOST s @ '':'' @ show_int (REDIS_PORT s) @ ''/'' @ show_int (REDIS_DB s)"

definition redis_build_url :: "redis_settings \<Rightarrow> string" where
  "redis_build_url s =
     (case REDIS_URL s of
        Some u \<Rightarrow> if u \<noteq> [] then u else redis_url_parts s
      | None \<Rightarrow> redis_url_parts s)"

definition JOB_TTL_SECONDS :: int where
  "JOB_TTL_SECONDS = 3600"

definition job_key :: "string \<Rightarrow> string" where
  "job_key job_id = ''job:'' @ job_id"

definition opt_str :: "string option \<Rightarrow> pyval" where
  "opt_str x = (case x of None \<Rightarrow> PNone | Some s \<Rightarrow> PStr s)"

definition new_job :: "(int \<Rightarrow> string) \<Rightarrow> int \<Rightarrow> string \<Rightarrow> string \<Rightarrow> string option \<Rightarrow> pydict" where
  "new_job stamp t job_id job_type idempotency_key =
     [(''job_id'', PStr job_id), (''job_type'', PStr job_type), (''status'', PStr ''pending''),
      (''idempotency_key'', opt_str idempotency_key), (''result'', PNone), (''error'', PNone),
      (''created_at'', PStr (stamp t)), (''started_at'', PNone), (''completed_at'', PNone)]"

text \<open>\<open>job_id\<close> is the identifier the endpoint draws.\<close>

definition create_job ::
  "'db redis \<Rightarrow> (int \<Rightarrow> string) \<Rightarrow> string \<Rightarrow> string \<Rightarrow> string option \<Rightarrow> int \<Rightarrow> 'db \<Rightarrow> string \<times> 'db" where
  "create_job R stamp job_id job_type idempotency_key t kv =
     (job_id, rset R kv t (job_key job_id) (new_job stamp t job_id job_type idempotency_key) JOB_TTL_SECONDS)"

definition get_job :: "'db redis \<Rightarrow> 'db \<Rightarrow> int \<Rightarrow> string \<Rightarrow> pydict option" where
  "get_job R kv t job_id = rget R kv t (job_key job_id)"

definition update_job :: "'db redis \<Rightarrow> string \<Rightarrow> pydict \<Rightarrow> int \<Rightarrow> 'db \<Rightarrow> 'db" where
  "update_job R job_id changes t kv =
     (case rget R kv t (job_key job_id) of
        None \<Rightarrow> kv
      | Some d \<Rightarrow> rset R kv t (job_key job_id) (dmerge d changes) JOB_TTL_SECONDS)"

section \<open>Polling\<close>

record job_view =
  v_job_id :: string
  v_job_type :: string
  v_status :: string
  v_result :: "pydict option"
  v_error :: "string option"
  v_idempotency_key :: "string option"
  v_created_at :: string
  v_started_at :: "string option"
  v_completed_at :: "string option"

text \<open>The field types of the response model; a mismatch is a validation error.\<close>

fun str_field :: "pyval option \<Rightarrow> string res" where
  "str_field (Some (PStr s)) = Inr s"
| "str_field _ = Inl (ValueError ''JobStatusResponse'')"

fun opt_str_field :: "pyval option \<Rightarrow> string option res" where
  "opt_str_field None = Inr None"
| "opt_str_field (Some PNone) = Inr None"
| "opt_str_field (Some (PStr s)) = Inr (Some s)"
| "opt_str_field _ = Inl (ValueError ''JobStatusResponse'')"

fun opt_dict_field :: "pyval option \<Rightarrow> pydict option res" where
  "opt_dict_field None = Inr None"
| "opt_dict_field (Some PNone) = Inr None"
| "opt_dict_field (Some (PDict d)) = Inr (Some d)"
| "opt_dict_field _ = Inl (ValueError ''JobStatusResponse'')"

definition status_names :: "string list" where
  "status_names = [''pending'', ''running'', ''completed'', ''failed'']"

definition job_status_response :: "pydict \<Rightarrow> job_view res" where
  "job_status_response d =
     bindE (str_field (dget d ''job_id'')) (\<lambda>i.
     bindE (str_field (dget d ''job_type'')) (\<lambda>ty.
     bindE (str_field (dget d ''status'')) (\<lambda>st.
     bindE (if st \<in> set status_names then Inr () else Inl (ValueError ''JobStatusResponse'')) (\<lambda>_.
     bindE (opt_dict_field (dget d ''result'')) (\<lambda>res.
     bindE (opt_str_field (dget d ''error'')) (\<lambda>err.
     bindE (opt_str_field (dget d ''idempotency_key'')) (\<lambda>ik.
     bindE (str_field (dget d ''created_at'')) (\<lambda>c.
     bindE (opt_str_field (dget d ''started_at'')) (\<lambda>sa.
     bindE (opt_str_field (dget d ''completed_at'')) (\<lambda>ca.
     Inr \<lparr>v_job_id = i, v_job_type = ty, v_status = st, v_result = res, v_error = err, v_idempotency_key = ik,
          v_created_at = c, v_started_at = sa, v_completed_at = ca\<rparr>))))))))))"

definition get_job_status :: "'db redis \<Rightarrow> 'db \<Rightarrow> int \<Rightarrow> string \<Rightarrow> job_view res" where
  "get_job_status R kv t job_id =
     (case get_job R kv t job_id of
        None \<Rightarrow> Inl (HTTPException 404 (''Job '' @ [CHR 0x27] @ job_id @ [CHR 0x27] @ '' not found or expired''))
      | Some d \<Rightarrow> job_status_response d)"

text \<open>The endpoint of version 2 reads the same store.\<close>

definition get_job_status_v2 :: "'db redis \<Rightarrow> 'db \<Rightarrow> int \<Rightarrow> string \<Rightarrow> job_view res" where
  "get_job_status_v2 R kv t job_id =
     (case get_job R kv t job_id of
        None \<Rightarrow> Inl (HTTPException 404 (''Job '' @ [CHR 0x27] @ job_id @ [CHR 0x27] @ '' not found or expired''))
      | Some d \<Rightarrow> job_status_response d)"

section \<open>The Celery tasks\<close>

definition running_update :: "(int \<Rightarrow> string) \<Rightarrow> int \<Rightarrow> pydict" where
  "running_update stamp t = [(''status'', PStr ''running''), (''started_at'', PStr (stamp t))]"

definition completed_update :: "(int \<Rightarrow> string) \<Rightarrow> int \<Rightarrow> pydict \<Rightarrow> pydict" where
  "completed_update stamp t result =
     [(''status'', PStr ''completed''), (''result'', PDict result), (''completed_at'', PStr (stamp t))]"

definition failed_update :: "(int \<Rightarrow> string) \<Rightarrow> int \<Rightarrow> string \<Rightarrow> pydict" where
  "failed_update stamp t msg =
     [(''status'', PStr ''failed''), (''error'', PStr msg), (''completed_at'', PStr (stamp t))]"

text \<open>
  One execution of the task body, from its start to its end. \<open>svc\<close> is the evaluation during this
  execution, which asks a language model; \<open>msg_of\<close> is \<open>str(exc)\<close>.
\<close>

definition task_body ::
  "'db redis \<Rightarrow> (int \<Rightarrow> string) \<Rightarrow> (exn \<Rightarrow> string) \<Rightarrow> string \<Rightarrow> pydict \<Rightarrow> int \<times> int \<times> (pydict \<Rightarrow> pydict res) \<Rightarrow> 'db \<Rightarrow>
   'db \<times> pydict res" where
  "task_body R stamp msg_of job_id payload run kv =
     (let (t0, t1, svc) = run;
          kv = update_job R job_id (running_update stamp t0) t0 kv in
      case svc payload of
        Inr result \<Rightarrow> (update_job R job_id (completed_update stamp t1 result) t1 kv, Inr result)
      | Inl e \<Rightarrow> (update_job R job_id (failed_update stamp t1 (msg_of e)) t1 kv, Inl e))"

definition max_retries :: nat where
  "max_retries = 3"

text \<open>
  The task with its retries: \<open>again n\<close> says whether the queue schedules the task once more after \<open>n\<close>
  retries, \<open>runs\<close> are the executions the workers perform. The outcome is \<open>None\<close> while the next execution
  has not happened.
\<close>

fun run_task ::
  "'db redis \<Rightarrow> (int \<Rightarrow> string) \<Rightarrow> (exn \<Rightarrow> string) \<Rightarrow> (nat \<Rightarrow> bool) \<Rightarrow> string \<Rightarrow> pydict \<Rightarrow> nat \<Rightarrow>
   (int \<times> int \<times> (pydict \<Rightarrow> pydict res)) list \<Rightarrow> 'db \<Rightarrow> 'db \<times> pydict res option" where
  "run_task R stamp msg_of again job_id payload n [] kv = (kv, None)"
| "run_task R stamp msg_of again job_id payload n (run # runs) kv =
     (case task_body R stamp msg_of job_id payload run kv of
        (kv, Inr result) \<Rightarrow> (kv, Some (Inr result))
      | (kv, Inl e) \<Rightarrow>
          if again n then run_task R stamp msg_of again job_id payload (Suc n) runs kv else (kv, Some (Inl e)))"

text \<open>The multi-turn task differs in the evaluation it calls only, which is part of \<open>runs\<close>.\<close>

abbreviation ragas_multi_turn_task ::
  "'db redis \<Rightarrow> (int \<Rightarrow> string) \<Rightarrow> (exn \<Rightarrow> string) \<Rightarrow> (nat \<Rightarrow> bool) \<Rightarrow> string \<Rightarrow> pydict \<Rightarrow> nat \<Rightarrow>
   (int \<times> int \<times> (pydict \<Rightarrow> pydict res)) list \<Rightarrow> 'db \<Rightarrow> 'db \<times> pydict res option" where
  "ragas_multi_turn_task \<equiv> run_task"

section \<open>Lemmas on the store\<close>

lemma redis_get_set:
  assumes "redis_ok R" "t \<le> t'"
  shows "rget R (rset R kv t k v ex) t' k' = (if k' = k then if t' < t + ex then Some v else None else rget R kv t' k')"
  using assms unfolding redis_ok_def by blast

lemma job_key_inject [simp]: "job_key i = job_key j \<longleftrightarrow> i = j"
  by (simp add: job_key_def)

lemma get_update_same:
  assumes "redis_ok R" "get_job R kv t i = Some d" "t \<le> t'"
  shows "get_job R (update_job R i c t kv) t' i = (if t' < t + JOB_TTL_SECONDS then Some (dmerge d c) else None)"
  using assms redis_get_set [OF assms(1,3)] by (simp add: get_job_def update_job_def)

lemma get_update_other:
  assumes "redis_ok R" "j \<noteq> i" "t \<le> t'"
  shows "get_job R (update_job R i c t kv) t' j = get_job R kv t' j"
  using redis_get_set [OF assms(1,3)] assms(2) by (auto simp: get_job_def update_job_def split: option.splits)

lemma update_missing: "get_job R kv t i = None \<Longrightarrow> update_job R i c t kv = kv"
  by (simp add: get_job_def update_job_def)

lemma get_create:
  assumes "redis_ok R" "t \<le> t'"
  shows "get_job R (snd (create_job R stamp i ty ik t kv)) t' j =
    (if j = i then if t' < t + JOB_TTL_SECONDS then Some (new_job stamp t i ty ik) else None else get_job R kv t' j)"
  using redis_get_set [OF assms] by (simp add: get_job_def create_job_def)

section \<open>Tasks on documents\<close>

text \<open>What an execution does to the document of its job, and the task as a whole.\<close>

definition doc_after ::
  "(int \<Rightarrow> string) \<Rightarrow> (exn \<Rightarrow> string) \<Rightarrow> pydict \<Rightarrow> int \<times> int \<times> (pydict \<Rightarrow> pydict res) \<Rightarrow> pydict \<Rightarrow> pydict" where
  "doc_after stamp msg_of payload run d =
     (let (t0, t1, svc) = run in
      dmerge (dmerge d (running_update stamp t0))
        (case svc payload of
           Inr result \<Rightarrow> completed_update stamp t1 result
         | Inl e \<Rightarrow> failed_update stamp t1 (msg_of e)))"

fun last_time :: "int \<Rightarrow> (int \<times> int \<times> 'a) list \<Rightarrow> int" where
  "last_time t [] = t"
| "last_time t ((t0, t1, svc) # runs) = last_time t1 runs"

text \<open>Executions in time order, each starting and ending before the document expires.\<close>

fun timely :: "int \<Rightarrow> (int \<times> int \<times> 'a) list \<Rightarrow> bool" where
  "timely t [] \<longleftrightarrow> True"
| "timely t ((t0, t1, svc) # runs) \<longleftrightarrow>
     t \<le> t0 \<and> t0 < t + JOB_TTL_SECONDS \<and> t0 \<le> t1 \<and> t1 < t0 + JOB_TTL_SECONDS \<and> timely t1 runs"

lemma task_body_outcome: "snd (task_body R stamp msg_of i payload (t0, t1, svc) kv) = svc payload"
  by (simp add: task_body_def Let_def split: sum.splits)

lemma task_body_doc:
  assumes R: "redis_ok R" and d: "get_job R kv t0 i = Some d"
    and t: "t0 \<le> t1" "t1 < t0 + JOB_TTL_SECONDS" "t1 \<le> t'"
  shows "get_job R (fst (task_body R stamp msg_of i payload (t0, t1, svc) kv)) t' i =
    (if t' < t1 + JOB_TTL_SECONDS then Some (doc_after stamp msg_of payload (t0, t1, svc) d) else None)"
proof -
  have "get_job R (update_job R i (running_update stamp t0) t0 kv) t1 i = Some (dmerge d (running_update stamp t0))"
    using get_update_same [OF R d t(1)] t(2) by simp
  from get_update_same [OF R this t(3)] show ?thesis
    by (simp add: task_body_def doc_after_def Let_def split: sum.splits)
qed

lemma task_body_other:
  assumes "redis_ok R" "j \<noteq> i" "t0 \<le> t1" "t1 \<le> t'"
  shows "get_job R (fst (task_body R stamp msg_of i payload (t0, t1, svc) kv)) t' j = get_job R kv t' j"
  using assms by (simp add: task_body_def Let_def get_update_other split: sum.splits)

text \<open>Failed executions and the one that ends the task, by a result or because no retry is left.\<close>

lemma run_task_ends:
  assumes R: "redis_ok R" and again: "\<And>m. again m \<longleftrightarrow> m < max_retries"
    and fails: "list_all (\<lambda>(t0, t1, svc). \<not> is_ok (svc payload)) failed"
    and len: "n + length failed \<le> max_retries" and ends: "is_ok (svc payload) \<or> n + length failed = max_retries"
    and d: "get_job R kv start i = Some d" and alive: "\<And>s. start \<le> s \<Longrightarrow> s < start + JOB_TTL_SECONDS \<Longrightarrow> get_job R kv s i = Some d"
    and tm: "timely start (failed @ (t0, t1, svc) # rest)" and t: "t1 \<le> t" "t < t1 + JOB_TTL_SECONDS"
  shows "snd (run_task R stamp msg_of again i payload n (failed @ (t0, t1, svc) # rest) kv) = Some (svc payload) \<and>
    get_job R (fst (run_task R stamp msg_of again i payload n (failed @ (t0, t1, svc) # rest) kv)) t i =
      Some (doc_after stamp msg_of payload (t0, t1, svc) (fold (doc_after stamp msg_of payload) failed d))"
  using fails len ends d alive tm
proof (induction failed arbitrary: n kv d start)
  case Nil
  have "get_job R kv t0 i = Some d" using Nil by simp
  from task_body_doc [OF R this, of t1 t] Nil.prems t
  have g: "get_job R (fst (task_body R stamp msg_of i payload (t0, t1, svc) kv)) t i =
      Some (doc_after stamp msg_of payload (t0, t1, svc) d)" by simp
  obtain kv' where b: "task_body R stamp msg_of i payload (t0, t1, svc) kv = (kv', svc payload)"
    using task_body_outcome [of R stamp msg_of i payload t0 t1 svc kv] by (metis prod.collapse)
  with g Nil.prems show ?case by (cases "svc payload") (simp_all add: again)
next
  case (Cons f failed)
  obtain a b s where f: "f = (a, b, s)" by (metis prod_cases3)
  with Cons.prems obtain e where e: "s payload = Inl e" by (cases "s payload") auto
  obtain kv' where b: "task_body R stamp msg_of i payload (a, b, s) kv = (kv', Inl e)"
    using task_body_outcome [of R stamp msg_of i payload a b s kv] e by (metis prod.collapse)
  have da: "get_job R kv a i = Some d" using Cons.prems f by simp
  have alive': "get_job R kv' u i = Some (doc_after stamp msg_of payload f d)" if "b \<le> u" "u < b + JOB_TTL_SECONDS" for u
    using task_body_doc [OF R da, of b u stamp msg_of payload s] Cons.prems f b that by simp
  have "again n" using again Cons.prems by simp
  moreover have "get_job R kv' b i = Some (doc_after stamp msg_of payload f d)"
    using alive' [of b] by (simp add: JOB_TTL_SECONDS_def)
  moreover have "list_all (\<lambda>(t0, t1, svc). \<not> is_ok (svc payload)) failed" "Suc n + length failed \<le> max_retries"
    "is_ok (svc payload) \<or> Suc n + length failed = max_retries" "timely b (failed @ (t0, t1, svc) # rest)" using Cons.prems f by auto
  ultimately show ?case using Cons.IH [of "Suc n" kv' b "doc_after stamp msg_of payload f d"] alive' b f
    by simp
qed

section \<open>Documents\<close>

lemma updates_wf [simp]:
  "dict_wf (running_update stamp t)" "dict_wf (completed_update stamp t r)" "dict_wf (failed_update stamp t m)"
  by (simp_all add: running_update_def completed_update_def failed_update_def)

lemma dget_updates:
  "dget (running_update stamp t) k =
     (if k = ''status'' then Some (PStr ''running'') else if k = ''started_at'' then Some (PStr (stamp t)) else None)"
  "dget (completed_update stamp t r) k =
     (if k = ''status'' then Some (PStr ''completed'') else if k = ''result'' then Some (PDict r)
      else if k = ''completed_at'' then Some (PStr (stamp t)) else None)"
  "dget (failed_update stamp t m) k =
     (if k = ''status'' then Some (PStr ''failed'') else if k = ''error'' then Some (PStr m)
      else if k = ''completed_at'' then Some (PStr (stamp t)) else None)"
  by (simp_all add: running_update_def completed_update_def failed_update_def)

lemma doc_after_completed:
  assumes "svc payload = Inr r"
  shows "dget (doc_after stamp msg_of payload (t0, t1, svc) d) k =
    (if k = ''status'' then Some (PStr ''completed'') else if k = ''result'' then Some (PDict r)
     else if k = ''completed_at'' then Some (PStr (stamp t1)) else if k = ''started_at'' then Some (PStr (stamp t0))
     else dget d k)"
  using assms
  by (simp add: doc_after_def dget_dmerge dget_updates)

lemma doc_after_failed:
  assumes "svc payload = Inl e"
  shows "dget (doc_after stamp msg_of payload (t0, t1, svc) d) k =
    (if k = ''status'' then Some (PStr ''failed'') else if k = ''error'' then Some (PStr (msg_of e))
     else if k = ''completed_at'' then Some (PStr (stamp t1)) else if k = ''started_at'' then Some (PStr (stamp t0))
     else dget d k)"
  using assms
  by (simp add: doc_after_def dget_dmerge dget_updates)

text \<open>The error text that a series of failures leaves behind.\<close>

fun last_error :: "(exn \<Rightarrow> string) \<Rightarrow> pydict \<Rightarrow> (int \<times> int \<times> (pydict \<Rightarrow> pydict res)) list \<Rightarrow> string option" where
  "last_error msg_of payload [] = None"
| "last_error msg_of payload ((t0, t1, svc) # runs) =
     (case last_error msg_of payload runs of
        Some m \<Rightarrow> Some m
      | None \<Rightarrow> (case svc payload of Inl e \<Rightarrow> Some (msg_of e) | Inr r \<Rightarrow> None))"

lemma fold_failed_keeps:
  assumes "list_all (\<lambda>(t0, t1, svc). \<not> is_ok (svc payload)) failed"
    "k \<notin> {''status'', ''error'', ''started_at'', ''completed_at''}"
  shows "dget (fold (doc_after stamp msg_of payload) failed d) k = dget d k"
  using assms
proof (induction failed arbitrary: d)
  case (Cons f failed)
  obtain a b s where f: "f = (a, b, s)" by (metis prod_cases3)
  with Cons.prems obtain e where e: "s payload = Inl e" by (cases "s payload") auto
  from Cons f doc_after_failed [of s payload e, OF e] show ?case by simp
qed simp

lemma fold_failed_error:
  assumes "list_all (\<lambda>(t0, t1, svc). \<not> is_ok (svc payload)) failed"
  shows "dget (fold (doc_after stamp msg_of payload) failed d) ''error'' =
      (case last_error msg_of payload failed of Some m \<Rightarrow> Some (PStr m) | None \<Rightarrow> dget d ''error'')"
  using assms
proof (induction failed arbitrary: d)
  case (Cons f failed)
  obtain a b s where f: "f = (a, b, s)" by (metis prod_cases3)
  with Cons.prems obtain e where e: "s payload = Inl e" by (cases "s payload") auto
  from Cons f e doc_after_failed [of s payload e, OF e] show ?case by (simp split: option.splits)
qed simp

lemmas fold_failed = fold_failed_keeps fold_failed_error

text \<open>The final document of a job that started as a new one, as the polling endpoint shows it.\<close>

lemma final_view_completed:
  assumes "list_all (\<lambda>(t0, t1, svc). \<not> is_ok (svc payload)) failed" "svc payload = Inr r"
  shows "job_status_response (doc_after stamp msg_of payload (t0, t1, svc)
      (fold (doc_after stamp msg_of payload) failed (new_job stamp t i ty ik))) =
    Inr \<lparr>v_job_id = i, v_job_type = ty, v_status = ''completed'', v_result = Some r,
         v_error = last_error msg_of payload failed, v_idempotency_key = ik, v_created_at = stamp t,
         v_started_at = Some (stamp t0), v_completed_at = Some (stamp t1)\<rparr>"
  by (simp add: job_status_response_def doc_after_completed [of svc payload r, OF assms(2)] fold_failed [OF assms(1)] new_job_def
      status_names_def opt_str_def split: option.splits)

lemma final_view_failed:
  assumes "list_all (\<lambda>(t0, t1, svc). \<not> is_ok (svc payload)) failed" "svc payload = Inl e"
  shows "job_status_response (doc_after stamp msg_of payload (t0, t1, svc)
      (fold (doc_after stamp msg_of payload) failed (new_job stamp t i ty ik))) =
    Inr \<lparr>v_job_id = i, v_job_type = ty, v_status = ''failed'', v_result = None,
         v_error = Some (msg_of e), v_idempotency_key = ik, v_created_at = stamp t,
         v_started_at = Some (stamp t0), v_completed_at = Some (stamp t1)\<rparr>"
  by (simp add: job_status_response_def doc_after_failed [of svc payload e, OF assms(2)] fold_failed [OF assms(1)] new_job_def
      status_names_def opt_str_def split: option.splits)

section \<open>Properties\<close>

text \<open>
  C14: A job that is created and whose task succeeds after at most three failed executions is polled as
  completed with the result of the successful execution, for an hour after its end, provided no two
  writes of the document are an hour apart. The error text of the last failed execution stays in it.
\<close>

theorem retried_job_completes:
  assumes "redis_ok R" and "\<And>m. again m \<longleftrightarrow> m < max_retries"
    and "list_all (\<lambda>(t0, t1, svc). \<not> is_ok (svc payload)) failed" and "length failed \<le> max_retries"
    and "svc payload = Inr r"
    and "timely t (failed @ (t0, t1, svc) # rest)" and "t1 \<le> now" and "now < t1 + JOB_TTL_SECONDS"
  shows "\<exists>kv'. run_task R stamp msg_of again i payload 0 (failed @ (t0, t1, svc) # rest)
        (snd (create_job R stamp i ty ik t kv)) = (kv', Some (Inr r)) \<and>
    get_job_status R kv' now i =
      Inr \<lparr>v_job_id = i, v_job_type = ty, v_status = ''completed'', v_result = Some r,
           v_error = last_error msg_of payload failed, v_idempotency_key = ik, v_created_at = stamp t,
           v_started_at = Some (stamp t0), v_completed_at = Some (stamp t1)\<rparr>"
proof -
  let ?kv = "snd (create_job R stamp i ty ik t kv)"
  have alive: "get_job R ?kv s i = Some (new_job stamp t i ty ik)" if "t \<le> s" "s < t + JOB_TTL_SECONDS" for s
    using get_create [OF assms(1) that(1)] that(2) by simp
  then have "get_job R ?kv t i = Some (new_job stamp t i ty ik)" by (simp add: JOB_TTL_SECONDS_def)
  from run_task_ends [OF assms(1-3) _ _ this alive assms(6-8), of 0] assms(4,5)
  show ?thesis using final_view_completed [of payload failed svc r, OF assms(3,5)]
    by (intro exI [of _ "fst (run_task R stamp msg_of again i payload 0 (failed @ (t0, t1, svc) # rest) ?kv)"])
       (simp add: get_job_status_def prod_eq_iff)
qed

text \<open>A server that keeps each key with its deadline.\<close>

definition table_redis :: "(string, pydict \<times> int) dict redis" where
  "table_redis =
     \<lparr>rget = (\<lambda>kv t k. case dget kv k of
                 None \<Rightarrow> None
               | Some (v, deadline) \<Rightarrow> if t < deadline then Some v else None),
      rset = (\<lambda>kv t k v ex. dset kv k (v, t + ex))\<rparr>"

lemma table_redis_ok: "redis_ok table_redis"
  by (auto simp: redis_ok_def table_redis_def split: option.splits)

lemma four_executions: "(\<lambda>n. n < max_retries) m \<longleftrightarrow> m < max_retries"
  by simp

theorem retried_job_completes_witness:
  "\<exists>kv. run_task table_redis (\<lambda>t. ''now'') (\<lambda>e. ''lost'') (\<lambda>n. n < max_retries) ''j'' [] 0
      ([(10, 20, \<lambda>p. Inl KeyError)] @ (30, 40, \<lambda>p. Inr [(''scores'', PDict [])]) # [])
      (snd (create_job table_redis (\<lambda>t. ''now'') ''j'' ''ragas_single_turn'' None 0 [])) =
        (kv, Some (Inr [(''scores'', PDict [])])) \<and>
    get_job_status table_redis kv 100 ''j'' =
      Inr \<lparr>v_job_id = ''j'', v_job_type = ''ragas_single_turn'', v_status = ''completed'',
           v_result = Some [(''scores'', PDict [])], v_error = Some ''lost'', v_idempotency_key = None,
           v_created_at = ''now'', v_started_at = Some ''now'', v_completed_at = Some ''now''\<rparr>"
  using retried_job_completes [OF table_redis_ok four_executions,
      of "[]" "[(10, 20, \<lambda>p. Inl KeyError)]" "\<lambda>p. Inr [(''scores'', PDict [])]" "[(''scores'', PDict [])]" 0 30 40 "[]" 100
        "\<lambda>t. ''now''" "\<lambda>e. ''lost''" "''j''" "''ragas_single_turn''" None "[]"]
  by (simp add: max_retries_def JOB_TTL_SECONDS_def)

text \<open>
  A job whose four executions all fail is given up: the task ends with the last error, and the job
  is polled as failed with that error's text and no result. No fifth execution takes place.
\<close>

theorem exhausted_job_fails:
  assumes "redis_ok R" and "\<And>m. again m \<longleftrightarrow> m < max_retries"
    and "list_all (\<lambda>(t0, t1, svc). \<not> is_ok (svc payload)) failed" and "length failed = max_retries"
    and "svc payload = Inl e"
    and "timely t (failed @ (t0, t1, svc) # rest)" and "t1 \<le> now" and "now < t1 + JOB_TTL_SECONDS"
  shows "\<exists>kv'. run_task R stamp msg_of again i payload 0 (failed @ (t0, t1, svc) # rest)
        (snd (create_job R stamp i ty ik t kv)) = (kv', Some (Inl e)) \<and>
    get_job_status R kv' now i =
      Inr \<lparr>v_job_id = i, v_job_type = ty, v_status = ''failed'', v_result = None,
           v_error = Some (msg_of e), v_idempotency_key = ik, v_created_at = stamp t,
           v_started_at = Some (stamp t0), v_completed_at = Some (stamp t1)\<rparr>"
proof -
  let ?kv = "snd (create_job R stamp i ty ik t kv)"
  have alive: "get_job R ?kv s i = Some (new_job stamp t i ty ik)" if "t \<le> s" "s < t + JOB_TTL_SECONDS" for s
    using get_create [OF assms(1) that(1)] that(2) by simp
  then have "get_job R ?kv t i = Some (new_job stamp t i ty ik)" by (simp add: JOB_TTL_SECONDS_def)
  from run_task_ends [OF assms(1-3) _ _ this alive assms(6-8), of 0] assms(4,5)
  show ?thesis using final_view_failed [of payload failed svc e, OF assms(3,5)]
    by (intro exI [of _ "fst (run_task R stamp msg_of again i payload 0 (failed @ (t0, t1, svc) # rest) ?kv)"])
       (simp add: get_job_status_def prod_eq_iff)
qed

theorem exhausted_job_fails_witness:
  "\<exists>kv. run_task table_redis (\<lambda>t. ''now'') (\<lambda>e. ''lost'') (\<lambda>n. n < max_retries) ''j'' [] 0
      ([(1, 2, \<lambda>p. Inl KeyError), (7, 8, \<lambda>p. Inl KeyError), (13, 14, \<lambda>p. Inl KeyError)] @
        (19, 20, \<lambda>p. Inl TypeError) # [(25, 26, \<lambda>p. Inr [])])
      (snd (create_job table_redis (\<lambda>t. ''now'') ''j'' ''ragas_single_turn'' None 0 [])) = (kv, Some (Inl TypeError)) \<and>
    get_job_status table_redis kv 100 ''j'' =
      Inr \<lparr>v_job_id = ''j'', v_job_type = ''ragas_single_turn'', v_status = ''failed'', v_result = None,
           v_error = Some ''lost'', v_idempotency_key = None,
           v_created_at = ''now'', v_started_at = Some ''now'', v_completed_at = Some ''now''\<rparr>"
  using exhausted_job_fails [OF table_redis_ok four_executions,
      of "[]" "[(1, 2, \<lambda>p. Inl KeyError), (7, 8, \<lambda>p. Inl KeyError), (13, 14, \<lambda>p. Inl KeyError)]"
        "\<lambda>p. Inl TypeError" TypeError 0 19 20 "[(25, 26, \<lambda>p. Inr [])]" 100
        "\<lambda>t. ''now''" "\<lambda>e. ''lost''" "''j''" "''ragas_single_turn''" None "[]"]
  by (simp add: max_retries_def JOB_TTL_SECONDS_def)

text \<open>Executions that start after the document has expired do not bring it back.\<close>

lemma run_task_gone:
  assumes gone: "\<And>s. dead \<le> s \<Longrightarrow> get_job R kv s i = None"
    and late: "list_all (\<lambda>(t0, t1, svc). dead \<le> t0 \<and> dead \<le> t1) runs"
  shows "fst (run_task R stamp msg_of again i payload n runs kv) = kv"
  using late
proof (induction runs arbitrary: n)
  case (Cons run runs)
  obtain t0 t1 svc where run: "run = (t0, t1, svc)" by (metis prod_cases3)
  with Cons.prems have "get_job R kv t0 i = None" "get_job R kv t1 i = None" using gone by auto
  then have "task_body R stamp msg_of i payload run kv = (kv, svc payload)"
    using run by (simp add: task_body_def update_missing split: sum.splits)
  with Cons show ?case by (simp split: sum.splits)
qed simp

text \<open>
  A job that no worker picks up within an hour of its creation is lost: whatever the later
  executions yield, the store stays as it is and every poll from then on answers 404.
\<close>

theorem late_job_lost:
  assumes "redis_ok R" and "list_all (\<lambda>(t0, t1, svc). t + JOB_TTL_SECONDS \<le> t0 \<and> t0 \<le> t1) runs"
    and "t + JOB_TTL_SECONDS \<le> now"
  shows "fst (run_task R stamp msg_of again i payload 0 runs (snd (create_job R stamp i ty ik t kv))) =
      snd (create_job R stamp i ty ik t kv) \<and>
    get_job_status R (snd (create_job R stamp i ty ik t kv)) now i =
      Inl (HTTPException 404 (''Job '' @ [CHR 0x27] @ i @ [CHR 0x27] @ '' not found or expired''))"
proof -
  let ?kv = "snd (create_job R stamp i ty ik t kv)"
  have gone: "get_job R ?kv s i = None" if "t + JOB_TTL_SECONDS \<le> s" for s
    using get_create [OF assms(1), of t s] that by (simp add: JOB_TTL_SECONDS_def)
  have "list_all (\<lambda>(t0, t1, svc). t + JOB_TTL_SECONDS \<le> t0 \<and> t + JOB_TTL_SECONDS \<le> t1) runs"
    using assms(2) by (induction runs) auto
  from run_task_gone [OF gone this] gone [OF assms(3)] show ?thesis by (simp add: get_job_status_def)
qed

theorem late_job_lost_witness:
  "get_job_status table_redis (snd (create_job table_redis (\<lambda>t. ''now'') ''j'' ''ragas_single_turn'' None 0 [])) 5000 ''j'' =
     Inl (HTTPException 404 (''Job '' @ [CHR 0x27] @ ''j'' @ [CHR 0x27] @ '' not found or expired''))"
  using late_job_lost [OF table_redis_ok, of 0 "[(4000, 4100, \<lambda>p. Inr [])]" 5000 "\<lambda>t. ''now''" "\<lambda>e. []"
      "\<lambda>n. True" "''j''" "[]" "''ragas_single_turn''" None "[]"]
  by (simp add: JOB_TTL_SECONDS_def)

section \<open>The store as a state machine\<close>

text \<open>
  The writes that the endpoints and any number of workers, of both versions, perform, in any order;
  the state is the store and the current time.
\<close>

inductive jobs_reachable :: "'db redis \<Rightarrow> (int \<Rightarrow> string) \<Rightarrow> 'db \<Rightarrow> int \<Rightarrow> bool" for R stamp where
  start: "(\<And>i s. get_job R kv s i = None) \<Longrightarrow> jobs_reachable R stamp kv t"
| wait: "jobs_reachable R stamp kv t \<Longrightarrow> t \<le> t' \<Longrightarrow> jobs_reachable R stamp kv t'"
| create: "jobs_reachable R stamp kv t \<Longrightarrow> create_job R stamp i ty ik t kv = (i', kv') \<Longrightarrow> jobs_reachable R stamp kv' t"
| running: "jobs_reachable R stamp kv t \<Longrightarrow> jobs_reachable R stamp (update_job R i (running_update stamp t) t kv) t"
| completed: "jobs_reachable R stamp kv t \<Longrightarrow> jobs_reachable R stamp (update_job R i (completed_update stamp t r) t kv) t"
| failed: "jobs_reachable R stamp kv t \<Longrightarrow> jobs_reachable R stamp (update_job R i (failed_update stamp t m) t kv) t"

definition opt_ok :: "pydict \<Rightarrow> string \<Rightarrow> bool" where
  "opt_ok d k \<longleftrightarrow> dget d k = Some PNone \<or> (\<exists>s. dget d k = Some (PStr s))"

definition doc_ok :: "string \<Rightarrow> pydict \<Rightarrow> bool" where
  "doc_ok i d \<longleftrightarrow>
     dget d ''job_id'' = Some (PStr i) \<and> (\<exists>s. dget d ''job_type'' = Some (PStr s)) \<and>
     (\<exists>s\<in>set status_names. dget d ''status'' = Some (PStr s)) \<and>
     (dget d ''result'' = Some PNone \<or> (\<exists>r. dget d ''result'' = Some (PDict r))) \<and>
     opt_ok d ''error'' \<and> opt_ok d ''idempotency_key'' \<and> (\<exists>s. dget d ''created_at'' = Some (PStr s)) \<and>
     opt_ok d ''started_at'' \<and> opt_ok d ''completed_at'' \<and>
     (dget d ''status'' = Some (PStr ''completed'') \<longrightarrow>
        (\<exists>r. dget d ''result'' = Some (PDict r)) \<and> (\<exists>s. dget d ''completed_at'' = Some (PStr s))) \<and>
     (dget d ''status'' = Some (PStr ''failed'') \<longrightarrow>
        (\<exists>s. dget d ''error'' = Some (PStr s)) \<and> (\<exists>s. dget d ''completed_at'' = Some (PStr s)))"

lemma doc_ok_new: "doc_ok i (new_job stamp t i ty ik)"
  by (simp add: doc_ok_def new_job_def opt_ok_def opt_str_def status_names_def split: option.splits)

lemma doc_ok_running: "doc_ok i d \<Longrightarrow> doc_ok i (dmerge d (running_update stamp t))"
  by (simp add: doc_ok_def opt_ok_def dget_dmerge dget_updates status_names_def)

lemma doc_ok_completed: "doc_ok i d \<Longrightarrow> doc_ok i (dmerge d (completed_update stamp t r))"
  by (simp add: doc_ok_def opt_ok_def dget_dmerge dget_updates status_names_def)

lemma doc_ok_failed: "doc_ok i d \<Longrightarrow> doc_ok i (dmerge d (failed_update stamp t m))"
  by (simp add: doc_ok_def opt_ok_def dget_dmerge dget_updates status_names_def)

lemmas doc_ok_updates = doc_ok_running doc_ok_completed doc_ok_failed

lemma update_keeps_ok:
  assumes R: "redis_ok R" and inv: "\<And>j s d. t \<le> s \<Longrightarrow> get_job R kv s j = Some d \<Longrightarrow> doc_ok j d"
    and upd: "\<And>d. doc_ok i d \<Longrightarrow> doc_ok i (dmerge d c)" and s: "t \<le> s" "get_job R (update_job R i c t kv) s j = Some d"
  shows "doc_ok j d"
proof (cases "j = i")
  case True
  show ?thesis
  proof (cases "get_job R kv t i")
    case None
    then show ?thesis using s inv [OF s(1)] update_missing [OF None] by simp
  next
    case (Some d0)
    then have "doc_ok i d0" using inv [of t] by simp
    with get_update_same [OF R Some s(1)] s(2) True upd show ?thesis by (auto split: if_splits)
  qed
next
  case False
  then show ?thesis using get_update_other [OF R False s(1)] s inv [OF s(1)] by simp
qed

lemma reachable_docs_ok:
  assumes "jobs_reachable R stamp kv t" "redis_ok R"
  shows "t \<le> s \<Longrightarrow> get_job R kv s j = Some d \<Longrightarrow> doc_ok j d"
  using assms
proof (induction arbitrary: s j d rule: jobs_reachable.induct)
  case (wait kv t t')
  then show ?case by (meson order_trans)
next
  case (create kv t i ty ik i' kv')
  then have "kv' = snd (create_job R stamp i ty ik t kv)" by simp
  with create get_create [OF \<open>redis_ok R\<close> \<open>t \<le> s\<close>] show ?case by (auto simp: doc_ok_new split: if_splits)
next
  case (running kv t i)
  show ?case
    by (rule update_keeps_ok [OF running.prems(3) _ doc_ok_running running.prems(1,2)])
       (use running.IH running.prems(3) in blast)
next
  case (completed kv t i r)
  show ?case
    by (rule update_keeps_ok [OF completed.prems(3) _ doc_ok_completed completed.prems(1,2)])
       (use completed.IH completed.prems(3) in blast)
next
  case (failed kv t i m)
  show ?case
    by (rule update_keeps_ok [OF failed.prems(3) _ doc_ok_failed failed.prems(1,2)])
       (use failed.IH failed.prems(3) in blast)
qed auto

lemma doc_ok_response:
  assumes "doc_ok i d"
  shows "\<exists>v. job_status_response d = Inr v \<and> v_job_id v = i \<and> v_status v \<in> set status_names \<and>
    (v_status v = ''completed'' \<longrightarrow> v_result v \<noteq> None \<and> v_completed_at v \<noteq> None) \<and>
    (v_status v = ''failed'' \<longrightarrow> v_error v \<noteq> None \<and> v_completed_at v \<noteq> None)"
  using assms by (auto simp: doc_ok_def opt_ok_def job_status_response_def)

text \<open>
  C9: Whatever writes the endpoints and the workers of both versions interleave, polling never fails
  internally: it answers 404 or a well-formed view of that job in one of the four states; a
  completed job has a result, a failed one an error text, and both a completion time.
\<close>

theorem polling_total:
  assumes "redis_ok R" and "jobs_reachable R stamp kv t" and "t \<le> now"
  shows "get_job_status R kv now i =
      Inl (HTTPException 404 (''Job '' @ [CHR 0x27] @ i @ [CHR 0x27] @ '' not found or expired'')) \<or>
    (\<exists>v. get_job_status R kv now i = Inr v \<and> v_job_id v = i \<and> v_status v \<in> set status_names \<and>
      (v_status v = ''completed'' \<longrightarrow> v_result v \<noteq> None \<and> v_completed_at v \<noteq> None) \<and>
      (v_status v = ''failed'' \<longrightarrow> v_error v \<noteq> None \<and> v_completed_at v \<noteq> None))"
proof (cases "get_job R kv now i")
  case (Some d)
  from doc_ok_response [OF reachable_docs_ok [OF assms(2,1,3) Some]] Some show ?thesis
    by (auto simp: get_job_status_def)
qed (simp add: get_job_status_def)

theorem polling_total_witness:
  "\<exists>v. get_job_status table_redis
      (update_job table_redis ''j'' (running_update (\<lambda>t. ''now'') 5) 5
        (snd (create_job table_redis (\<lambda>t. ''now'') ''j'' ''ragas_single_turn'' None 5 []))) 9 ''j'' = Inr v \<and> v_status v = ''running''"
proof -
  let ?kv = "snd (create_job table_redis (\<lambda>t. ''now'') ''j'' ''ragas_single_turn'' None 5 [])"
  have "jobs_reachable table_redis (\<lambda>t. ''now'') [] 5"
    by (rule jobs_reachable.start) (simp add: get_job_def table_redis_def)
  then have "jobs_reachable table_redis (\<lambda>t. ''now'') ?kv 5"
    by (rule jobs_reachable.create) (rule surjective_pairing)
  then have "jobs_reachable table_redis (\<lambda>t. ''now'') (update_job table_redis ''j'' (running_update (\<lambda>t. ''now'') 5) 5 ?kv) 5"
    by (rule jobs_reachable.running)
  from polling_total [OF table_redis_ok this, of 9 "''j''"] show ?thesis
    by (simp add: get_job_status_def get_job_def update_job_def create_job_def table_redis_def JOB_TTL_SECONDS_def
        new_job_def running_update_def dmerge_def job_status_response_def status_names_def opt_str_def)
qed

end
