(* ===== verification/Dispatch.thy ===== *)
theory Dispatch
  imports Job_Store Evaluation
begin

text \<open>
  Asynchronous evaluation: the endpoints that enqueue a job (\<open>app/api/v1/eval_router.py\<close>,
  \<open>app/api/v2/eval_router.py\<close>), the Kafka publisher (\<open>app/infra/event_bus/kafka.py\<close>), the events
  (\<open>app/infra/event_bus/events.py\<close>) and the worker of version 2 (\<open>app/workers/eval_worker.py\<close>). The Celery
  broker (\<open>delay\<close>) and the Kafka broker (\<open>send\<close>) are parameters that accept or raise. Identifiers and times
  that the code draws are arguments.
\<close>

section \<open>Payloads\<close>

definition strs :: "string list \<Rightarrow> pyval" where
  "strs xs = PList (map PStr xs)"

definition opt_strs :: "string list option \<Rightarrow> pyval" where
  "opt_strs x = (case x of None \<Rightarrow> PNone | Some xs \<Rightarrow> strs xs)"

definition single_payload :: "single_turn_request \<Rightarrow> pydict" where
  "single_payload q =
     [(''user_input'', PStr (q_user_input q)), (''response'', PStr (q_response q)),
      (''retrieved_contexts'', strs (q_retrieved_contexts q)), (''reference_contexts'', opt_strs (q_reference_contexts q)),
      (''retrieved_context_ids'', opt_strs (q_retrieved_context_ids q)),
      (''reference_context_ids'', opt_strs (q_reference_context_ids q)),
      (''reference'', opt_str (q_reference q)), (''metric_names'', strs (q_metric_names q))]"

definition multi_payload :: "multi_turn_request \<Rightarrow> pydict" where
  "multi_payload w =
     [(''messages'', PList (map PDict (w_messages w))), (''reference'', opt_str (w_reference w)),
      (''reference_topics'', opt_strs (w_reference_topics w)),
      (''reference_tool_calls'', (case w_reference_tool_calls w of None \<Rightarrow> PNone | Some ds \<Rightarrow> PList (map PDict ds))),
      (''metric_names'', strs (w_metric_names w))]"

text \<open>
  The call \<open>evaluate(**payload)\<close>: a missing required or an unknown argument raises. Arguments of another
  shape than the endpoints write are outside the model and count as a type error too.
\<close>

fun to_str :: "pyval \<Rightarrow> string res" where
  "to_str (PStr s) = Inr s"
| "to_str _ = Inl TypeError"

fun to_strs :: "pyval \<Rightarrow> string list res" where
  "to_strs (PList vs) = mapE to_str vs"
| "to_strs _ = Inl TypeError"

fun to_opt :: "(pyval \<Rightarrow> 'a res) \<Rightarrow> pyval \<Rightarrow> 'a option res" where
  "to_opt f PNone = Inr None"
| "to_opt f v = bindE (f v) (\<lambda>x. Inr (Some x))"

fun to_dict :: "pyval \<Rightarrow> pydict res" where
  "to_dict (PDict d) = Inr d"
| "to_dict _ = Inl TypeError"

fun to_dicts :: "pyval \<Rightarrow> pydict list res" where
  "to_dicts (PList vs) = mapE to_dict vs"
| "to_dicts _ = Inl TypeError"

definition kwarg :: "pydict \<Rightarrow> string \<Rightarrow> pyval res" where
  "kwarg d k = (case dget d k of None \<Rightarrow> Inl TypeError | Some v \<Rightarrow> Inr v)"

definition known_kwargs :: "pydict \<Rightarrow> string list \<Rightarrow> unit res" where
  "known_kwargs d ks = (if set (dkeys d) \<subseteq> set ks then Inr () else Inl TypeError)"

definition single_kwargs :: "pydict \<Rightarrow> single_turn_request res" where
  "single_kwargs d =
     bindE (known_kwargs d [''user_input'', ''response'', ''retrieved_contexts'', ''reference_contexts'', ''retrieved_context_ids'',
       ''reference_context_ids'', ''reference'', ''metric_names'', ''llm'', ''embeddings'']) (\<lambda>_.
     bindE (bindE (kwarg d ''user_input'') to_str) (\<lambda>u.
     bindE (bindE (kwarg d ''response'') to_str) (\<lambda>r.
     bindE (bindE (kwarg d ''retrieved_contexts'') to_strs) (\<lambda>rc.
     bindE (to_opt to_strs (dget_dflt d ''reference_contexts'' PNone)) (\<lambda>fc.
     bindE (to_opt to_strs (dget_dflt d ''retrieved_context_ids'' PNone)) (\<lambda>ri.
     bindE (to_opt to_strs (dget_dflt d ''reference_context_ids'' PNone)) (\<lambda>fi.
     bindE (to_opt to_str (dget_dflt d ''reference'' PNone)) (\<lambda>f.
     bindE (bindE (kwarg d ''metric_names'') to_strs) (\<lambda>ms.
     Inr \<lparr>q_user_input = u, q_response = r, q_retrieved_contexts = rc, q_reference_contexts = fc,
          q_retrieved_context_ids = ri, q_reference_context_ids = fi, q_reference = f, q_metric_names = ms\<rparr>)))))))))"

definition multi_kwargs :: "pydict \<Rightarrow> multi_turn_request res" where
  "multi_kwargs d =
     bindE (known_kwargs d [''messages'', ''reference'', ''reference_topics'', ''reference_tool_calls'', ''metric_names'']) (\<lambda>_.
     bindE (bindE (kwarg d ''messages'') to_dicts) (\<lambda>ms.
     bindE (to_opt to_str (dget_dflt d ''reference'' PNone)) (\<lambda>r.
     bindE (to_opt to_strs (dget_dflt d ''reference_topics'' PNone)) (\<lambda>ts.
     bindE (to_opt to_dicts (dget_dflt d ''reference_tool_calls'' PNone)) (\<lambda>cs.
     bindE (bindE (kwarg d ''metric_names'') to_strs) (\<lambda>ns.
     Inr \<lparr>w_messages = ms, w_reference = r, w_reference_topics = ts, w_reference_tool_calls = cs, w_metric_names = ns\<rparr>))))))"

section \<open>The endpoints\<close>

text \<open>The synchronous endpoints; each request has a service with a bus of its own.\<close>

definition metrics_endpoint :: "metric_definition list" where
  "metrics_endpoint = metric_catalog"

definition single_turn_endpoint ::
  "('c, 'm, 'l, 'e, 'v, 'f) ragas \<Rightarrow> (exn \<Rightarrow> string) \<Rightarrow> (string list \<Rightarrow> string) \<Rightarrow> pyval option \<Rightarrow> 'l option \<Rightarrow> 'e option \<Rightarrow>
   single_turn_request \<Rightarrow> (string, 'f) dict res" where
  "single_turn_endpoint L msg shown yaml llm embeddings q =
     (if \<not> single_request_ok q then Inl (HTTPException 422 ''body'')
      else snd (evaluate_ragas_single_turn L msg shown yaml llm embeddings q None None new_bus))"

definition multi_turn_endpoint ::
  "('c, 'm, 'l, 'e, 'v, 'f) ragas \<Rightarrow> (exn \<Rightarrow> string) \<Rightarrow> (string list \<Rightarrow> string) \<Rightarrow> 'l option \<Rightarrow>
   multi_turn_request \<Rightarrow> (string, 'f) dict res" where
  "multi_turn_endpoint L msg shown llm w =
     (if \<not> multi_request_ok w then Inl (HTTPException 422 ''body'')
      else snd (evaluate_ragas_multi_turn L msg shown llm w new_bus))"

record async_job_response =
  aj_job_id :: string
  aj_status :: string
  aj_message :: string

definition new_async_response :: "string \<Rightarrow> async_job_response" where
  "new_async_response job_id =
     \<lparr>aj_job_id = job_id, aj_status = ''pending'', aj_message = ''Job enqueued. Poll /jobs/{job_id} for status.''\<rparr>"

text \<open>Version 1: the job is created, then the task is handed to the broker.\<close>

definition evaluate_single_turn_async ::
  "'db redis \<Rightarrow> (int \<Rightarrow> string) \<Rightarrow> (string \<Rightarrow> string \<Rightarrow> pydict \<Rightarrow> unit res) \<Rightarrow> string \<Rightarrow> int \<Rightarrow> single_turn_request \<Rightarrow> 'db \<Rightarrow>
   'db \<times> async_job_response res" where
  "evaluate_single_turn_async R stamp delay new_id t q kv =
     (if \<not> single_request_ok q then (kv, Inl (HTTPException 422 ''body''))
      else
        let (job_id, kv) = create_job R stamp new_id ''ragas_single_turn'' None t kv in
        (kv, bindE (delay ''eval.ragas_single_turn'' job_id (single_payload q)) (\<lambda>_. Inr (new_async_response job_id))))"

definition evaluate_multi_turn_async ::
  "'db redis \<Rightarrow> (int \<Rightarrow> string) \<Rightarrow> (string \<Rightarrow> string \<Rightarrow> pydict \<Rightarrow> unit res) \<Rightarrow> string \<Rightarrow> int \<Rightarrow> multi_turn_request \<Rightarrow> 'db \<Rightarrow>
   'db \<times> async_job_response res" where
  "evaluate_multi_turn_async R stamp delay new_id t w kv =
     (if \<not> multi_request_ok w then (kv, Inl (HTTPException 422 ''body''))
      else
        let (job_id, kv) = create_job R stamp new_id ''ragas_multi_turn'' None t kv in
        (kv, bindE (delay ''eval.ragas_multi_turn'' job_id (multi_payload w)) (\<lambda>_. Inr (new_async_response job_id))))"

text \<open>Version 2. A publisher is present only when Kafka is enabled.\<close>

text \<open>The text of the second error goes on after a dash that is no ASCII character.\<close>

record kafka_publisher =
  bootstrap :: string
  started :: bool

definition new_publisher :: "bool \<Rightarrow> string \<Rightarrow> kafka_publisher res" where
  "new_publisher aiokafka_available servers =
     (if \<not> aiokafka_available
      then Inl (RuntimeError ''aiokafka is not installed. Add it to requirements.txt to use v2 Kafka publishing.'')
      else Inr \<lparr>bootstrap = servers, started = False\<rparr>)"

definition start_publisher :: "(string \<Rightarrow> unit res) \<Rightarrow> kafka_publisher \<Rightarrow> kafka_publisher \<times> unit res" where
  "start_publisher connect p = (p\<lparr>started := True\<rparr>, connect (bootstrap p))"

definition stop_publisher :: "kafka_publisher \<Rightarrow> kafka_publisher" where
  "stop_publisher p = (if started p then p\<lparr>started := False\<rparr> else p)"

definition kafka_publish ::
  "(string \<Rightarrow> pydict \<Rightarrow> unit res) \<Rightarrow> kafka_publisher \<Rightarrow> string \<Rightarrow> pydict \<Rightarrow> unit res" where
  "kafka_publish send p topic payload =
     (if \<not> started p then Inl (RuntimeError ''KafkaPublisher not started'') else send topic payload)"

definition requested_event :: "string \<Rightarrow> string \<Rightarrow> pydict \<Rightarrow> string \<Rightarrow> string \<Rightarrow> pydict" where
  "requested_event job_id eval_type eval_input event_id occurred_at =
     [(''job_id'', PStr job_id), (''eval_type'', PStr eval_type), (''eval_input'', PDict eval_input),
      (''event_id'', PStr event_id), (''occurred_at'', PStr occurred_at)]"

definition completed_event :: "pyval \<Rightarrow> pydict \<Rightarrow> string \<Rightarrow> string \<Rightarrow> pydict" where
  "completed_event job_id result event_id occurred_at =
     [(''job_id'', job_id), (''result'', PDict result), (''event_id'', PStr event_id), (''occurred_at'', PStr occurred_at)]"

definition failed_event :: "pyval \<Rightarrow> string \<Rightarrow> string \<Rightarrow> string \<Rightarrow> pydict" where
  "failed_event job_id error event_id occurred_at =
     [(''job_id'', job_id), (''error'', PStr error), (''event_id'', PStr event_id), (''occurred_at'', PStr occurred_at)]"

definition get_kafka_publisher :: "kafka_publisher option \<Rightarrow> kafka_publisher res" where
  "get_kafka_publisher p =
     (case p of
        None \<Rightarrow> Inl (HTTPException 503 (''Kafka is not enabled on this instance. '' @
                  ''Set KAFKA_ENABLED=true and KAFKA_BOOTSTRAP_SERVERS to use v2 endpoints.''))
      | Some p \<Rightarrow> Inr p)"

definition submit_v2 ::
  "'db redis \<Rightarrow> (int \<Rightarrow> string) \<Rightarrow> (string \<Rightarrow> pydict \<Rightarrow> unit res) \<Rightarrow> kafka_publisher option \<Rightarrow> bool \<Rightarrow> string \<Rightarrow> string \<Rightarrow> pydict \<Rightarrow>
   string \<Rightarrow> string \<Rightarrow> int \<Rightarrow> 'db \<Rightarrow> 'db \<times> async_job_response res" where
  "submit_v2 R stamp send publisher body_ok job_type eval_type eval_input new_id event_id t kv =
     (case get_kafka_publisher publisher of
        Inl e \<Rightarrow> (kv, Inl e)
      | Inr p \<Rightarrow>
          if \<not> body_ok then (kv, Inl (HTTPException 422 ''body''))
          else
            let (job_id, kv) = create_job R stamp new_id job_type None t kv in
            (kv, bindE (kafka_publish send p ''eval.requested'' (requested_event job_id eval_type eval_input event_id (stamp t))) (\<lambda>_.
                 Inr (new_async_response job_id))))"

definition evaluate_single_turn_v2 ::
  "'db redis \<Rightarrow> (int \<Rightarrow> string) \<Rightarrow> (string \<Rightarrow> pydict \<Rightarrow> unit res) \<Rightarrow> kafka_publisher option \<Rightarrow> single_turn_request \<Rightarrow>
   string \<Rightarrow> string \<Rightarrow> int \<Rightarrow> 'db \<Rightarrow> 'db \<times> async_job_response res" where
  "evaluate_single_turn_v2 R stamp send publisher q =
     submit_v2 R stamp send publisher (single_request_ok q) ''ragas_single_turn'' ''single_turn'' (single_payload q)"

definition evaluate_multi_turn_v2 ::
  "'db redis \<Rightarrow> (int \<Rightarrow> string) \<Rightarrow> (string \<Rightarrow> pydict \<Rightarrow> unit res) \<Rightarrow> kafka_publisher option \<Rightarrow> multi_turn_request \<Rightarrow>
   string \<Rightarrow> string \<Rightarrow> int \<Rightarrow> 'db \<Rightarrow> 'db \<times> async_job_response res" where
  "evaluate_multi_turn_v2 R stamp send publisher w =
     submit_v2 R stamp send publisher (multi_request_ok w) ''ragas_multi_turn'' ''multi_turn'' (multi_payload w)"

section \<open>The worker of version 2\<close>

text \<open>
  Handling one event. \<open>single\<close> and \<open>multi\<close> are the evaluations of the service during this call; \<open>shown_name\<close>
  is \<open>repr\<close>. The fields of an event are whatever values the message has: a job identifier is formatted into the key of its
  document, and an unknown type or an input that is no mapping raises inside the error handling. The worker's state is the job store and the events it has
  published. Times are those of the start, of the end of the evaluation and of the error handler.
\<close>

type_synonym event_log = "(string \<times> pydict) list"

definition worker_publish ::
  "(string \<Rightarrow> pydict \<Rightarrow> unit res) \<Rightarrow> kafka_publisher \<Rightarrow> string \<Rightarrow> pydict \<Rightarrow> 'db \<times> event_log \<Rightarrow> ('db \<times> event_log) \<times> unit res" where
  "worker_publish send p topic payload st =
     (case kafka_publish send p topic payload of
        Inr u \<Rightarrow> ((fst st, snd st @ [(topic, payload)]), Inr ())
      | Inl e \<Rightarrow> (st, Inl e))"

definition worker_fails ::
  "'db redis \<Rightarrow> (int \<Rightarrow> string) \<Rightarrow> (exn \<Rightarrow> string) \<Rightarrow> (pyval \<Rightarrow> string) \<Rightarrow>
   (string \<Rightarrow> pydict \<Rightarrow> unit res) \<Rightarrow> kafka_publisher \<Rightarrow> string \<Rightarrow> pyval \<Rightarrow> int \<Rightarrow>
   exn \<Rightarrow> 'db \<times> event_log \<Rightarrow> ('db \<times> event_log) \<times> unit res" where
  "worker_fails R stamp msg_of shown_name send p event_id job_id t e st =
     worker_publish send p ''eval.failed'' (failed_event job_id (msg_of e) event_id (stamp t))
       (update_job R (str_of shown_name job_id) (failed_update stamp t (msg_of e)) t (fst st), snd st)"

definition worker_eval ::
  "(pydict \<Rightarrow> pydict res) \<Rightarrow> (pydict \<Rightarrow> pydict res) \<Rightarrow> (pyval \<Rightarrow> string) \<Rightarrow> pyval \<Rightarrow> pyval \<Rightarrow> pydict res" where
  "worker_eval single multi shown_name eval_type eval_input =
     (if eval_type = PStr ''single_turn'' then bindE (to_dict eval_input) single
      else if eval_type = PStr ''multi_turn'' then bindE (to_dict eval_input) multi
      else Inl (ValueError (''Unknown eval_type: '' @ shown_name eval_type)))"

definition worker_handle ::
  "'db redis \<Rightarrow> (int \<Rightarrow> string) \<Rightarrow> (exn \<Rightarrow> string) \<Rightarrow> (pydict \<Rightarrow> pydict res) \<Rightarrow> (pydict \<Rightarrow> pydict res) \<Rightarrow> (pyval \<Rightarrow> string) \<Rightarrow>
   (string \<Rightarrow> pydict \<Rightarrow> unit res) \<Rightarrow> kafka_publisher \<Rightarrow> string \<Rightarrow> string \<Rightarrow> int \<times> int \<times> int \<Rightarrow> pydict \<Rightarrow> 'db \<times> event_log \<Rightarrow>
   ('db \<times> event_log) \<times> unit res" where
  "worker_handle R stamp msg_of single multi shown_name send p id_completed id_failed clock event st =
     (let (t0, t1, t2) = clock in
      case bindE (dget_or_raise event ''job_id'') (\<lambda>j.
           bindE (dget_or_raise event ''eval_type'') (\<lambda>ty.
           bindE (dget_or_raise event ''eval_input'') (\<lambda>inp. Inr (j, ty, inp)))) of
        Inl e \<Rightarrow> (st, Inl e)
      | Inr (job_id, eval_type, eval_input) \<Rightarrow>
          let kv = update_job R (str_of shown_name job_id) (running_update stamp t0) t0 (fst st) in
          (case worker_eval single multi shown_name eval_type eval_input of
             Inl e \<Rightarrow> worker_fails R stamp msg_of shown_name send p id_failed job_id t2 e (kv, snd st)
           | Inr result \<Rightarrow>
               (let kv = update_job R (str_of shown_name job_id) (completed_update stamp t1 result) t1 kv in
                case worker_publish send p ''eval.completed'' (completed_event job_id result id_completed (stamp t1)) (kv, snd st) of
                  (st, Inr u) \<Rightarrow> (st, Inr ())
                | (st, Inl e) \<Rightarrow> worker_fails R stamp msg_of shown_name send p id_failed job_id t2 e st)))"

text \<open>
  The consumer loop over the messages that arrive, each with the identifiers and times of its handling. An
  exception that leaves the handler ends the loop.
\<close>

type_synonym message_run = "pydict \<times> string \<times> string \<times> int \<times> int \<times> int"

fun worker_loop ::
  "'db redis \<Rightarrow> (int \<Rightarrow> string) \<Rightarrow> (exn \<Rightarrow> string) \<Rightarrow> (pydict \<Rightarrow> pydict res) \<Rightarrow> (pydict \<Rightarrow> pydict res) \<Rightarrow> (pyval \<Rightarrow> string) \<Rightarrow>
   (string \<Rightarrow> pydict \<Rightarrow> unit res) \<Rightarrow> kafka_publisher \<Rightarrow> message_run list \<Rightarrow> 'db \<times> event_log \<Rightarrow> ('db \<times> event_log) \<times> unit res" where
  "worker_loop R stamp msg_of single multi shown_name send p [] st = (st, Inr ())"
| "worker_loop R stamp msg_of single multi shown_name send p ((event, c, f, clock) # runs) st =
     (case worker_handle R stamp msg_of single multi shown_name send p c f clock event st of
        (st, Inr u) \<Rightarrow> worker_loop R stamp msg_of single multi shown_name send p runs st
      | (st, Inl e) \<Rightarrow> (st, Inl e))"

section \<open>Lemmas\<close>

lemma to_str_strs: "mapE to_str (map PStr xs) = Inr xs"
  by (induction xs) auto

lemma to_dict_dicts: "mapE to_dict (map PDict ds) = Inr ds"
  by (induction ds) auto

lemma to_opts [simp]:
  "to_opt to_str (opt_str x) = Inr x" "to_opt to_strs (opt_strs y) = Inr y"
  "to_opt to_dicts (case z of None \<Rightarrow> PNone | Some ds \<Rightarrow> PList (map PDict ds)) = Inr z"
  by (auto simp: opt_str_def opt_strs_def strs_def to_str_strs to_dict_dicts split: option.splits)

lemma to_strs_strs [simp]: "to_strs (strs xs) = Inr xs"
  by (simp add: strs_def to_str_strs)

text \<open>Three writes one after the other, each while the document is alive.\<close>

lemma two_updates:
  assumes "redis_ok R" "get_job R kv t0 i = Some d" "t0 \<le> t1" "t1 < t0 + JOB_TTL_SECONDS" "t1 \<le> s" "s < t1 + JOB_TTL_SECONDS"
  shows "get_job R (update_job R i c' t1 (update_job R i c t0 kv)) s i = Some (dmerge (dmerge d c) c')"
proof -
  have "get_job R (update_job R i c t0 kv) t1 i = Some (dmerge d c)"
    using get_update_same [OF assms(1-3)] assms(4) by simp
  from get_update_same [OF assms(1) this assms(5)] assms(6) show ?thesis by simp
qed

lemma three_updates:
  assumes "redis_ok R" "get_job R kv t0 i = Some d" "t0 \<le> t1" "t1 < t0 + JOB_TTL_SECONDS"
    "t1 \<le> t2" "t2 < t1 + JOB_TTL_SECONDS" "t2 \<le> s" "s < t2 + JOB_TTL_SECONDS"
  shows "get_job R (update_job R i c'' t2 (update_job R i c' t1 (update_job R i c t0 kv))) s i =
    Some (dmerge (dmerge (dmerge d c) c') c'')"
  using get_update_same [OF assms(1) two_updates [OF assms(1-6)] assms(7)] assms(8) by simp

lemma single_kwargs_payload: "single_kwargs (single_payload q) = Inr q"
  by (simp add: single_kwargs_def single_payload_def known_kwargs_def kwarg_def dget_dflt_def)

lemma multi_kwargs_payload: "multi_kwargs (multi_payload w) = Inr w"
  by (simp add: multi_kwargs_def multi_payload_def known_kwargs_def kwarg_def dget_dflt_def to_dict_dicts)

lemma requested_event_get:
  "dget_or_raise (requested_event i ty inp ev ts) ''job_id'' = Inr (PStr i)"
  "dget_or_raise (requested_event i ty inp ev ts) ''eval_type'' = Inr (PStr ty)"
  "dget_or_raise (requested_event i ty inp ev ts) ''eval_input'' = Inr (PDict inp)"
  by (simp_all add: requested_event_def dget_or_raise_def)

text \<open>What a new job looks like after the writes of a worker.\<close>

lemma completed_doc_view:
  "job_status_response (dmerge (dmerge (new_job stamp t i ty ik) (running_update stamp t0)) (completed_update stamp t1 r)) =
     Inr \<lparr>v_job_id = i, v_job_type = ty, v_status = ''completed'', v_result = Some r, v_error = None,
          v_idempotency_key = ik, v_created_at = stamp t, v_started_at = Some (stamp t0), v_completed_at = Some (stamp t1)\<rparr>"
  by (simp add: job_status_response_def dget_dmerge dget_updates new_job_def status_names_def opt_str_def split: option.splits)

lemma overwritten_doc_view:
  "job_status_response (dmerge (dmerge (dmerge (new_job stamp t i ty ik) (running_update stamp t0))
       (completed_update stamp t1 r)) (failed_update stamp t2 m)) =
     Inr \<lparr>v_job_id = i, v_job_type = ty, v_status = ''failed'', v_result = Some r, v_error = Some m,
          v_idempotency_key = ik, v_created_at = stamp t, v_started_at = Some (stamp t0), v_completed_at = Some (stamp t2)\<rparr>"
  by (simp add: job_status_response_def dget_dmerge dget_updates new_job_def status_names_def opt_str_def split: option.splits)

lemma worker_handle_requested:
  "worker_handle R stamp msg_of single multi shown_name send p c f (t0, t1, t2) (requested_event i ty inp ev ts) st =
     (let kv = update_job R i (running_update stamp t0) t0 (fst st) in
      case worker_eval single multi shown_name (PStr ty) (PDict inp) of
        Inl e \<Rightarrow> worker_fails R stamp msg_of shown_name send p f (PStr i) t2 e (kv, snd st)
      | Inr result \<Rightarrow>
          (let kv = update_job R i (completed_update stamp t1 result) t1 kv in
           case worker_publish send p ''eval.completed'' (completed_event (PStr i) result c (stamp t1)) (kv, snd st) of
             (st, Inr u) \<Rightarrow> (st, Inr ())
           | (st, Inl e) \<Rightarrow> worker_fails R stamp msg_of shown_name send p f (PStr i) t2 e st))"
  by (cases "worker_eval single multi shown_name (PStr ty) (PDict inp)")
    (simp_all add: worker_handle_def requested_event_get Let_def)

text \<open>With a broker that accepts, handling an event of a live job settles the job and leaves the others alone.\<close>

definition settled :: "'db redis \<Rightarrow> 'db \<Rightarrow> int \<Rightarrow> string \<Rightarrow> bool" where
  "settled R kv t i \<longleftrightarrow>
     (\<exists>d. get_job R kv t i = Some d \<and>
        (dget d ''status'' = Some (PStr ''completed'') \<or> dget d ''status'' = Some (PStr ''failed'')))"

lemma worker_handle_accepts:
  assumes "\<And>topic payload. kafka_publish send p topic payload = Inr ()"
  shows "worker_handle R stamp msg_of single multi shown_name send p c f (t0, t1, t2) (requested_event i ty inp ev ts) (kv, sent) =
     (case worker_eval single multi shown_name (PStr ty) (PDict inp) of
        Inl e \<Rightarrow> ((update_job R i (failed_update stamp t2 (msg_of e)) t2 (update_job R i (running_update stamp t0) t0 kv),
                    sent @ [(''eval.failed'', failed_event (PStr i) (msg_of e) f (stamp t2))]), Inr ())
      | Inr r \<Rightarrow> ((update_job R i (completed_update stamp t1 r) t1 (update_job R i (running_update stamp t0) t0 kv),
                    sent @ [(''eval.completed'', completed_event (PStr i) r c (stamp t1))]), Inr ()))"
  by (simp add: worker_handle_requested worker_publish_def worker_fails_def assms Let_def split: sum.splits)

lemma worker_handle_settles:
  assumes "redis_ok R" "\<And>topic payload. kafka_publish send p topic payload = Inr ()" "get_job R kv t0 i = Some d"
    "t0 \<le> t1" "t1 \<le> t2" "t2 < t0 + JOB_TTL_SECONDS" "t2 \<le> s" "s < t1 + JOB_TTL_SECONDS"
  shows "settled R (fst (fst (worker_handle R stamp msg_of single multi shown_name send p c f (t0, t1, t2)
    (requested_event i ty inp ev ts) (kv, sent)))) s i"
proof -
  have t: "t0 \<le> t2" "t1 < t0 + JOB_TTL_SECONDS" "t1 \<le> s" "s < t2 + JOB_TTL_SECONDS" using assms(4-8) by auto
  show ?thesis unfolding worker_handle_accepts [OF assms(2)] settled_def
    using two_updates [OF assms(1,3) t(1) assms(6,7) t(4)] two_updates [OF assms(1,3,4) t(2,3) assms(8)]
    by (auto simp: dget_dmerge dget_updates split: sum.splits)
qed

lemma worker_handle_other:
  assumes "redis_ok R" "\<And>topic payload. kafka_publish send p topic payload = Inr ()" "j \<noteq> i" "t0 \<le> s" "t1 \<le> s" "t2 \<le> s"
  shows "get_job R (fst (fst (worker_handle R stamp msg_of single multi shown_name send p c f (t0, t1, t2)
    (requested_event i ty inp ev ts) (kv, sent)))) s j = get_job R kv s j"
  unfolding worker_handle_accepts [OF assms(2)]
  using assms(1,3-6) by (auto simp: get_update_other split: sum.splits)

text \<open>Runs of the worker on events of live jobs, one after the other.\<close>

type_synonym job_run = "string \<times> string \<times> pydict \<times> string \<times> string \<times> string \<times> string \<times> int \<times> int \<times> int"

fun run_of :: "job_run \<Rightarrow> message_run" where
  "run_of (i, ty, inp, ev, ts, c, f, t0, t1, t2) = (requested_event i ty inp ev ts, c, f, t0, t1, t2)"

fun run_job :: "job_run \<Rightarrow> string" where
  "run_job (i, rest) = i"

fun orderly :: "'db redis \<Rightarrow> 'db \<Rightarrow> int \<Rightarrow> int \<Rightarrow> job_run list \<Rightarrow> bool" where
  "orderly R kv now t [] \<longleftrightarrow> t \<le> now"
| "orderly R kv now t ((i, ty, inp, ev, ts, c, f, t0, t1, t2) # runs) \<longleftrightarrow>
     get_job R kv t0 i \<noteq> None \<and> t \<le> t0 \<and> t0 \<le> t1 \<and> t1 \<le> t2 \<and> t2 < t0 + JOB_TTL_SECONDS \<and> now < t1 + JOB_TTL_SECONDS \<and>
     i \<notin> run_job ` set runs \<and> orderly R kv now t2 runs"

lemma orderly_le: "orderly R kv now t runs \<Longrightarrow> t \<le> now"
  by (induction R kv now t runs rule: orderly.induct) auto

lemma orderly_cong:
  "orderly R kv now t runs \<Longrightarrow> (\<And>j s. t \<le> s \<Longrightarrow> j \<in> run_job ` set runs \<Longrightarrow> get_job R kv' s j = get_job R kv s j) \<Longrightarrow>
     orderly R kv' now t runs"
proof (induction R kv now t runs rule: orderly.induct)
  case (2 R kv now t i ty inp ev ts c f t0 t1 t2 runs)
  then have "orderly R kv' now t2 runs" by auto
  with 2 show ?case by simp
qed simp

lemma worker_loop_settles:
  assumes "redis_ok R" "\<And>topic payload. kafka_publish send p topic payload = Inr ()" "orderly R kv now t runs"
  shows "\<exists>kv' sent'. worker_loop R stamp msg_of single multi shown_name send p (map run_of runs) (kv, sent) = ((kv', sent'), Inr ()) \<and>
    (\<forall>i\<in>run_job ` set runs. settled R kv' now i) \<and>
    (\<forall>j. j \<notin> run_job ` set runs \<longrightarrow> get_job R kv' now j = get_job R kv now j)"
  using assms(3)
proof (induction runs arbitrary: kv sent t)
  case (Cons run runs)
  obtain i ty inp ev ts c f t0 t1 t2 where run: "run = (i, ty, inp, ev, ts, c, f, t0, t1, t2)"
    by (cases run rule: run_of.cases)
  let ?h = "worker_handle R stamp msg_of single multi shown_name send p c f (t0, t1, t2) (requested_event i ty inp ev ts) (kv, sent)"
  have "snd ?h = Inr ()" by (simp add: worker_handle_accepts [OF assms(2)] split: sum.splits)
  then obtain kv1 sent1 where h: "?h = ((kv1, sent1), Inr ())" by (metis prod.collapse)
  from Cons.prems run obtain d where o: "get_job R kv t0 i = Some d" "t0 \<le> t1" "t1 \<le> t2" "t2 < t0 + JOB_TTL_SECONDS"
    "now < t1 + JOB_TTL_SECONDS" "i \<notin> run_job ` set runs" "orderly R kv now t2 runs" by auto
  have now: "t2 \<le> now" using orderly_le [OF o(7)] .
  have other: "get_job R kv1 s j = get_job R kv s j" if "t2 \<le> s" "j \<noteq> i" for s j
    using worker_handle_other [OF assms(1,2) that(2), of t0 s t1 t2 stamp msg_of single multi shown_name c f ty inp ev ts kv sent]
      that(1) o(2,3) by (simp add: h)
  have "orderly R kv1 now t2 runs"
  proof (rule orderly_cong [OF o(7)])
    fix j s
    assume s: "t2 \<le> s" and j: "j \<in> run_job ` set runs"
    have "j \<noteq> i" using j o(6) by metis
    with s show "get_job R kv1 s j = get_job R kv s j" by (rule other)
  qed
  from Cons.IH [OF this] obtain kv' sent' where l:
    "worker_loop R stamp msg_of single multi shown_name send p (map run_of runs) (kv1, sent1) = ((kv', sent'), Inr ())"
    "\<forall>i\<in>run_job ` set runs. settled R kv' now i" "\<forall>j. j \<notin> run_job ` set runs \<longrightarrow> get_job R kv' now j = get_job R kv1 now j"
    by blast
  have "settled R kv1 now i"
    using worker_handle_settles [OF assms(1,2) o(1-4) now o(5), of stamp msg_of single multi shown_name c f ty inp ev ts sent]
    by (simp add: h)
  then have "settled R kv' now i" using l(3) o(6) by (simp add: settled_def)
  moreover have "get_job R kv' now j = get_job R kv now j" if "j \<notin> run_job ` set (run # runs)" for j
    using that l(3) other [OF now, of j] run by simp
  ultimately show ?case using l(1,2) run h by (intro exI [of _ kv'] exI [of _ sent']) simp
qed simp

section \<open>Properties\<close>

text \<open>
  What the worker evaluates is what the client submitted: the call with the payload an endpoint
  enqueues receives exactly the fields of the request, for both kinds of evaluation.
\<close>

theorem payload_roundtrip:
  "single_kwargs (single_payload q) = Inr q \<and> multi_kwargs (multi_payload w) = Inr w"
  by (simp add: single_kwargs_payload multi_kwargs_payload)

text \<open>
  End to end in version 2: a single-turn request is accepted with a job identifier and one event; a worker
  that handles this event within the lifetime of the job, with a service that scores the request
  and a broker that accepts, leaves a completed job with exactly that result, and has announced it.
\<close>

theorem v2_job_completes:
  assumes "redis_ok R" and "single_request_ok q" and "started p"
    and "\<And>topic payload. send topic payload = Inr ()" and "svc q = Inr r"
    and "t \<le> t0" and "t0 < t + JOB_TTL_SECONDS" and "t0 \<le> t1" and "t1 < t0 + JOB_TTL_SECONDS"
    and "t1 \<le> now" and "now < t1 + JOB_TTL_SECONDS"
  shows "\<exists>kv1 kv2. evaluate_single_turn_v2 R stamp send (Some p) q i ev t kv = (kv1, Inr (new_async_response i)) \<and>
    worker_handle R stamp msg_of (\<lambda>d. bindE (single_kwargs d) svc) multi shown_name send p c f (t0, t1, t2)
        (requested_event i ''single_turn'' (single_payload q) ev (stamp t)) (kv1, sent) =
      ((kv2, sent @ [(''eval.completed'', completed_event (PStr i) r c (stamp t1))]), Inr ()) \<and>
    get_job_status R kv2 now i =
      Inr \<lparr>v_job_id = i, v_job_type = ''ragas_single_turn'', v_status = ''completed'', v_result = Some r, v_error = None,
           v_idempotency_key = None, v_created_at = stamp t, v_started_at = Some (stamp t0), v_completed_at = Some (stamp t1)\<rparr>"
proof -
  define kv1 where "kv1 = snd (create_job R stamp i ''ragas_single_turn'' None t kv)"
  define kv2 where "kv2 = update_job R i (completed_update stamp t1 r) t1 (update_job R i (running_update stamp t0) t0 kv1)"
  have ok: "kafka_publish send p topic payload = Inr ()" for topic payload
    using assms(3,4) by (simp add: kafka_publish_def)
  have "evaluate_single_turn_v2 R stamp send (Some p) q i ev t kv = (kv1, Inr (new_async_response i))"
    using assms(2) ok
    by (simp add: evaluate_single_turn_v2_def submit_v2_def get_kafka_publisher_def create_job_def kv1_def)
  moreover have "worker_handle R stamp msg_of (\<lambda>d. bindE (single_kwargs d) svc) multi shown_name send p c f (t0, t1, t2)
      (requested_event i ''single_turn'' (single_payload q) ev (stamp t)) (kv1, sent) =
      ((kv2, sent @ [(''eval.completed'', completed_event (PStr i) r c (stamp t1))]), Inr ())"
    by (simp add: worker_handle_requested worker_eval_def single_kwargs_payload assms(5) worker_publish_def ok kv2_def Let_def)
  moreover have "get_job R kv1 t0 i = Some (new_job stamp t i ''ragas_single_turn'' None)"
    unfolding kv1_def using get_create [OF assms(1,6)] assms(7) by simp
  from two_updates [OF assms(1) this assms(8-11)]
  have "get_job_status R kv2 now i = job_status_response (dmerge (dmerge (new_job stamp t i ''ragas_single_turn'' None)
      (running_update stamp t0)) (completed_update stamp t1 r))"
    by (simp add: get_job_status_def kv2_def)
  ultimately show ?thesis unfolding completed_doc_view by blast
qed

definition demo_publisher :: kafka_publisher where
  "demo_publisher = \<lparr>bootstrap = ''localhost:9092'', started = True\<rparr>"

theorem v2_job_completes_witness:
  "\<exists>kv1 kv2. evaluate_single_turn_v2 table_redis (\<lambda>t. ''now'') (\<lambda>topic payload. Inr ()) (Some demo_publisher) demo_single ''j'' ''e'' 0 [] =
      (kv1, Inr (new_async_response ''j'')) \<and>
    worker_handle table_redis (\<lambda>t. ''now'') (\<lambda>e. []) (\<lambda>d. bindE (single_kwargs d) (\<lambda>q. Inr [])) (\<lambda>d. Inr []) (\<lambda>v. [])
      (\<lambda>topic payload. Inr ()) demo_publisher ''c'' ''f'' (10, 20, 30)
      (requested_event ''j'' ''single_turn'' (single_payload demo_single) ''e'' ''now'') (kv1, []) =
      ((kv2, [(''eval.completed'', completed_event (PStr ''j'') [] ''c'' ''now'')]), Inr ()) \<and>
    (\<exists>v. get_job_status table_redis kv2 50 ''j'' = Inr v \<and> v_status v = ''completed'')"
  using v2_job_completes [OF table_redis_ok, of demo_single demo_publisher "\<lambda>topic payload. Inr ()" "\<lambda>q. Inr []" "[]" 0 10 20 50
      "\<lambda>t. ''now''" "''j''" "''e''" "[]" "\<lambda>e. []" "\<lambda>d. Inr []" "\<lambda>v. []" "''c''" "''f''" 30 "[]"]
  by (fastforce simp: demo_publisher_def demo_single_def single_request_ok_def JOB_TTL_SECONDS_def)

text \<open>
  C36: When only the announcement of a successful evaluation fails, the job of version 2 ends as failed although
  its result is stored: the error handler overwrites the status of the completed job.
\<close>

theorem v2_announcement_failure:
  assumes "redis_ok R" and "get_job R kv t0 i = Some (new_job stamp t i ty ik)"
    and "worker_eval single multi shown_name (PStr eval_type) (PDict eval_input) = Inr r"
    and "kafka_publish send p ''eval.completed'' (completed_event (PStr i) r c (stamp t1)) = Inl e"
    and "t0 \<le> t1" and "t1 < t0 + JOB_TTL_SECONDS" and "t1 \<le> t2" and "t2 < t1 + JOB_TTL_SECONDS"
    and "t2 \<le> now" and "now < t2 + JOB_TTL_SECONDS"
  shows "get_job_status R (fst (fst (worker_handle R stamp msg_of single multi shown_name send p c f (t0, t1, t2)
        (requested_event i eval_type eval_input ev ts) (kv, sent)))) now i =
      Inr \<lparr>v_job_id = i, v_job_type = ty, v_status = ''failed'', v_result = Some r, v_error = Some (msg_of e),
           v_idempotency_key = ik, v_created_at = stamp t, v_started_at = Some (stamp t0), v_completed_at = Some (stamp t2)\<rparr>"
proof -
  have kv: "fst (fst (worker_handle R stamp msg_of single multi shown_name send p c f (t0, t1, t2)
        (requested_event i eval_type eval_input ev ts) (kv, sent))) =
      update_job R i (failed_update stamp t2 (msg_of e)) t2
        (update_job R i (completed_update stamp t1 r) t1 (update_job R i (running_update stamp t0) t0 kv))"
    by (simp add: worker_handle_requested assms(3,4) worker_publish_def worker_fails_def Let_def split: sum.splits)
  from three_updates [OF assms(1,2,5-10)] show ?thesis
    unfolding kv by (simp add: get_job_status_def overwritten_doc_view)
qed

theorem v2_announcement_failure_witness:
  "get_job_status table_redis (fst (fst (worker_handle table_redis (\<lambda>t. ''now'') (\<lambda>e. ''down'') (\<lambda>d. Inr []) (\<lambda>d. Inr [])
      (\<lambda>v. []) (\<lambda>topic payload. Inl (RuntimeError ''down'')) demo_publisher ''c'' ''f'' (10, 20, 30)
      (requested_event ''j'' ''single_turn'' [] ''e'' ''now'')
      (snd (create_job table_redis (\<lambda>t. ''now'') ''j'' ''ragas_single_turn'' None 0 []), [])))) 50 ''j'' =
    Inr \<lparr>v_job_id = ''j'', v_job_type = ''ragas_single_turn'', v_status = ''failed'', v_result = Some [],
         v_error = Some ''down'', v_idempotency_key = None, v_created_at = ''now'', v_started_at = Some ''now'',
         v_completed_at = Some ''now''\<rparr>"
proof -
  have "get_job table_redis (snd (create_job table_redis (\<lambda>t. ''now'') ''j'' ''ragas_single_turn'' None 0 [])) 10 ''j'' =
      Some (new_job (\<lambda>t. ''now'') 0 ''j'' ''ragas_single_turn'' None)"
    by (simp add: get_job_def create_job_def table_redis_def JOB_TTL_SECONDS_def)
  from v2_announcement_failure [OF table_redis_ok this, where single = "\<lambda>d. Inr []" and multi = "\<lambda>d. Inr []"
      and shown_name = "\<lambda>v. []" and eval_type = "''single_turn''" and eval_input = "[]" and r = "[]"
      and send = "\<lambda>topic payload. Inl (RuntimeError ''down'')" and p = demo_publisher and c = "''c''"
      and e = "RuntimeError ''down''" and ?t1.0 = 20 and ?t2.0 = 30 and now = 50 and msg_of = "\<lambda>e. ''down''" and f = "''f''"
      and ev = "''e''" and ts = "''now''" and sent = "[]"]
  show ?thesis
    by (simp add: worker_eval_def kafka_publish_def demo_publisher_def JOB_TTL_SECONDS_def)
qed

text \<open>
  The worker of version 2 makes progress: with a broker that accepts, a run over requested events of different
  live jobs handles all of them and ends normally, and afterwards every one of these jobs is completed
  or failed, whatever the evaluations yield; other jobs are as they were.
\<close>

theorem worker_settles_jobs:
  assumes "redis_ok R" and "\<And>topic payload. send topic payload = Inr ()" and "started p" and "orderly R kv now t runs"
  shows "\<exists>kv' sent'. worker_loop R stamp msg_of single multi shown_name send p (map run_of runs) (kv, sent) = ((kv', sent'), Inr ()) \<and>
    (\<forall>i\<in>run_job ` set runs. settled R kv' now i) \<and>
    (\<forall>j. j \<notin> run_job ` set runs \<longrightarrow> get_job R kv' now j = get_job R kv now j)"
  by (rule worker_loop_settles [OF assms(1) _ assms(4)]) (simp add: kafka_publish_def assms(2,3))

theorem worker_settles_jobs_witness:
  "\<exists>kv' sent'. worker_loop table_redis (\<lambda>t. ''now'') (\<lambda>e. ''no'') (\<lambda>d. Inr []) (\<lambda>d. Inr []) (\<lambda>v. []) (\<lambda>topic payload. Inr ()) demo_publisher
      (map run_of [(''j'', ''single_turn'', [], ''e'', ''now'', ''c'', ''f'', 10, 20, 20), (''k'', ''other'', [], ''e'', ''now'', ''c'', ''f'', 30, 40, 50)])
      (snd (create_job table_redis (\<lambda>t. ''now'') ''k'' ''ragas_single_turn'' None 0
        (snd (create_job table_redis (\<lambda>t. ''now'') ''j'' ''ragas_single_turn'' None 0 []))), []) = ((kv', sent'), Inr ()) \<and>
    settled table_redis kv' 60 ''j'' \<and> settled table_redis kv' 60 ''k''"
proof -
  have "orderly table_redis (snd (create_job table_redis (\<lambda>t. ''now'') ''k'' ''ragas_single_turn'' None 0
        (snd (create_job table_redis (\<lambda>t. ''now'') ''j'' ''ragas_single_turn'' None 0 [])))) 60 0
      [(''j'', ''single_turn'', [], ''e'', ''now'', ''c'', ''f'', 10, 20, 20), (''k'', ''other'', [], ''e'', ''now'', ''c'', ''f'', 30, 40, 50)]"
    by (simp add: get_job_def create_job_def table_redis_def JOB_TTL_SECONDS_def job_key_def)
  from worker_settles_jobs [OF table_redis_ok _ _ this, of "\<lambda>topic payload. Inr ()" demo_publisher "\<lambda>t. ''now''" "\<lambda>e. ''no''"
      "\<lambda>d. Inr []" "\<lambda>d. Inr []" "\<lambda>v. []" "[]"]
  show ?thesis by (fastforce simp: demo_publisher_def)
qed

text \<open>
  An event without a job identifier ends the worker: the handler raises outside its own error handling, and
  the events behind it are not handled by this process.
\<close>

theorem poison_event_stops_worker:
  assumes "dget event ''job_id'' = None"
  shows "worker_loop R stamp msg_of single multi shown_name send p ((event, c, f, clock) # runs) st = (st, Inl KeyError)"
  using assms by (cases clock) (simp add: worker_handle_def dget_or_raise_def)

theorem poison_event_stops_worker_witness:
  "worker_loop table_redis (\<lambda>t. ''now'') (\<lambda>e. ''no'') (\<lambda>d. Inr []) (\<lambda>d. Inr []) (\<lambda>v. []) (\<lambda>topic payload. Inr ()) demo_publisher
     [([], ''c'', ''f'', 0, 0, 0), (requested_event ''j'' ''single_turn'' [] ''e'' ''now'', ''c'', ''f'', 1, 2, 3)] ([], []) =
   (([], []), Inl KeyError)"
  by (rule poison_event_stops_worker) simp

end
