(* ===== verification/Json.thy ===== *)
theory Json
  imports Float64
begin

text \<open>
  The standard library's \<open>json.dumps\<close> and \<open>json.loads\<close> as the service calls them: on job records
  (\<open>app/infra/jobs/redis_job_store.py\<close>), Kafka messages (\<open>app/infra/event_bus/kafka.py\<close>,
  \<open>app/workers/eval_worker.py\<close>), token payloads (\<open>app/core/middleware/auth_middleware.py\<close>) and task
  routes (\<open>app/core/config/worker_settings.py\<close>).

  The writer uses the default separators and escapes everything outside printable ASCII. The
  reader is the decoder's recursive descent; it is given fuel, twice the length of the text, and
  the fuel is proved never to run out. Escapes above U+00FF and the literals \<open>NaN\<close> and \<open>Infinity\<close>
  denote values outside the modelled range and are refused here.
\<close>

section \<open>Writing\<close>

definition hex_digit :: "nat \<Rightarrow> char" where
  "hex_digit n = char_of (if n < 10 then 48 + n else 87 + n)"

definition json_escape :: "char \<Rightarrow> string" where
  "json_escape c =
     (let n = of_char c :: nat in
      if n = 0x22 then [CHR 0x5C, CHR 0x22]
      else if n = 0x5C then [CHR 0x5C, CHR 0x5C]
      else if n = 10 then [CHR 0x5C, CHR ''n'']
      else if n = 13 then [CHR 0x5C, CHR ''r'']
      else if n = 9 then [CHR 0x5C, CHR ''t'']
      else if n = 12 then [CHR 0x5C, CHR ''f'']
      else if n = 8 then [CHR 0x5C, CHR ''b'']
      else if 32 \<le> n \<and> n < 127 then [c]
      else CHR 0x5C # ''u00'' @ [hex_digit (n div 16), hex_digit (n mod 16)])"

definition json_quote :: "string \<Rightarrow> string" where
  "json_quote s = CHR 0x22 # concat (map json_escape s) @ [CHR 0x22]"

text \<open>\<open>repr_float\<close> prints a float; the interpreter's shortest representation.\<close>

fun json_dumps :: "(rat \<Rightarrow> string) \<Rightarrow> pyval \<Rightarrow> string" where
  "json_dumps repr_float PNone = ''null''"
| "json_dumps repr_float (PBool b) = (if b then ''true'' else ''false'')"
| "json_dumps repr_float (PInt i) = show_int i"
| "json_dumps repr_float (PFloat q) = repr_float q"
| "json_dumps repr_float (PStr s) = json_quote s"
| "json_dumps repr_float (PList xs) = ''['' @ join '', '' (map (json_dumps repr_float) xs) @ '']''"
| "json_dumps repr_float (PDict d) =
     ''{'' @ join '', '' (map (\<lambda>(k, v). json_quote k @ '': '' @ json_dumps repr_float v) d) @ ''}''"

section \<open>Reading\<close>

abbreviation decode_error :: "'a res" where
  "decode_error \<equiv> Inl (ValueError ''JSONDecodeError'')"

definition skip_ws :: "string \<Rightarrow> string" where
  "skip_ws s = dropWhile (\<lambda>c. c \<in> {CHR '' '', CHR 0x09, CHR 0x0A, CHR 0x0D}) s"

definition ascii_digit :: "char \<Rightarrow> bool" where
  "ascii_digit c \<longleftrightarrow> (let n = of_char c :: nat in 48 \<le> n \<and> n \<le> 57)"

definition digit_value :: "char \<Rightarrow> nat" where
  "digit_value c = of_char c - 48"

definition nat_of_digits :: "string \<Rightarrow> nat" where
  "nat_of_digits ds = foldl (\<lambda>n c. 10 * n + digit_value c) 0 ds"

definition hex_value :: "char \<Rightarrow> nat option" where
  "hex_value c =
     (let n = of_char c :: nat in
      if 48 \<le> n \<and> n \<le> 57 then Some (n - 48)
      else if 97 \<le> n \<and> n \<le> 102 then Some (n - 87)
      else if 65 \<le> n \<and> n \<le> 70 then Some (n - 55)
      else None)"

definition unescape :: "char \<Rightarrow> char option" where
  "unescape c =
     map_of [(CHR 0x22, CHR 0x22), (CHR 0x5C, CHR 0x5C), (CHR ''/'', CHR ''/''), (CHR ''b'', CHR 0x08),
             (CHR ''f'', CHR 0x0C), (CHR ''n'', CHR 0x0A), (CHR ''r'', CHR 0x0D), (CHR ''t'', CHR 0x09)] c"

text \<open>The four digits of an escape \<open>\u\<close>.\<close>

definition hex4 :: "string \<Rightarrow> nat option" where
  "hex4 ds =
     (case map hex_value ds of
        [Some a, Some b, Some c, Some d] \<Rightarrow> Some (((a * 16 + b) * 16 + c) * 16 + d)
      | _ \<Rightarrow> None)"

text \<open>The rest of a string literal after its opening quote.\<close>

fun json_string :: "string \<Rightarrow> string \<Rightarrow> (string \<times> string) res" where
  "json_string acc [] = decode_error"
| "json_string acc (c # cs) =
     (if c = CHR 0x22 then Inr (acc, cs)
      else if c = CHR 0x5C then
        (case cs of
           [] \<Rightarrow> decode_error
         | e # es \<Rightarrow>
             if e = CHR ''u'' then
               (case hex4 (take 4 es) of
                  Some n \<Rightarrow> if n < 256 then json_string (acc @ [char_of n]) (drop 4 es) else decode_error
                | None \<Rightarrow> decode_error)
             else
               (case unescape e of
                  Some u \<Rightarrow> json_string (acc @ [u]) es
                | None \<Rightarrow> decode_error))
      else if of_char c < (32 :: nat) then decode_error
      else json_string (acc @ [c]) cs)"

text \<open>\<open>(-?(0|[1-9][0-9]*))(\.[0-9]+)?([eE][-+]?[0-9]+)?\<close>\<close>

definition number_sign :: "string \<Rightarrow> bool \<times> string" where
  "number_sign s = (if startswith s ''-'' then (True, drop 1 s) else (False, s))"

definition integer_digits :: "string \<Rightarrow> string" where
  "integer_digits s = (if startswith s ''0'' then ''0'' else takeWhile ascii_digit s)"

definition number_frac :: "string \<Rightarrow> string \<times> string" where
  "number_frac s =
     (let ds = takeWhile ascii_digit (drop 1 s) in
      if startswith s ''.'' \<and> ds \<noteq> [] then (ds, dropWhile ascii_digit (drop 1 s)) else ([], s))"

definition exponent_sign :: "string \<Rightarrow> bool \<times> string" where
  "exponent_sign s =
     (case s of
        [] \<Rightarrow> (False, [])
      | c # r \<Rightarrow> if c = CHR ''-'' then (True, r) else if c = CHR ''+'' then (False, r) else (False, s))"

definition number_exp :: "string \<Rightarrow> int option \<times> string" where
  "number_exp s =
     (case s of
        c # r \<Rightarrow>
          if c = CHR ''e'' \<or> c = CHR ''E'' then
            (let (neg, t) = exponent_sign r; ds = takeWhile ascii_digit t in
             if ds = [] then (None, s)
             else (Some (if neg then - int (nat_of_digits ds) else int (nat_of_digits ds)), dropWhile ascii_digit t))
          else (None, s)
      | [] \<Rightarrow> (None, s))"

definition pow10 :: "int \<Rightarrow> rat" where
  "pow10 e = (if 0 \<le> e then 10 ^ nat e else 1 / 10 ^ nat (- e))"

definition json_number :: "string \<Rightarrow> (pyval \<times> string) res" where
  "json_number s =
     (let (neg, r) = number_sign s;
          ds = integer_digits r;
          (frac, r2) = number_frac (drop (length ds) r);
          (ex, r3) = number_exp r2 in
      if ds = [] then decode_error
      else if frac = [] \<and> ex = None then
        Inr (PInt (if neg then - int (nat_of_digits ds) else int (nat_of_digits ds)), r3)
      else
        let q = of_nat (nat_of_digits (ds @ frac)) * pow10 ((case ex of Some e \<Rightarrow> e | None \<Rightarrow> 0) - int (length frac)) in
        Inr (PFloat (rnd64 (if neg then - q else q)), r3))"

definition out_of_fuel :: exn where
  "out_of_fuel = RuntimeError ''fuel''"

fun json_value :: "nat \<Rightarrow> string \<Rightarrow> (pyval \<times> string) res"
  and json_elements :: "nat \<Rightarrow> pyval list \<Rightarrow> string \<Rightarrow> (pyval list \<times> string) res"
  and json_members :: "nat \<Rightarrow> (string \<times> pyval) list \<Rightarrow> string \<Rightarrow> ((string \<times> pyval) list \<times> string) res"
where
  "json_value 0 s = Inl out_of_fuel"
| "json_value (Suc n) s =
     (case s of
        [] \<Rightarrow> decode_error
      | c # cs \<Rightarrow>
          if c = CHR 0x22 then bindE (json_string [] cs) (\<lambda>(t, r). Inr (PStr t, r))
          else if c = CHR ''{'' then
            (if startswith (skip_ws cs) ''}'' then Inr (PDict [], drop 1 (skip_ws cs))
             else bindE (json_members n [] (skip_ws cs)) (\<lambda>(kvs, r). Inr (PDict (dict_of kvs), r)))
          else if c = CHR ''['' then
            (if startswith (skip_ws cs) '']'' then Inr (PList [], drop 1 (skip_ws cs))
             else bindE (json_elements n [] (skip_ws cs)) (\<lambda>(xs, r). Inr (PList xs, r)))
          else if startswith s ''null'' then Inr (PNone, drop 4 s)
          else if startswith s ''true'' then Inr (PBool True, drop 4 s)
          else if startswith s ''false'' then Inr (PBool False, drop 5 s)
          else json_number s)"
| "json_elements 0 acc s = Inl out_of_fuel"
| "json_elements (Suc n) acc s =
     bindE (json_value n s)
       (\<lambda>(v, r). case skip_ws r of
          [] \<Rightarrow> decode_error
        | c # cs \<Rightarrow>
            if c = CHR '']'' then Inr (acc @ [v], cs)
            else if c = CHR '','' then json_elements n (acc @ [v]) (skip_ws cs)
            else decode_error)"
| "json_members 0 acc s = Inl out_of_fuel"
| "json_members (Suc n) acc s =
     (if \<not> startswith s [CHR 0x22] then decode_error
      else bindE (json_string [] (drop 1 s))
        (\<lambda>(k, r). if \<not> startswith (skip_ws r) '':'' then decode_error
           else bindE (json_value n (skip_ws (drop 1 (skip_ws r))))
             (\<lambda>(v, r). case skip_ws r of
                [] \<Rightarrow> decode_error
              | c # cs \<Rightarrow>
                  if c = CHR ''}'' then Inr (acc @ [(k, v)], cs)
                  else if c = CHR '','' then json_members n (acc @ [(k, v)]) (skip_ws cs)
                  else decode_error)))"

definition json_loads :: "string \<Rightarrow> pyval res" where
  "json_loads s =
     bindE (json_value (2 * length s + 2) (skip_ws s))
       (\<lambda>(v, r). if skip_ws r = [] then Inr v else decode_error)"

section \<open>The reader consumes its input\<close>

lemma length_skip_ws: "length (skip_ws s) \<le> length s"
  by (simp add: skip_ws_def length_dropWhile_le)

lemma json_string_consumes: "json_string acc s = Inr (t, r) \<Longrightarrow> length r < length s"
proof (induction acc s rule: json_string.induct)
  case (2 acc c cs)
  note IH = "2.IH" and prem = "2.prems"
  consider "c = CHR 0x22" | "c = CHR 0x5C" | "c \<noteq> CHR 0x22" "c \<noteq> CHR 0x5C" by blast
  then show ?case
  proof cases
    case 2
    then obtain e es where cs: "cs = e # es" using prem by (cases cs) auto
    show ?thesis
    proof (cases "e = CHR ''u''")
      case True
      then obtain m where m: "hex4 (take 4 es) = Some m" "m < 256" "json_string (acc @ [char_of m]) (drop 4 es) = Inr (t, r)"
        using prem 2 cs by (auto split: option.splits if_splits)
      then have "length r < length (drop 4 es)" using IH(1) [of e es m] 2 cs True by simp
      then show ?thesis using cs by simp
    next
      case False
      then obtain u where u: "unescape e = Some u" "json_string (acc @ [u]) es = Inr (t, r)"
        using prem 2 cs by (auto split: option.splits)
      then have "length r < length es" using IH(2) [of e es u] 2 cs False by simp
      then show ?thesis using cs by simp
    qed
  next
    case 3
    then have "length r < length cs" using IH(3) prem by (simp split: if_splits)
    then show ?thesis by simp
  qed (use prem in simp)
qed simp

lemma number_tail:
  "length (snd (number_sign s)) \<le> length s" "length (snd (number_frac s)) \<le> length s"
  "length (snd (number_exp s)) \<le> length s"
proof -
  show "length (snd (number_sign s)) \<le> length s" by (simp add: number_sign_def)
  show "length (snd (number_frac s)) \<le> length s"
    using length_dropWhile_le [of ascii_digit "drop 1 s"] by (auto simp: number_frac_def Let_def)
  have "length (snd (exponent_sign t)) \<le> length t" for t
    by (auto simp: exponent_sign_def split: list.splits)
  then have "length (dropWhile ascii_digit (snd (exponent_sign t))) \<le> length t" for t
    using length_dropWhile_le order_trans by blast
  then show "length (snd (number_exp s)) \<le> length s"
    by (auto simp: number_exp_def Let_def split: list.splits prod.splits) (metis le_SucI snd_conv)+
qed

lemma json_number_consumes:
  assumes "json_number s = Inr (v, r)"
  shows "length r < length s"
proof -
  obtain neg t where t: "number_sign s = (neg, t)" by fastforce
  define ds where "ds = integer_digits t"
  obtain frac r2 where f: "number_frac (drop (length ds) t) = (frac, r2)" by fastforce
  obtain ex r3 where e: "number_exp r2 = (ex, r3)" by fastforce
  from assms have "ds \<noteq> []" "r = r3"
    unfolding json_number_def t Let_def prod.case ds_def [symmetric] f e by (auto split: if_splits)
  moreover have "ds \<noteq> [] \<Longrightarrow> t \<noteq> []" by (auto simp: ds_def integer_digits_def startswith_def split: if_splits)
  moreover have "length r3 \<le> length r2" "length r2 \<le> length (drop (length ds) t)" "length t \<le> length s"
    using number_tail(3) [of r2] number_tail(2) [of "drop (length ds) t"] number_tail(1) [of s] e f t by simp_all
  ultimately show ?thesis by (cases ds; cases t) auto
qed

lemma skip_ws_shorter: "length r < length s \<Longrightarrow> skip_ws r = c # cs \<Longrightarrow> length (skip_ws cs) < length s \<and> length cs < length s"
  using length_skip_ws [of r] length_skip_ws [of cs] by simp

lemma drop_skip_ws: "length (drop 1 (skip_ws s)) \<le> length s"
  using length_skip_ws [of s] by simp

text \<open>One round of the two loops, by what it read.\<close>

lemma json_elements_InrE:
  assumes "json_elements (Suc n) acc s = Inr p"
  obtains w t c cs where "json_value n s = Inr (w, t)" "skip_ws t = c # cs"
    "(if c = CHR '']'' then Inr (acc @ [w], cs) else if c = CHR '','' then json_elements n (acc @ [w]) (skip_ws cs)
      else decode_error) = Inr p"
proof -
  from assms obtain w t where w: "json_value n s = Inr (w, t)" by (cases "json_value n s") auto
  with assms obtain c cs where "skip_ws t = c # cs" by (cases "skip_ws t") auto
  with w assms show ?thesis using that by simp
qed

lemma json_members_InrE:
  assumes "json_members (Suc n) acc s = Inr p"
  obtains k t w u c cs where "startswith s [CHR 0x22]" "json_string [] (drop 1 s) = Inr (k, t)" "startswith (skip_ws t) '':''"
    "json_value n (skip_ws (drop 1 (skip_ws t))) = Inr (w, u)" "skip_ws u = c # cs"
    "(if c = CHR ''}'' then Inr (acc @ [(k, w)], cs) else if c = CHR '','' then json_members n (acc @ [(k, w)]) (skip_ws cs)
      else decode_error) = Inr p"
proof -
  from assms have q: "startswith s [CHR 0x22]" by (simp split: if_splits)
  with assms obtain k t where k: "json_string [] (drop 1 s) = Inr (k, t)" by (cases "json_string [] (drop 1 s)") auto
  with q assms have c: "startswith (skip_ws t) '':''" by (simp split: if_splits)
  with q k assms obtain w u where w: "json_value n (skip_ws (drop 1 (skip_ws t))) = Inr (w, u)"
    by (cases "json_value n (skip_ws (drop 1 (skip_ws t)))") auto
  with q k c assms obtain d cs where "skip_ws u = d # cs" by (cases "skip_ws u") auto
  with q k c w assms show ?thesis using that by simp
qed

lemma json_consumes:
  "json_value n s = Inr (v, r) \<Longrightarrow> length r < length s"
  "json_elements n acc s = Inr (xs, r) \<Longrightarrow> length r < length s"
  "json_members n kvs s = Inr (kvs', r) \<Longrightarrow> length r < length s"
proof (induction n s and n acc s and n kvs s arbitrary: v r and xs r and kvs' r
    rule: json_value_json_elements_json_members.induct)
  case (2 n s)
  show ?case
  proof (cases s)
    case (Cons c cs)
    note IH = 2(1,2) [OF Cons]
    show ?thesis
      using 2(3) IH length_skip_ws [of cs] drop_skip_ws [of cs] json_string_consumes [of "[]" cs] json_number_consumes [of s]
      by (auto simp: Cons bindE_eq_Inr startswith_def split: if_splits)
  qed (use 2 in simp)
next
  case (4 n acc s)
  from 4(3) show ?case
  proof (cases rule: json_elements_InrE)
    case (1 w t c cs)
    then have "length (skip_ws cs) < length s \<and> length cs < length s" using skip_ws_shorter 4(1) by blast
    then show ?thesis using 1 4(2) [of "(w, t)" w t c cs] by (auto split: if_splits)
  qed
next
  case (6 n acc s)
  from 6(3) show ?case
  proof (cases rule: json_members_InrE)
    case (1 k t w u c cs)
    then have "length u < length (skip_ws (drop 1 (skip_ws t)))" using 6(1) by blast
    moreover have "length (skip_ws (drop 1 (skip_ws t))) \<le> length t"
      using length_skip_ws [of "drop 1 (skip_ws t)"] drop_skip_ws [of t] by linarith
    moreover have "length t \<le> length s" using json_string_consumes [OF 1(2)] by simp
    ultimately have "length (skip_ws cs) < length s \<and> length cs < length s"
      using skip_ws_shorter 1(5) by (metis order_less_le_trans)
    then show ?thesis using 1 6(2) [of "(k, t)" k t "(w, u)" w u c cs] by (auto split: if_splits)
  qed
qed simp_all

section \<open>The fuel is enough\<close>

lemma json_string_errors: "json_string acc s = Inl e \<Longrightarrow> Inl e = (decode_error :: unit res)"
proof (induction acc s rule: json_string.induct)
  case (2 acc c cs)
  note IH = "2.IH" and prem = "2.prems"
  show ?case
  proof (cases "c = CHR 0x5C \<and> cs \<noteq> []")
    case True
    then obtain d es where cs: "cs = d # es" by (cases cs) auto
    show ?thesis
    proof (cases "d = CHR ''u''")
      case u: True
      then show ?thesis using True cs prem IH(1) [of d es] by (auto split: option.splits if_splits)
    next
      case False
      then show ?thesis using True cs prem IH(2) [of d es] by (auto split: option.splits)
    qed
  next
    case False
    then show ?thesis using prem IH(3) by (auto split: if_splits list.splits)
  qed
qed simp

lemma json_number_errors: "json_number s = Inl e \<Longrightarrow> Inl e = (decode_error :: unit res)"
  by (auto simp: json_number_def Let_def split: prod.splits if_splits)

lemma json_errors:
  "2 * length s + 1 \<le> n \<Longrightarrow> json_value n s = Inl e \<Longrightarrow> Inl e = (decode_error :: unit res)"
  "2 * length s + 2 \<le> n \<Longrightarrow> json_elements n acc s = Inl e \<Longrightarrow> Inl e = (decode_error :: unit res)"
  "2 * length s + 2 \<le> n \<Longrightarrow> json_members n kvs s = Inl e \<Longrightarrow> Inl e = (decode_error :: unit res)"
proof (induction n s and n acc s and n kvs s rule: json_value_json_elements_json_members.induct)
  case (2 n s)
  show ?case
  proof (cases s)
    case (Cons c cs)
    have "2 * length (skip_ws cs) + 2 \<le> n" using 2(3) length_skip_ws [of cs] Cons by simp
    then show ?thesis
      using 2(1,2) [OF Cons] 2(4) json_string_errors [of "[]" cs] json_number_errors [of s]
      by (auto simp: Cons bindE_eq_Inl split: if_splits)
  qed (use 2 in simp)
next
  case (4 n acc s)
  show ?case
  proof (cases "json_value n s")
    case (Inl a)
    then show ?thesis using 4(1,3,4) by simp
  next
    case (Inr p)
    obtain w t where p: "p = (w, t)" by fastforce
    show ?thesis
    proof (cases "skip_ws t")
      case (Cons c cs)
      have "length (skip_ws cs) < length s" using skip_ws_shorter json_consumes(1) [of n s w t] Inr p Cons by blast
      then have "2 * length (skip_ws cs) + 2 \<le> n" using 4(3) by linarith
      then have "c \<noteq> CHR '']'' \<Longrightarrow> c = CHR '','' \<Longrightarrow> json_elements n (acc @ [w]) (skip_ws cs) = Inl e \<Longrightarrow> ?thesis"
        using 4(2) [OF Inr p [symmetric] Cons] by blast
      then show ?thesis using 4(4) unfolding json_elements.simps(2) Inr p bindE_simps prod.case Cons list.case
        by (simp split: if_splits)
    qed (use 4(4) Inr p in simp)
  qed
next
  case (6 n acc s)
  show ?case
  proof (cases "startswith s [CHR 0x22]")
    case q: True
    show ?thesis
    proof (cases "json_string [] (drop 1 s)")
      case (Inl a)
      then show ?thesis using q json_string_errors [OF Inl] 6(4) by simp
    next
      case (Inr p)
      obtain k t where p: "p = (k, t)" by fastforce
      note str = Inr [unfolded p]
      have l: "length (skip_ws (drop 1 (skip_ws t))) \<le> length t" "length t < length s"
        using length_skip_ws [of "drop 1 (skip_ws t)"] drop_skip_ws [of t] json_string_consumes [OF str] by simp_all
      show ?thesis
      proof (cases "json_value n (skip_ws (drop 1 (skip_ws t)))")
        case (Inl a)
        have "2 * length (skip_ws (drop 1 (skip_ws t))) + 1 \<le> n" using l 6(3) by linarith
        then have "startswith (skip_ws t) '':'' \<Longrightarrow> json_value n (skip_ws (drop 1 (skip_ws t))) = Inl e \<Longrightarrow> ?thesis"
          using 6(1) [OF _ Inr p [symmetric]] q by blast
        then show ?thesis using 6(4) q Inl unfolding json_members.simps(2) str bindE_simps prod.case
          by (simp split: if_splits)
      next
        case val: (Inr w)
        obtain v u where w: "w = (v, u)" by fastforce
        show ?thesis
        proof (cases "skip_ws u")
          case (Cons c cs)
          have "length u < length (skip_ws (drop 1 (skip_ws t)))" using json_consumes(1) val w by blast
          then have "length (skip_ws cs) < length s" using skip_ws_shorter [OF _ Cons] l by (metis order_less_le_trans order_less_trans)
          then have "2 * length (skip_ws cs) + 2 \<le> n" using 6(3) by linarith
          then have "startswith (skip_ws t) '':'' \<Longrightarrow> c \<noteq> CHR ''}'' \<Longrightarrow> c = CHR '','' \<Longrightarrow>
              json_members n (acc @ [(k, v)]) (skip_ws cs) = Inl e \<Longrightarrow> ?thesis"
            using 6(2) [OF _ Inr p [symmetric] _ val w [symmetric] Cons] q by blast
          then show ?thesis using 6(4) q unfolding json_members.simps(2) str bindE_simps prod.case val w Cons list.case
            by (simp split: if_splits)
        qed (use q str val w 6(4) in \<open>auto split: if_splits\<close>)
      qed
    qed
  qed (use 6(4) in simp)
qed simp_all

lemma json_loads_errors: "json_loads s = Inl e \<Longrightarrow> e = ValueError ''JSONDecodeError''"
  using json_errors(1) [of "skip_ws s" "2 * length s + 2"] length_skip_ws [of s]
  by (auto simp: json_loads_def bindE_eq_Inl split: if_splits)

section \<open>Reading back strings and integers\<close>

lemma hex_value_digit: "n < 16 \<Longrightarrow> hex_value (hex_digit n) = Some n"
  by (simp add: hex_value_def hex_digit_def)

lemma hex_value_0 [simp]: "hex_value CHR ''0'' = Some 0"
  by (simp add: hex_value_def)

lemma hex4_byte:
  assumes "n < 256"
  shows "hex4 [CHR ''0'', CHR ''0'', hex_digit (n div 16), hex_digit (n mod 16)] = Some n"
  using assms hex_value_digit [of "n div 16"] hex_value_digit [of "n mod 16"] by (simp add: hex4_def)

lemma char_codes:
  "char_of (34 :: nat) = CHR 0x22" "char_of (92 :: nat) = CHR 0x5C" "char_of (10 :: nat) = CHR 0x0A"
  "char_of (13 :: nat) = CHR 0x0D" "char_of (9 :: nat) = CHR 0x09" "char_of (12 :: nat) = CHR 0x0C"
  "char_of (8 :: nat) = CHR 0x08"
  by code_simp+

lemma json_string_escape: "json_string acc (json_escape c @ r) = json_string (acc @ [c]) r"
proof -
  define n where "n = (of_char c :: nat)"
  then have c: "c = char_of n" and n: "n < 256" by auto
  consider "n \<in> {0x22, 0x5C, 10, 13, 9, 12, 8}" | "n \<notin> {0x22, 0x5C, 10, 13, 9, 12, 8}" "32 \<le> n" "n < 127"
    | "n \<notin> {0x22, 0x5C, 10, 13, 9, 12, 8}" "\<not> (32 \<le> n \<and> n < 127)" by blast
  then show ?thesis
  proof cases
    case 1
    then show ?thesis
      by (elim insertE emptyE) (simp_all add: c char_codes json_escape_def unescape_def Let_def)
  next
    case 2
    then have "json_escape c = [c]" by (simp add: json_escape_def n_def [symmetric] Let_def)
    moreover have "c \<noteq> CHR 0x22" "c \<noteq> CHR 0x5C" using 2 by (auto simp: n_def)
    moreover have "\<not> of_char c < (32 :: nat)" using 2 by (simp add: n_def)
    ultimately show ?thesis by simp
  next
    case 3
    then have "json_escape c = CHR 0x5C # ''u00'' @ [hex_digit (n div 16), hex_digit (n mod 16)]"
      by (auto simp: json_escape_def n_def [symmetric] Let_def)
    then show ?thesis using hex4_byte [OF n] n by (simp add: c)
  qed
qed

lemma json_string_quoted: "json_string acc (concat (map json_escape s) @ CHR 0x22 # r) = Inr (acc @ s, r)"
  by (induction s arbitrary: acc) (simp_all add: json_string_escape)

lemma digits_ascii: "list_all ascii_digit (digits n)"
proof (induction n rule: digits.induct)
  case (1 n)
  have "ascii_digit (char_of (48 + k))" if "k < 10" for k :: nat
    using that by (simp add: ascii_digit_def Let_def)
  with 1 show ?case by (subst digits.simps) (auto simp del: char_of_def)
qed

lemma nat_of_digits_snoc: "nat_of_digits (ds @ [c]) = 10 * nat_of_digits ds + digit_value c"
  by (simp add: nat_of_digits_def)

lemma nat_of_digits_digits: "nat_of_digits (digits n) = n"
proof (induction n rule: digits.induct)
  case (1 n)
  have v: "digit_value (char_of (48 + k)) = k" if "k < 10" for k :: nat
    using that by (simp add: digit_value_def)
  show ?case
  proof (cases "n < 10")
    case True
    then show ?thesis using v [of n] by (subst digits.simps) (simp add: nat_of_digits_def)
  next
    case False
    then show ?thesis using 1 v [of "n mod 10"] by (subst digits.simps) (simp add: nat_of_digits_snoc)
  qed
qed

lemma digits_leading: "0 < n \<Longrightarrow> \<exists>c ds. digits n = c # ds \<and> c \<noteq> CHR ''0''"
proof (induction n rule: digits.induct)
  case (1 n)
  show ?case
  proof (cases "n < 10")
    case True
    have "(of_char (char_of (48 + n)) :: nat) \<noteq> of_char CHR ''0''" using 1(2) True by simp
    then have "char_of (48 + n) \<noteq> CHR ''0''" by metis
    then show ?thesis using True by (subst digits.simps) simp
  next
    case False
    then obtain c ds where "digits (n div 10) = c # ds" "c \<noteq> CHR ''0''" using 1(1) by fastforce
    then show ?thesis using False by (subst digits.simps) simp
  qed
qed

text \<open>What may follow a value inside a document: nothing, a comma or a closing bracket.\<close>

definition value_end :: "string \<Rightarrow> bool" where
  "value_end r \<longleftrightarrow> r = [] \<or> hd r \<in> set '',]}''"

lemma value_end_simps [simp]:
  "value_end []" "value_end (CHR '','' # r)" "value_end (CHR '']'' # r)" "value_end (CHR ''}'' # r)"
  by (simp_all add: value_end_def)

lemma value_end_number:
  assumes "value_end r"
  shows "takeWhile ascii_digit r = []" "number_frac r = ([], r)" "number_exp r = (None, r)"
  using assms by (cases r; auto simp: value_end_def ascii_digit_def number_frac_def number_exp_def startswith_def)+

lemma takeWhile_digits: "value_end r \<Longrightarrow> takeWhile ascii_digit (digits n @ r) = digits n"
  using digits_ascii [of n] value_end_number(1) [of r] by (simp add: takeWhile_append2 list_all_iff)

lemma digits_nonempty [simp]: "digits n \<noteq> []"
  by (subst digits.simps) simp

lemma digits_leading_digit: "\<exists>c ds. digits n = c # ds \<and> ascii_digit c"
  using digits_ascii [of n] by (cases "digits n") simp_all

lemma integer_digits_digits:
  assumes "value_end r"
  shows "integer_digits (digits n @ r) = digits n"
proof (cases "n = 0")
  case True
  have "digits 0 = ''0''" by code_simp
  with True show ?thesis by (simp add: integer_digits_def startswith_def)
next
  case False
  then obtain c ds where "digits n = c # ds" "c \<noteq> CHR ''0''" using digits_leading by blast
  then show ?thesis using takeWhile_digits [OF assms, of n] by (simp add: integer_digits_def startswith_def)
qed

lemma number_sign_digits: "number_sign (digits n @ r) = (False, digits n @ r)"
proof -
  obtain c ds where d: "digits n = c # ds" "ascii_digit c" using digits_leading_digit by blast
  then have "c \<noteq> CHR ''-''" by (auto simp: ascii_digit_def)
  then show ?thesis by (simp add: d number_sign_def startswith_def)
qed

lemma number_sign_minus [simp]: "number_sign (CHR ''-'' # s) = (True, s)"
  by (simp add: number_sign_def startswith_def)

lemma json_number_int:
  assumes "value_end r"
  shows "json_number (show_int i @ r) = Inr (PInt i, r)"
  using integer_digits_digits [OF assms] value_end_number [OF assms]
  by (simp add: json_number_def show_int_def nat_of_digits_digits number_sign_digits)

section \<open>Reading back documents\<close>

text \<open>Documents the writer can be read back from: no key twice in an object, and floats that satisfy \<open>ok\<close>.\<close>

fun json_ok :: "(rat \<Rightarrow> bool) \<Rightarrow> pyval \<Rightarrow> bool" where
  "json_ok ok (PFloat q) = ok q"
| "json_ok ok (PList xs) = (\<forall>x\<in>set xs. json_ok ok x)"
| "json_ok ok (PDict d) = (distinct (map fst d) \<and> (\<forall>(k, v)\<in>set d. json_ok ok v))"
| "json_ok ok _ = True"

text \<open>The printed form of a float reads back as that float.\<close>

definition float_text :: "(rat \<Rightarrow> string) \<Rightarrow> rat \<Rightarrow> bool" where
  "float_text repr_float q \<longleftrightarrow> (\<forall>r. value_end r \<longrightarrow> json_number (repr_float q @ r) = Inr (PFloat q, r))"

lemma json_number_starts:
  assumes "json_number s = Inr p"
  shows "\<exists>c cs. s = c # cs \<and> (c = CHR ''-'' \<or> ascii_digit c)"
proof (cases s)
  case Nil
  have "json_number [] = decode_error" by code_simp
  with assms Nil show ?thesis by simp
next
  case (Cons c cs)
  show ?thesis
  proof (rule ccontr)
    assume "\<not> ?thesis"
    then have no: "c \<noteq> CHR ''-''" "\<not> ascii_digit c" using Cons by simp_all
    have "ascii_digit CHR ''0''" by code_simp
    with no have "c \<noteq> CHR ''0''" by blast
    then have "integer_digits s = []" using no Cons by (simp add: integer_digits_def startswith_def)
    moreover have "number_sign s = (False, s)" using no Cons by (simp add: number_sign_def startswith_def)
    ultimately have "json_number s = decode_error" by (simp add: json_number_def Let_def case_prod_beta)
    with assms show False by simp
  qed
qed

lemma number_start:
  assumes "c = CHR ''-'' \<or> ascii_digit c"
  shows "c \<notin> set (''{[ntf ]}'' @ [CHR 0x22, CHR 0x09, CHR 0x0A, CHR 0x0D])"
proof
  assume "c \<in> set (''{[ntf ]}'' @ [CHR 0x22, CHR 0x09, CHR 0x0A, CHR 0x0D])"
  with assms show False by (elim disjE) (auto simp: ascii_digit_def)
qed

lemma json_value_number:
  assumes "json_number s = Inr p"
  shows "json_value (Suc n) s = Inr p"
proof -
  obtain c cs where s: "s = c # cs" and c: "c = CHR ''-'' \<or> ascii_digit c"
    using json_number_starts [OF assms] by blast
  have "c \<noteq> CHR 0x22" "c \<noteq> CHR ''{''" "c \<noteq> CHR ''[''" "c \<noteq> CHR ''n''" "c \<noteq> CHR ''t''" "c \<noteq> CHR ''f''"
    using number_start [OF c] by simp_all
  then show ?thesis using assms by (simp add: s startswith_def)
qed

lemma skip_ws_simps [simp]:
  "skip_ws [] = []"
  "skip_ws (c # s) = (if c \<in> {CHR '' '', CHR 0x09, CHR 0x0A, CHR 0x0D} then skip_ws s else c # s)"
  by (simp_all add: skip_ws_def)

text \<open>A printed value starts with neither white space nor a closing bracket.\<close>

lemma dumps_starts:
  assumes "json_ok (float_text repr_float) v" and "value_end r"
  shows "\<exists>c cs. json_dumps repr_float v @ r = c # cs \<and> c \<notin> set ('' ]}'' @ [CHR 0x09, CHR 0x0A, CHR 0x0D])"
proof -
  have num: ?thesis if num: "json_number (json_dumps repr_float v @ r) = Inr p" for p
  proof -
    obtain c cs where s: "json_dumps repr_float v @ r = c # cs" and c: "c = CHR ''-'' \<or> ascii_digit c"
      using json_number_starts [OF num] by blast
    show ?thesis using s number_start [OF c] by simp
  qed
  show ?thesis
  proof (cases v)
    case (PInt i)
    then show ?thesis using num json_number_int [OF assms(2), of i] by simp
  next
    case (PFloat q)
    then show ?thesis using num assms by (auto simp: float_text_def)
  qed (auto simp: json_quote_def)
qed

lemma skip_ws_dumps:
  "json_ok (float_text repr_float) v \<Longrightarrow> value_end r \<Longrightarrow> skip_ws (json_dumps repr_float v @ r) = json_dumps repr_float v @ r"
  using dumps_starts by fastforce

abbreviation reads_back :: "(rat \<Rightarrow> string) \<Rightarrow> pyval \<Rightarrow> bool" where
  "reads_back repr_float v \<equiv>
     (\<forall>n r. value_end r \<longrightarrow> 2 * length (json_dumps repr_float v @ r) + 1 \<le> n \<longrightarrow>
        json_value n (json_dumps repr_float v @ r) = Inr (v, r))"

lemma read_elements:
  assumes "xs \<noteq> []" and "\<forall>x\<in>set xs. json_ok (float_text repr_float) x \<and> reads_back repr_float x"
    and "2 * length (join '', '' (map (json_dumps repr_float) xs) @ CHR '']'' # r) + 2 \<le> n"
  shows "json_elements n acc (join '', '' (map (json_dumps repr_float) xs) @ CHR '']'' # r) = Inr (acc @ xs, r)"
  using assms
proof (induction xs arbitrary: n acc)
  case (Cons x xs)
  obtain m where n: "n = Suc m" using Cons.prems(3) by (cases n) auto
  show ?case
  proof (cases xs)
    case Nil
    then have "json_value m (json_dumps repr_float x @ CHR '']'' # r) = Inr (x, CHR '']'' # r)"
      using Cons.prems n by simp
    then show ?thesis using n Nil by simp
  next
    case (Cons y ys)
    define rest where "rest = join '', '' (map (json_dumps repr_float) xs) @ CHR '']'' # r"
    have doc: "join '', '' (map (json_dumps repr_float) (x # xs)) @ CHR '']'' # r =
        json_dumps repr_float x @ CHR '','' # CHR '' '' # rest"
      using Cons by (simp add: rest_def)
    have y: "\<exists>t. rest = json_dumps repr_float y @ t \<and> value_end t"
      using Cons by (cases ys) (auto simp: rest_def)
    then have ws: "skip_ws rest = rest" using skip_ws_dumps Cons.prems(2) Cons by auto
    have "json_value m (json_dumps repr_float x @ CHR '','' # CHR '' '' # rest) = Inr (x, CHR '','' # CHR '' '' # rest)"
      using Cons.prems(2,3) n unfolding doc by simp
    moreover have "json_elements m (acc @ [x]) rest = Inr ((acc @ [x]) @ xs, r)"
      unfolding rest_def using Cons.prems(2,3) Cons n unfolding doc by (intro Cons.IH) (auto simp: rest_def)
    ultimately show ?thesis unfolding doc n using ws by simp
  qed
qed simp

abbreviation member_text :: "(rat \<Rightarrow> string) \<Rightarrow> string \<times> pyval \<Rightarrow> string" where
  "member_text repr_float \<equiv> (\<lambda>(k, v). json_quote k @ '': '' @ json_dumps repr_float v)"

lemma read_members:
  assumes "d \<noteq> []" and "\<forall>(k, v)\<in>set d. json_ok (float_text repr_float) v \<and> reads_back repr_float v"
    and "2 * length (join '', '' (map (member_text repr_float) d) @ CHR ''}'' # r) + 2 \<le> n"
  shows "json_members n acc (join '', '' (map (member_text repr_float) d) @ CHR ''}'' # r) = Inr (acc @ d, r)"
  using assms
proof (induction d arbitrary: n acc)
  case (Cons kv d)
  obtain k v where kv: "kv = (k, v)" by fastforce
  obtain m where n: "n = Suc m" using Cons.prems(3) by (cases n) auto
  have step: "json_members n acc (member_text repr_float kv @ t) =
      (case skip_ws t of
         [] \<Rightarrow> decode_error
       | c # cs \<Rightarrow>
           if c = CHR ''}'' then Inr (acc @ [(k, v)], cs)
           else if c = CHR '','' then json_members m (acc @ [(k, v)]) (skip_ws cs)
           else decode_error)"
    if "value_end t" "2 * length (member_text repr_float kv @ t) + 2 \<le> n" for t
  proof -
    have "json_value m (json_dumps repr_float v @ t) = Inr (v, t)"
      using Cons.prems(2) that n kv by (simp add: json_quote_def)
    moreover have "skip_ws (json_dumps repr_float v @ t) = json_dumps repr_float v @ t"
      using skip_ws_dumps Cons.prems(2) that(1) kv by simp
    ultimately show ?thesis using json_string_quoted [of "[]" k] unfolding n kv
      by (simp add: json_quote_def startswith_def del: split_paired_All)
  qed
  show ?case
  proof (cases d)
    case Nil
    then show ?thesis using step [of "CHR ''}'' # r"] Cons.prems(3) kv by simp
  next
    case (Cons kw ds)
    define rest where "rest = join '', '' (map (member_text repr_float) d) @ CHR ''}'' # r"
    have doc: "join '', '' (map (member_text repr_float) (kv # d)) @ CHR ''}'' # r =
        member_text repr_float kv @ CHR '','' # CHR '' '' # rest"
      using Cons by (simp add: rest_def)
    have ws: "skip_ws rest = rest" using Cons by (cases ds) (auto simp: rest_def json_quote_def split: prod.splits)
    have "json_members m (acc @ [(k, v)]) rest = Inr ((acc @ [(k, v)]) @ d, r)"
      unfolding rest_def using Cons.prems(2,3) Cons n unfolding doc by (intro Cons.IH) (auto simp: rest_def)
    moreover have "2 * length (member_text repr_float kv @ CHR '','' # CHR '' '' # rest) + 2 \<le> n"
      using Cons.prems(3) unfolding doc .
    ultimately show ?thesis unfolding doc using step [of "CHR '','' # CHR '' '' # rest"] ws kv by simp
  qed
qed simp

lemma dumps_reads_back: "json_ok (float_text repr_float) v \<Longrightarrow> reads_back repr_float v"
proof (induction v)
  case (PFloat q)
  show ?case
  proof (intro allI impI)
    fix n r assume "value_end r" "2 * length (json_dumps repr_float (PFloat q) @ r) + 1 \<le> n"
    then show "json_value n (json_dumps repr_float (PFloat q) @ r) = Inr (PFloat q, r)"
      using PFloat json_value_number by (cases n) (auto simp: float_text_def)
  qed
next
  case (PInt i)
  show ?case
  proof (intro allI impI)
    fix n r assume "value_end r" "2 * length (json_dumps repr_float (PInt i) @ r) + 1 \<le> n"
    then show "json_value n (json_dumps repr_float (PInt i) @ r) = Inr (PInt i, r)"
      using json_value_number json_number_int by (cases n) simp_all
  qed
next
  case (PList xs)
  show ?case
  proof (intro allI impI)
    fix n r assume r: "value_end r" and l: "2 * length (json_dumps repr_float (PList xs) @ r) + 1 \<le> n"
    then obtain m where n: "n = Suc m" by (cases n) auto
    show "json_value n (json_dumps repr_float (PList xs) @ r) = Inr (PList xs, r)"
    proof (cases xs)
      case (Cons x ys)
      define doc where "doc = join '', '' (map (json_dumps repr_float) xs) @ CHR '']'' # r"
      obtain t where t: "doc = json_dumps repr_float x @ t" "value_end t"
        using Cons by (cases ys) (auto simp: doc_def)
      obtain c cs where c: "doc = c # cs" "c \<notin> set ('' ]}'' @ [CHR 0x09, CHR 0x0A, CHR 0x0D])"
        using dumps_starts [OF _ t(2), of repr_float x] PList.prems Cons t(1) by auto
      have "json_elements m [] doc = Inr ([] @ xs, r)"
        unfolding doc_def using PList l n Cons by (intro read_elements) auto
      then have "json_value n (CHR ''['' # doc) = Inr (PList xs, r)"
        using c by (simp add: n startswith_def)
      then show ?thesis by (simp add: doc_def)
    qed (simp add: n startswith_def)
  qed
next
  case (PDict d)
  show ?case
  proof (intro allI impI)
    fix n r assume r: "value_end r" and l: "2 * length (json_dumps repr_float (PDict d) @ r) + 1 \<le> n"
    then obtain m where n: "n = Suc m" by (cases n) auto
    show "json_value n (json_dumps repr_float (PDict d) @ r) = Inr (PDict d, r)"
    proof (cases d)
      case (Cons kv ds)
      define doc where "doc = join '', '' (map (member_text repr_float) d) @ CHR ''}'' # r"
      have c: "\<exists>cs. doc = CHR 0x22 # cs"
        using Cons by (cases ds) (auto simp: doc_def json_quote_def split: prod.splits)
      have "\<forall>(k, v)\<in>set d. reads_back repr_float v"
        using PDict by (auto simp: snds.simps)
      then have "json_members m [] doc = Inr ([] @ d, r)"
        unfolding doc_def using PDict.prems l n Cons by (intro read_members) auto
      then have "json_value n (CHR ''{'' # doc) = Inr (PDict d, r)"
        using c PDict.prems by (auto simp: n startswith_def dict_of_distinct)
      then show ?thesis by (simp add: doc_def)
    qed (simp add: n startswith_def)
  qed
next
  case (PStr s)
  show ?case
  proof (intro allI impI)
    fix n r assume "2 * length (json_dumps repr_float (PStr s) @ r) + 1 \<le> n"
    then show "json_value n (json_dumps repr_float (PStr s) @ r) = Inr (PStr s, r)"
      using json_string_quoted [of "[]" s r] by (cases n) (simp_all add: json_quote_def)
  qed
next
  case PNone
  show ?case
  proof (intro allI impI)
    fix n r assume "2 * length (json_dumps repr_float PNone @ r) + 1 \<le> n"
    then show "json_value n (json_dumps repr_float PNone @ r) = Inr (PNone, r)"
      by (cases n) (simp_all add: startswith_def)
  qed
next
  case (PBool b)
  show ?case
  proof (intro allI impI)
    fix n r assume "2 * length (json_dumps repr_float (PBool b) @ r) + 1 \<le> n"
    then show "json_value n (json_dumps repr_float (PBool b) @ r) = Inr (PBool b, r)"
      by (cases n) (simp_all add: startswith_def)
  qed
qed

lemma json_dumps_loads:
  assumes "json_ok (float_text repr_float) v"
  shows "json_loads (json_dumps repr_float v) = Inr v"
proof -
  have "skip_ws (json_dumps repr_float v) = json_dumps repr_float v"
    using skip_ws_dumps [OF assms, of "[]"] by simp
  moreover have "json_value (2 * length (json_dumps repr_float v) + 2) (json_dumps repr_float v) = Inr (v, [])"
    using dumps_reads_back [OF assms] by (metis append_Nil2 value_end_simps(1) add_left_mono one_le_numeral)
  ultimately show ?thesis by (simp add: json_loads_def)
qed

section \<open>Written documents are ASCII\<close>

abbreviation ascii :: "string \<Rightarrow> bool" where
  "ascii s \<equiv> list_all (\<lambda>c. of_char c < (128 :: nat)) s"

lemma ascii_join: "ascii sep \<Longrightarrow> \<forall>x\<in>set xs. ascii x \<Longrightarrow> ascii (join sep xs)"
  by (induction sep xs rule: join.induct) auto

lemma ascii_hex_digit: "n < 16 \<Longrightarrow> of_char (hex_digit n) < (128 :: nat)"
  by (simp add: hex_digit_def)

lemma ascii_escape: "ascii (json_escape c)"
proof -
  have "(of_char c :: nat) < 256" by simp
  then have "(of_char c :: nat) div 16 < 16" by (rule less_mult_imp_div_less [of _ 16 16, simplified])
  then show ?thesis using ascii_hex_digit [of "of_char c div 16"] ascii_hex_digit [of "of_char c mod 16"]
    by (simp add: json_escape_def Let_def)
qed

lemma ascii_quote: "ascii (json_quote s)"
  by (induction s) (use ascii_escape in \<open>auto simp: json_quote_def\<close>)

lemma ascii_show_int: "ascii (show_int i)"
proof -
  have "ascii (digits n)" for n
    by (rule list.pred_mono_strong [OF digits_ascii]) (simp add: ascii_digit_def Let_def)
  then show ?thesis by (simp add: show_int_def)
qed

lemma ascii_dumps: "json_ok (\<lambda>q. ascii (repr_float q)) v \<Longrightarrow> ascii (json_dumps repr_float v)"
proof (induction v)
  case (PList xs)
  then show ?case by (auto intro!: ascii_join)
next
  case (PDict d)
  have "\<forall>x\<in>set (map (member_text repr_float) d). ascii x"
  proof
    fix x assume "x \<in> set (map (member_text repr_float) d)"
    then obtain k v where kv: "(k, v) \<in> set d" "x = json_quote k @ '': '' @ json_dumps repr_float v" by auto
    then have "json_ok (\<lambda>q. ascii (repr_float q)) v" using PDict.prems by auto
    then have "ascii (json_dumps repr_float v)" using PDict.IH [of "(k, v)" v] kv(1) by (auto simp: snds.simps)
    then show "ascii x" using ascii_quote [of k] kv(2) by simp
  qed
  then show ?case by (auto intro!: ascii_join)
qed (simp_all add: ascii_show_int ascii_quote)

lemma json_ok_mono: "json_ok P v \<Longrightarrow> (\<And>q. P q \<Longrightarrow> Q q) \<Longrightarrow> json_ok Q v"
proof (induction v)
  case (PDict d)
  then show ?case by (fastforce simp: snds.simps)
qed auto

section \<open>Properties\<close>

text \<open>
  Reading a document back gives the document: what \<open>json.loads\<close> returns on the text
  that \<open>json.dumps\<close> wrote is the value that was written, for every value whose objects have no
  key twice and whose floats print to texts that read back.
\<close>

theorem json_roundtrip:
  assumes "json_ok (float_text repr_float) v"
  shows "json_loads (json_dumps repr_float v) = Inr v"
  using assms by (rule json_dumps_loads)

theorem json_roundtrip_witness:
  "json_loads (json_dumps (\<lambda>q. ''0.5'')
     (PDict [(''scores'', PList [PFloat (1 / 2), PNone]), (''job'', PStr [CHR ''a'', CHR 0x22, CHR 0x0A, CHR 0xE9]), (''n'', PInt (- 10))])) =
   Inr (PDict [(''scores'', PList [PFloat (1 / 2), PNone]), (''job'', PStr [CHR ''a'', CHR 0x22, CHR 0x0A, CHR 0xE9]), (''n'', PInt (- 10))])"
proof (rule json_roundtrip)
  have "float_text (\<lambda>q. ''0.5'') (1 / 2)"
    unfolding float_text_def
  proof (intro allI impI)
    fix r assume end_r: "value_end r"
    have half: "rnd64 (5 * pow10 (- 1)) = 1 / 2" by code_simp
    have "dropWhile ascii_digit r = r"
      using value_end_number(1) [OF end_r] takeWhile_dropWhile_id [of ascii_digit r] by simp
    then show "json_number (''0.5'' @ r) = Inr (PFloat (1 / 2), r)"
      using value_end_number(1,3) [OF end_r]
      by (simp add: half json_number_def number_sign_def integer_digits_def startswith_def number_frac_def nat_of_digits_def
          digit_value_def ascii_digit_def)
  qed
  then show "json_ok (float_text (\<lambda>q. ''0.5''))
     (PDict [(''scores'', PList [PFloat (1 / 2), PNone]), (''job'', PStr [CHR ''a'', CHR 0x22, CHR 0x0A, CHR 0xE9]), (''n'', PInt (- 10))])"
    by simp
qed

text \<open>
  Reading always ends with a value or with the decoder's error: the fuel given to the
  recursive descent is never used up, on any text.
\<close>

theorem json_loads_total:
  "(\<exists>v. json_loads s = Inr v) \<or> json_loads s = Inl (ValueError ''JSONDecodeError'')"
  using json_loads_errors [of s] by (cases "json_loads s") auto

end
