(* ===== verification/Base64.thy ===== *)
theory Base64
  imports Prelude
begin

text \<open>
  Two decoders of the standard library that the authentication middleware applies to the middle
  segment of a token (\<open>app/core/middleware/auth_middleware.py\<close>): \<open>base64.urlsafe_b64decode\<close>, in its
  lenient mode, and \<open>bytes.decode\<close> for UTF-8. Bytes are natural numbers below 256. The inverse
  encoders are defined to state which payloads a token can carry.
\<close>

section \<open>Decoding\<close>

definition b64_alphabet :: string where
  "b64_alphabet = ''ABCDEFGHIJKLMNOPQRSTUVWXYZabcdefghijklmnopqrstuvwxyz0123456789-_''"

text \<open>The URL-safe alphabet is translated to the standard one first, so both spellings are accepted.\<close>

definition b64_value :: "char \<Rightarrow> nat option" where
  "b64_value c =
     map_of (zip b64_alphabet [0..<64]) (if c = CHR ''+'' then CHR ''-'' else if c = CHR ''/'' then CHR ''_'' else c)"

text \<open>
  \<open>binascii.a2b_base64\<close>: \<open>quad\<close> is the position in the group of four, \<open>left\<close> the bits not yet
  written and \<open>pads\<close> the padding characters seen. Characters outside the alphabet are skipped, and
  completed padding ends the data.
\<close>

fun a2b_base64 :: "nat \<Rightarrow> nat \<Rightarrow> nat \<Rightarrow> string \<Rightarrow> nat list option" where
  "a2b_base64 quad left pads [] = (if quad = 0 then Some [] else None)"
| "a2b_base64 quad left pads (c # cs) =
     (if c = CHR ''='' then
        (if 2 \<le> quad \<and> 4 \<le> quad + Suc pads then Some []
         else a2b_base64 quad left (if 2 \<le> quad then Suc pads else pads) cs)
      else
        (case b64_value c of
           None \<Rightarrow> a2b_base64 quad left pads cs
         | Some v \<Rightarrow>
             if quad = 0 then a2b_base64 1 v 0 cs
             else if quad = 1 then map_option ((#) (left * 4 + v div 16)) (a2b_base64 2 (v mod 16) 0 cs)
             else if quad = 2 then map_option ((#) (left * 16 + v div 4)) (a2b_base64 3 (v mod 4) 0 cs)
             else map_option ((#) (left * 64 + v)) (a2b_base64 0 0 0 cs)))"

definition urlsafe_b64decode :: "string \<Rightarrow> nat list option" where
  "urlsafe_b64decode s = (if list_all (\<lambda>c. of_char c < (128 :: nat)) s then a2b_base64 0 0 0 s else None)"

text \<open>UTF-8; code points above U+00FF are outside the modelled range and refused like invalid bytes.\<close>

fun utf8_decode :: "nat list \<Rightarrow> string option" where
  "utf8_decode [] = Some []"
| "utf8_decode (b # bs) =
     (if b < 128 then map_option ((#) (char_of b)) (utf8_decode bs)
      else
        (case bs of
           [] \<Rightarrow> None
         | c # cs \<Rightarrow>
             if (b = 194 \<or> b = 195) \<and> 128 \<le> c \<and> c < 192
             then map_option ((#) (char_of ((b - 192) * 64 + (c - 128)))) (utf8_decode cs)
             else None))"

section \<open>Encoding\<close>

definition b64_char :: "nat \<Rightarrow> char" where
  "b64_char v = b64_alphabet ! v"

fun b64_encode :: "nat list \<Rightarrow> string" where
  "b64_encode [] = []"
| "b64_encode [a] = [b64_char (a div 4), b64_char (a mod 4 * 16)]"
| "b64_encode [a, b] = [b64_char (a div 4), b64_char (a mod 4 * 16 + b div 16), b64_char (b mod 16 * 4)]"
| "b64_encode (a # b # c # r) =
     b64_char (a div 4) # b64_char (a mod 4 * 16 + b div 16) # b64_char (b mod 16 * 4 + c div 64) #
     b64_char (c mod 64) # b64_encode r"

definition ascii_bytes :: "string \<Rightarrow> nat list" where
  "ascii_bytes s = map of_char s"

section \<open>Decoding what was encoded\<close>

lemma b64_char_table:
  "list_all (\<lambda>v. b64_value (b64_char v) = Some v \<and> b64_char v \<noteq> CHR ''='' \<and> b64_char v \<noteq> CHR ''.'' \<and>
     of_char (b64_char v) < (128 :: nat)) [0..<64]"
  by code_simp

lemma b64_char:
  assumes "v < 64"
  shows "b64_value (b64_char v) = Some v" "b64_char v \<noteq> CHR ''=''" "b64_char v \<noteq> CHR ''.''"
    "of_char (b64_char v) < (128 :: nat)"
  using b64_char_table assms by (simp_all add: list_all_iff)

text \<open>The padding that completes a group of four.\<close>

definition b64_padding :: "nat \<Rightarrow> string" where
  "b64_padding n = replicate ((4 - n mod 4) mod 4) CHR ''=''"

declare a2b_base64.simps(2) [simp del]

lemma a2b_step:
  assumes "v < 64"
  shows "a2b_base64 0 l p (b64_char v # cs) = a2b_base64 1 v 0 cs"
    "a2b_base64 (Suc 0) l p (b64_char v # cs) = map_option ((#) (l * 4 + v div 16)) (a2b_base64 2 (v mod 16) 0 cs)"
    "a2b_base64 2 l p (b64_char v # cs) = map_option ((#) (l * 16 + v div 4)) (a2b_base64 3 (v mod 4) 0 cs)"
    "a2b_base64 3 l p (b64_char v # cs) = map_option ((#) (l * 64 + v)) (a2b_base64 0 0 0 cs)"
  using b64_char [OF assms] by (simp_all add: a2b_base64.simps(2))

lemma a2b_pad:
  "a2b_base64 2 l 0 (CHR ''='' # CHR ''='' # cs) = Some []" "a2b_base64 3 l p (CHR ''='' # cs) = Some []"
  by (simp_all add: a2b_base64.simps(2))

text \<open>The bits of three bytes in four groups of six.\<close>

lemma six_bits:
  assumes "a < 256" "b < 256" "c < (256 :: nat)"
  shows "a div 4 < 64" "a mod 4 * 16 + b div 16 < 64" "b mod 16 * 4 + c div 64 < 64"
    "(a mod 4 * 16 + b div 16) div 16 = a mod 4" "(a mod 4 * 16 + b div 16) mod 16 = b div 16"
    "(b mod 16 * 4 + c div 64) div 4 = b mod 16" "(b mod 16 * 4 + c div 64) mod 4 = c div 64"
  using assms by (auto simp: div_add1_eq mod_add_eq less_mult_imp_div_less)

lemma a2b_encode:
  "list_all (\<lambda>b. b < 256) bs \<Longrightarrow> a2b_base64 0 l p (b64_encode bs @ b64_padding (length (b64_encode bs))) = Some bs"
proof (induction bs arbitrary: l p rule: b64_encode.induct)
  case (4 a b c r)
  then have bits: "a < 256" "b < 256" "c < 256" by auto
  have pad: "b64_padding (Suc (Suc (Suc (Suc n)))) = b64_padding n" for n
    by (simp add: b64_padding_def)
  show ?case using 4 six_bits [OF bits] by (simp add: a2b_step pad)
next
  case (2 a)
  have "b64_padding (Suc (Suc 0)) = ''==''" by code_simp
  with 2 show ?case using six_bits [of a 0 0] by (simp add: a2b_step a2b_pad)
next
  case (3 a b)
  then show ?case using six_bits [of a b 0] by (simp add: a2b_step a2b_pad b64_padding_def)
qed (simp add: b64_padding_def)

lemma b64_encode_chars:
  "list_all (\<lambda>b. b < 256) bs \<Longrightarrow> list_all (\<lambda>c. c \<noteq> CHR ''.'' \<and> of_char c < (128 :: nat)) (b64_encode bs)"
proof (induction bs rule: b64_encode.induct)
  case (4 a b c r)
  then show ?case using six_bits [of a b c] b64_char by simp
next
  case (2 a)
  then show ?case using six_bits [of a 0 0] b64_char by simp
next
  case (3 a b)
  then show ?case using six_bits [of a b 0] b64_char by simp
qed simp

lemma b64_roundtrip:
  assumes "list_all (\<lambda>b. b < 256) bs"
  shows "urlsafe_b64decode (b64_encode bs @ b64_padding (length (b64_encode bs))) = Some bs"
proof -
  have "list_all (\<lambda>c. of_char c < (128 :: nat)) (b64_encode bs)"
    using b64_encode_chars [OF assms] by (rule list.pred_mono_strong) simp
  moreover have "list_all (\<lambda>c. of_char c < (128 :: nat)) (b64_padding (length (b64_encode bs)))"
    by (simp add: b64_padding_def list_all_length)
  ultimately have "list_all (\<lambda>c. of_char c < (128 :: nat)) (b64_encode bs @ b64_padding (length (b64_encode bs)))"
    by simp
  then show ?thesis using a2b_encode [OF assms] by (simp add: urlsafe_b64decode_def)
qed

lemma utf8_ascii: "list_all (\<lambda>c. of_char c < (128 :: nat)) s \<Longrightarrow> utf8_decode (ascii_bytes s) = Some s"
  by (induction s) (simp_all add: ascii_bytes_def)

lemma ascii_bytes_bound: "list_all (\<lambda>b. b < 256) (ascii_bytes s)"
  by (simp add: ascii_bytes_def list_all_iff)

end
