(* ===== verification/Middleware.thy ===== *)
theory Middleware
  imports Api_Deps Errors Json Base64
begin

text \<open>
  The middleware of \<open>app/core/middleware\<close>, the two middlewares of \<open>app/core/config/logging.py\<close> and
  \<open>observability.py\<close>, and the stack that \<open>add_middlewares\<close> in \<open>app/main.py\<close> builds from them.

  A request in flight is a \<open>world\<close>: the request with its mutable state, the number of identifiers and
  clock readings drawn so far, the structured logging context, the attributes of the active span and
  the log. An application maps a world to a response or a raised exception and the world it leaves;
  a middleware maps the application below it (\<open>call_next\<close>) to an application. \<open>runtime\<close> holds what the
  interpreter and the tracing library deliver: identifiers, clock readings, time stamps, the texts of
  exceptions and floats, the active span and the context variable of \<open>asgi_correlation_id\<close>.
\<close>

section \<open>Requests, responses and the world\<close>

record http_request = request +
  req_method :: string
  req_url :: string
  req_query :: "(string, string) dict"
  req_query_text :: string

record response =
  status_code :: int
  resp_headers :: headers
  content :: pyval

datatype log_event =
    AuditEvent pydict
  | UnhandledError string string pyval string
    \<comment> \<open>path, method, request id, exception text\<close>
  | RequestLatency bool string string rat
    \<comment> \<open>whether a warning; path, method, milliseconds\<close>
  | TenantContextEvent pyval string string
  | AuthExtractionFailed string
  | RequestCompleted int rat "string option"
    \<comment> \<open>status, duration, content type\<close>
  | RequestFailed rat

record world =
  w_req :: http_request
  w_ids :: nat
  w_ticks :: nat
  w_context :: pydict
  w_span :: "(string, string) dict"
  w_log :: "log_event list"

record runtime =
  uuid4 :: "nat \<Rightarrow> string"
  perf_counter :: "nat \<Rightarrow> rat"
  utc_now :: "nat \<Rightarrow> string"
  exn_text :: "exn \<Rightarrow> string"
  float_str :: "rat \<Rightarrow> string"
  span_context :: "(nat \<times> nat) option"
    \<comment> \<open>trace id and span id of a valid active span\<close>
  asgi_correlation_id :: "string option"

type_synonym application = "world \<Rightarrow> response res \<times> world"
type_synonym middleware = "application \<Rightarrow> application"

definition add_log :: "log_event \<Rightarrow> world \<Rightarrow> world" where
  "add_log e w = w\<lparr>w_log := w_log w @ [e]\<rparr>"

definition state_get :: "world \<Rightarrow> string \<Rightarrow> pyval \<Rightarrow> pyval" where
  "state_get w k v = dget_dflt (req_state (w_req w)) k v"

definition state_set :: "string \<Rightarrow> pyval \<Rightarrow> world \<Rightarrow> world" where
  "state_set k v w = w\<lparr>w_req := (w_req w)\<lparr>req_state := dset (req_state (w_req w)) k v\<rparr>\<rparr>"

definition set_header :: "string \<Rightarrow> string \<Rightarrow> response \<Rightarrow> response" where
  "set_header name v r = r\<lparr>resp_headers := header_set (resp_headers r) name v\<rparr>"

text \<open>A header value that is no string has no \<open>encode\<close> method.\<close>

definition set_header_value :: "string \<Rightarrow> pyval \<Rightarrow> response \<Rightarrow> response res" where
  "set_header_value name v r = bindE (as_str v) (\<lambda>s. Inr (set_header name s r))"

definition request_header :: "world \<Rightarrow> string \<Rightarrow> string option" where
  "request_header w name = header_get (req_headers (w_req w)) name"

definition text_or_none :: "string option \<Rightarrow> pyval" where
  "text_or_none s = (case s of Some t \<Rightarrow> PStr t | None \<Rightarrow> PNone)"

text \<open>A reading of the performance counter, and a fresh identifier.\<close>

definition tick :: "runtime \<Rightarrow> world \<Rightarrow> rat \<times> world" where
  "tick rt w = (perf_counter rt (w_ticks w), w\<lparr>w_ticks := Suc (w_ticks w)\<rparr>)"

definition fresh_id :: "runtime \<Rightarrow> world \<Rightarrow> string \<times> world" where
  "fresh_id rt w = (uuid4 rt (w_ids w), w\<lparr>w_ids := Suc (w_ids w)\<rparr>)"

section \<open>Identifiers\<close>

text \<open>The header's value unless it is absent or empty, then a fresh identifier.\<close>

definition header_or_fresh :: "runtime \<Rightarrow> string \<Rightarrow> world \<Rightarrow> string \<times> world" where
  "header_or_fresh rt name w =
     (case request_header w name of
        Some v \<Rightarrow> if v = [] then fresh_id rt w else (v, w)
      | None \<Rightarrow> fresh_id rt w)"

definition correlation_id_middleware :: "runtime \<Rightarrow> string \<Rightarrow> middleware" where
  "correlation_id_middleware rt header_name call_next w =
     (let (correlation_id, w) = header_or_fresh rt header_name w;
          w = state_set ''correlation_id'' (PStr correlation_id) w;
          (response, w) = call_next w in
      (bindE response (\<lambda>r. Inr (set_header header_name correlation_id r)), w))"

definition request_id_middleware :: "runtime \<Rightarrow> string \<Rightarrow> middleware" where
  "request_id_middleware rt header_name call_next w =
     (let (request_id, w) = header_or_fresh rt header_name w;
          w = state_set ''request_id'' (PStr request_id) w;
          (response, w) = call_next w in
      (bindE response (\<lambda>r. Inr (set_header header_name request_id r)), w))"

definition get_correlation_id :: "world \<Rightarrow> pyval" where
  "get_correlation_id w = state_get w ''correlation_id'' PNone"

definition get_request_id :: "runtime \<Rightarrow> world \<Rightarrow> pyval \<times> world" where
  "get_request_id rt w =
     (let (fallback, w') = fresh_id rt w in (state_get w' ''request_id'' (PStr fallback), w'))"

section \<open>Exempt paths\<close>

definition default_exempt_paths :: "string list" where
  "default_exempt_paths = [''/health'', ''/docs'', ''/redoc'', ''/openapi.json'']"

definition exempt :: "string list \<Rightarrow> world \<Rightarrow> bool" where
  "exempt exempt_paths w =
     list_ex (startswith (url_path (w_req w))) (if exempt_paths = [] then default_exempt_paths else exempt_paths)"

section \<open>Authentication context\<close>

definition token_padding :: "string \<Rightarrow> string" where
  "token_padding payload =
     (let padding = 4 - length payload mod 4 in
      if padding \<noteq> 4 then payload @ replicate padding CHR ''='' else payload)"

definition extract_user_from_token :: "string \<Rightarrow> pyval option" where
  "extract_user_from_token auth_header =
     (if \<not> startswith auth_header ''Bearer '' then None
      else
        (case split_on ''.'' [] (drop 7 auth_header) of
           [_, payload, _] \<Rightarrow>
             (case urlsafe_b64decode (token_padding payload) of
                None \<Rightarrow> None
              | Some bytes \<Rightarrow>
                  (case utf8_decode bytes of
                     None \<Rightarrow> None
                   | Some t \<Rightarrow> (case json_loads t of Inr v \<Rightarrow> Some v | Inl _ \<Rightarrow> None)))
         | _ \<Rightarrow> None))"

text \<open>The assignments inside the \<open>try\<close>; the first \<open>get\<close> on a payload that is no object raises.\<close>

definition set_user_state :: "pyval \<Rightarrow> world \<Rightarrow> world res" where
  "set_user_state user_info w =
     bindE (py_get user_info ''sub'' PNone) (\<lambda>sub.
     bindE (py_get user_info ''email'' PNone) (\<lambda>email.
     bindE (py_get user_info ''permissions'' (PList [])) (\<lambda>perms.
     Inr (state_set ''user_permissions'' perms (state_set ''user_email'' email (state_set ''user_id'' sub w))))))"

definition auth_context :: "world \<Rightarrow> world" where
  "auth_context w =
     (case request_header w ''Authorization'' of
        None \<Rightarrow> w
      | Some auth_header \<Rightarrow>
          if auth_header = [] then w
          else
            let w = state_set ''authorization'' (PStr auth_header) w in
            (case extract_user_from_token auth_header of
               None \<Rightarrow> w
             | Some user_info \<Rightarrow>
                 if truthy user_info then
                   (case set_user_state user_info w of
                      Inr w' \<Rightarrow> w'
                    | Inl e \<Rightarrow> add_log (AuthExtractionFailed (url_path (w_req w))) w)
                 else w))"

definition auth_middleware :: "string list \<Rightarrow> middleware" where
  "auth_middleware exempt_paths call_next w =
     (if exempt exempt_paths w then call_next w else call_next (auth_context w))"

section \<open>Tenant\<close>

definition request_tenant :: "string \<Rightarrow> world \<Rightarrow> pyval" where
  "request_tenant default_tenant w =
     (let tenant_id = text_or_none (request_header w ''X-Tenant-ID'');
          tenant_id = (if truthy tenant_id then tenant_id else state_get w ''tenant_id_from_jwt'' PNone) in
      if truthy tenant_id then tenant_id else PStr default_tenant)"

definition tenant_middleware :: "string list \<Rightarrow> string \<Rightarrow> middleware" where
  "tenant_middleware exempt_paths default_tenant call_next w =
     (if exempt exempt_paths w then call_next w
      else
        let tenant_id = request_tenant default_tenant w;
            w = state_set ''tenant_header'' tenant_id (state_set ''tenant_id'' tenant_id w);
            w = add_log (TenantContextEvent tenant_id (url_path (w_req w)) (req_method (w_req w))) w;
            (response, w) = call_next w in
        (bindE response (set_header_value ''X-Tenant-ID'' tenant_id), w))"

section \<open>Latency\<close>

text \<open>\<open>f"{x:.2f}"\<close>: the nearest hundredth of the exact value, ties to even.\<close>

definition two_digits :: "nat \<Rightarrow> string" where
  "two_digits n = [char_of (48 + n div 10), char_of (48 + n mod 10)]"

definition format_2f :: "rat \<Rightarrow> string" where
  "format_2f x =
     (let n = nat (round_even (\<bar>x\<bar> * 100)) in
      (if x < 0 then ''-'' else []) @ digits (n div 100) @ ''.'' @ two_digits (n mod 100))"

definition elapsed_ms :: "rat \<Rightarrow> rat \<Rightarrow> rat" where
  "elapsed_ms start_time end_time = fmul (fsub end_time start_time) 1000"

definition latency_middleware :: "runtime \<Rightarrow> rat \<Rightarrow> bool \<Rightarrow> middleware" where
  "latency_middleware rt slow_threshold_ms log_all_requests call_next w =
     (let (start_time, w) = tick rt w;
          (response, w) = call_next w;
          (end_time, w) = tick rt w;
          latency_ms = elapsed_ms start_time end_time;
          response = bindE response (\<lambda>r. Inr (set_header ''X-Process-Time-Ms'' (format_2f latency_ms) r));
          slow = slow_threshold_ms < latency_ms in
      (response,
       if slow \<or> log_all_requests
       then add_log (RequestLatency slow (url_path (w_req w)) (req_method (w_req w)) latency_ms) w else w))"

section \<open>Audit\<close>

definition AUDIT_METHODS :: "string list" where
  "AUDIT_METHODS = [''POST'', ''PUT'', ''PATCH'', ''DELETE'']"

definition create_audit_record :: "world \<Rightarrow> pydict" where
  "create_audit_record w =
     [(''timestamp'', PNone), (''method'', PStr (req_method (w_req w))), (''path'', PStr (req_url (w_req w))),
      (''query_params'', PDict (map (\<lambda>(k, v). (k, PStr v)) (dict_of (req_query (w_req w))))),
      (''client_ip'', text_or_none (client_host (w_req w))),
      (''user_agent'', text_or_none (request_header w ''User-Agent'')),
      (''request_id'', state_get w ''request_id'' PNone), (''correlation_id'', state_get w ''correlation_id'' PNone),
      (''tenant_id'', state_get w ''tenant_id'' PNone), (''user_id'', state_get w ''user_id'' PNone)]"

text \<open>The time stamp is taken when the record is written.\<close>

definition log_audit :: "runtime \<Rightarrow> pydict \<Rightarrow> world \<Rightarrow> world" where
  "log_audit rt record w = add_log (AuditEvent (dset record ''timestamp'' (PStr (utc_now rt (w_ticks w))))) w"

definition audit_middleware :: "runtime \<Rightarrow> string list \<Rightarrow> middleware" where
  "audit_middleware rt exempt_paths call_next w =
     (if exempt exempt_paths w then call_next w
      else
        let should_audit = req_method (w_req w) \<in> set AUDIT_METHODS;
            audit_record = create_audit_record w;
            (response, w) = call_next w in
        (case response of
           Inl e \<Rightarrow> (Inl e, w)
         | Inr r \<Rightarrow>
             (Inr r, if should_audit then log_audit rt (dset audit_record ''status_code'' (PInt (status_code r))) w else w)))"

section \<open>Errors\<close>

definition internal_error :: "pyval \<Rightarrow> string \<Rightarrow> response res" where
  "internal_error request_id detail =
     set_header_value ''X-Request-ID'' request_id
       \<lparr>status_code = 500, resp_headers = [(''content-type'', ''application/json'')],
        content = PDict [(''error'', PDict [(''type'', PStr ''internal_error''), (''message'', PStr detail),
                                            (''request_id'', request_id)])]\<rparr>"

definition error_middleware :: "runtime \<Rightarrow> bool \<Rightarrow> middleware" where
  "error_middleware rt include_details call_next w =
     (case call_next w of
        (Inr r, w) \<Rightarrow> (Inr r, w)
      | (Inl e, w) \<Rightarrow>
          let request_id = state_get w ''request_id'' (PStr ''unknown'');
              detail = (if include_details then exn_text rt e else ''Internal server error'') in
          (internal_error request_id detail,
           add_log (UnhandledError (url_path (w_req w)) (req_method (w_req w)) request_id (exn_text rt e)) w))"

section \<open>Tracing and logging context\<close>

text \<open>\<open>format(n, "0<width>x")\<close>\<close>

fun hex_digits :: "nat \<Rightarrow> string" where
  "hex_digits n = (if n < 16 then [hex_digit n] else hex_digits (n div 16) @ [hex_digit (n mod 16)])"

declare hex_digits.simps [simp del]

definition format_hex :: "nat \<Rightarrow> nat \<Rightarrow> string" where
  "format_hex width n = replicate (width - length (hex_digits n)) CHR ''0'' @ hex_digits n"

definition get_trace_context :: "runtime \<Rightarrow> string option \<times> string option" where
  "get_trace_context rt =
     (case span_context rt of
        None \<Rightarrow> (None, None)
      | Some (tid, sid) \<Rightarrow>
          (if tid \<noteq> 0 then Some (format_hex 32 tid) else None,
           if sid \<noteq> 0 then Some (format_hex 16 sid) else None))"

definition correlation_tracing_middleware :: "runtime \<Rightarrow> middleware" where
  "correlation_tracing_middleware rt call_next w =
     (case (span_context rt, asgi_correlation_id rt) of
        (Some _, Some (c # cs)) \<Rightarrow>
          call_next (w\<lparr>w_span := dset (dset (w_span w) ''correlation_id'' (c # cs)) ''http.request_id'' (c # cs)\<rparr>)
      | _ \<Rightarrow> call_next w)"

definition logging_context :: "runtime \<Rightarrow> settings \<Rightarrow> world \<Rightarrow> pydict" where
  "logging_context rt s w =
     (let (trace_id, span_id) = get_trace_context rt in
      [(''service'', PStr (APP_NAME (app s))), (''environment'', PStr (environment_value (ENVIRONMENT (app s)))),
       (''correlation_id'', state_get w ''correlation_id'' PNone),
       (''trace_id'', text_or_none trace_id), (''span_id'', text_or_none span_id),
       (''method'', PStr (req_method (w_req w))), (''path'', PStr (url_path (w_req w))),
       (''query'', if req_query_text (w_req w) = [] then PNone else PStr (req_query_text (w_req w))),
       (''client_ip'', text_or_none (client_host (w_req w))),
       (''user_agent'', text_or_none (request_header w ''user-agent''))])"

definition complete_request :: "runtime \<Rightarrow> pyval \<Rightarrow> rat \<Rightarrow> response \<Rightarrow> response res" where
  "complete_request rt request_id duration_ms r =
     bindE (if truthy request_id
            then bindE (set_header_value ''X-Request-ID'' request_id r) (set_header_value ''X-Correlation-ID'' request_id)
            else Inr r)
       (\<lambda>r. Inr (set_header ''X-Process-Time-Ms'' (float_str rt duration_ms) r))"

definition request_failed :: "runtime \<Rightarrow> rat \<Rightarrow> exn \<Rightarrow> world \<Rightarrow> response res \<times> world" where
  "request_failed rt started e w =
     (let (ended, w) = tick rt w in (Inl e, add_log (RequestFailed (round2 (elapsed_ms started ended))) w))"

text \<open>The handler covers the header assignments too: one that raises is logged as a failed request.\<close>

definition finish_request :: "runtime \<Rightarrow> pyval \<Rightarrow> rat \<Rightarrow> response res \<Rightarrow> world \<Rightarrow> response res \<times> world" where
  "finish_request rt request_id started response w =
     (case response of
        Inl e \<Rightarrow> request_failed rt started e w
      | Inr r \<Rightarrow>
          let (ended, w) = tick rt w; duration_ms = round2 (elapsed_ms started ended) in
          (case complete_request rt request_id duration_ms r of
             Inl e \<Rightarrow> request_failed rt started e w
           | Inr r \<Rightarrow>
               (Inr r, add_log (RequestCompleted (status_code r) duration_ms (header_get (resp_headers r) ''content-type'')) w)))"

definition logging_context_middleware :: "runtime \<Rightarrow> settings \<Rightarrow> middleware" where
  "logging_context_middleware rt s call_next w =
     (let (started, w) = tick rt w;
          request_id = state_get w ''correlation_id'' PNone;
          (response, w) = call_next (w\<lparr>w_context := logging_context rt s w\<rparr>);
          (response, w) = finish_request rt request_id started response w in
      (response, w\<lparr>w_context := []\<rparr>))"

section \<open>The stack\<close>

text \<open>
  The middlewares in the order \<open>add_middlewares\<close> adds them. \<open>cors_layer\<close> is the framework's CORS
  middleware. The framework runs the last one added first.
\<close>

definition add_middlewares :: "runtime \<Rightarrow> settings \<Rightarrow> middleware \<Rightarrow> middleware list" where
  "add_middlewares rt s cors_layer =
     [cors_layer, logging_context_middleware rt s, correlation_tracing_middleware rt,
      error_middleware rt (\<not> is_production s), audit_middleware rt [], latency_middleware rt 1000 False,
      tenant_middleware [] ''default'', auth_middleware [], request_id_middleware rt ''X-Request-ID'',
      correlation_id_middleware rt ''X-Correlation-ID'']"

definition build_stack :: "middleware list \<Rightarrow> middleware" where
  "build_stack ms endpoint = fold (\<lambda>m next_app. m next_app) ms endpoint"

text \<open>
  The handlers that \<open>register_exception_handlers\<close> installs for specific classes run inside the
  stack; the one for \<open>Exception\<close> runs outside it.
\<close>

definition to_response :: "json_response \<Rightarrow> response" where
  "to_response r = \<lparr>status_code = resp_status r, resp_headers = [(''content-type'', ''application/json'')],
     content = PDict (resp_body r)\<rparr>"

definition exception_layer :: middleware where
  "exception_layer call_next w =
     (case call_next w of
        (Inl (ServiceException c s d), w) \<Rightarrow>
          (Inr (to_response (handle_exception (url_path (w_req w)) (ServiceException c s d))), w)
      | (Inl (HTTPException s d), w) \<Rightarrow>
          (Inr (to_response (handle_exception (url_path (w_req w)) (HTTPException s d))), w)
      | (r, w) \<Rightarrow> (r, w))"

definition server_error_layer :: middleware where
  "server_error_layer call_next w =
     (case call_next w of
        (Inl e, w) \<Rightarrow> (Inr (to_response (handle_exception (url_path (w_req w)) e)), w)
      | (Inr r, w) \<Rightarrow> (Inr r, w))"

definition serve :: "runtime \<Rightarrow> settings \<Rightarrow> middleware \<Rightarrow> application \<Rightarrow> application" where
  "serve rt s cors_layer routes =
     server_error_layer (build_stack (add_middlewares rt s cors_layer) (exception_layer routes))"

section \<open>Layers\<close>

text \<open>
  The contract of a middleware that lets its request through: it calls the application below once,
  on the world \<open>before\<close> makes, turns an answer into \<open>after\<close>, raises what was raised below, and leaves
  the request as the application below left it.
\<close>

locale layer =
  fixes mw :: middleware
    and before :: "world \<Rightarrow> world"
    and after :: "world \<Rightarrow> world \<Rightarrow> response \<Rightarrow> response res"
    and left :: "world \<Rightarrow> world \<Rightarrow> response res \<Rightarrow> world"
  assumes passes: "call_next (before w) = (x, w') \<Longrightarrow> mw call_next w = (bindE x (after w w'), left w w' x)"
    and left_request: "w_req (left w w' x) = w_req w'"
    and same_answer: "after w w' r = Inr r' \<Longrightarrow> status_code r' = status_code r \<and> content r' = content r"
begin

lemma raises: "fst (call_next (before w)) = Inl e \<Longrightarrow> fst (mw call_next w) = Inl e"
  using passes [of call_next w] by (cases "call_next (before w)") auto

lemma answers:
  assumes "call_next (before w) = (Inr r, w')" and "after w w' r = Inr r'"
  shows "\<exists>w''. mw call_next w = (Inr r', w'') \<and> w_req w'' = w_req w'"
  using passes [of call_next w, OF assms(1)] assms(2) left_request by auto

lemma request_below: "w_req (snd (mw call_next w)) = w_req (snd (call_next (before w)))"
  using passes [of call_next w] left_request by (cases "call_next (before w)") auto

lemma same_status:
  assumes "fst (mw call_next w) = Inr r'"
  shows "\<exists>r. fst (call_next (before w)) = Inr r \<and> status_code r' = status_code r \<and> content r' = content r"
proof -
  obtain x w' where x: "call_next (before w) = (x, w')" by fastforce
  with assms passes [of call_next w, OF x] have "bindE x (after w w') = Inr r'" by simp
  then obtain r where "x = Inr r" "after w w' r = Inr r'" by (auto simp: bindE_eq_Inr)
  with x same_answer show ?thesis by auto
qed

end

text \<open>Two layers on top of each other are a layer.\<close>

locale layer_pair = outer: layer m1 b1 a1 l1 + inner: layer m2 b2 a2 l2
  for m1 :: middleware and b1 a1 l1 and m2 :: middleware and b2 a2 l2

sublocale layer_pair \<subseteq> both: layer "\<lambda>call_next. m1 (m2 call_next)" "\<lambda>w. b2 (b1 w)"
  "\<lambda>w w' r. bindE (a2 (b1 w) w' r) (a1 w (l2 (b1 w) w' (Inr r)))"
  "\<lambda>w w' x. l1 w (l2 (b1 w) w' x) (bindE x (a2 (b1 w) w'))"
proof
  fix call_next :: application and w x w' assume "call_next (b2 (b1 w)) = (x, w')"
  then show "m1 (m2 call_next) w = (bindE x (\<lambda>r. bindE (a2 (b1 w) w' r) (a1 w (l2 (b1 w) w' (Inr r)))),
      l1 w (l2 (b1 w) w' x) (bindE x (a2 (b1 w) w')))"
    using outer.passes [of "m2 call_next" w] inner.passes [of call_next "b1 w"] by (cases x) simp_all
next
  fix w w' x
  show "w_req (l1 w (l2 (b1 w) w' x) (bindE x (a2 (b1 w) w'))) = w_req w'"
    by (simp add: outer.left_request inner.left_request)
next
  fix w w' r r' assume "bindE (a2 (b1 w) w' r) (a1 w (l2 (b1 w) w' (Inr r))) = Inr r'"
  then show "status_code r' = status_code r \<and> content r' = content r"
    using outer.same_answer inner.same_answer by (fastforce simp: bindE_eq_Inr)
qed

text \<open>What each middleware does to the request on the way in.\<close>

definition tag_request :: "runtime \<Rightarrow> string \<Rightarrow> string \<Rightarrow> world \<Rightarrow> world" where
  "tag_request rt name key w = (case header_or_fresh rt name w of (i, w') \<Rightarrow> state_set key (PStr i) w')"

definition set_tenant :: "string \<Rightarrow> world \<Rightarrow> world" where
  "set_tenant dflt w =
     (let t = request_tenant dflt w; w = state_set ''tenant_header'' t (state_set ''tenant_id'' t w) in
      add_log (TenantContextEvent t (url_path (w_req w)) (req_method (w_req w))) w)"

lemma world_updates [simp]:
  "w_req (add_log e w) = w_req w" "w_req (snd (tick rt w)) = w_req w" "w_req (snd (fresh_id rt w)) = w_req w"
  "w_req (snd (header_or_fresh rt name w)) = w_req w"
  by (simp_all add: add_log_def tick_def fresh_id_def header_or_fresh_def split: option.splits)

lemma set_header_simps [simp]:
  "status_code (set_header k v r) = status_code r" "content (set_header k v r) = content r"
  "header_get (resp_headers (set_header k v r)) k' = (if lower k' = lower k then Some v else header_get (resp_headers r) k')"
  by (simp_all add: set_header_def)

interpretation correlation: layer "correlation_id_middleware rt name" "tag_request rt name ''correlation_id''"
  "\<lambda>w w' r. Inr (set_header name (fst (header_or_fresh rt name w)) r)" "\<lambda>w w' x. w'" for rt name
  by unfold_locales (auto simp: correlation_id_middleware_def tag_request_def split: prod.splits)

interpretation request_id: layer "request_id_middleware rt name" "tag_request rt name ''request_id''"
  "\<lambda>w w' r. Inr (set_header name (fst (header_or_fresh rt name w)) r)" "\<lambda>w w' x. w'" for rt name
  by unfold_locales (auto simp: request_id_middleware_def tag_request_def split: prod.splits)

interpretation auth: layer "auth_middleware ps" "\<lambda>w. if exempt ps w then w else auth_context w"
  "\<lambda>w w' r. Inr r" "\<lambda>w w' x. w'" for ps
  by unfold_locales (auto simp: auth_middleware_def bindE_def split: sum.splits)

interpretation tenant: layer "tenant_middleware ps dflt" "\<lambda>w. if exempt ps w then w else set_tenant dflt w"
  "\<lambda>w w' r. if exempt ps w then Inr r else set_header_value ''X-Tenant-ID'' (request_tenant dflt w) r" "\<lambda>w w' x. w'" for ps dflt
  by unfold_locales
    (auto simp: tenant_middleware_def set_tenant_def Let_def set_header_value_def bindE_eq_Inr bindE_def
      split: sum.splits if_splits)

interpretation latency: layer "latency_middleware rt slow every" "\<lambda>w. snd (tick rt w)"
  "\<lambda>w w' r. Inr (set_header ''X-Process-Time-Ms'' (format_2f (elapsed_ms (fst (tick rt w)) (fst (tick rt w')))) r)"
  "\<lambda>w w' x. let ms = elapsed_ms (fst (tick rt w)) (fst (tick rt w')); w' = snd (tick rt w') in
     if slow < ms \<or> every then add_log (RequestLatency (slow < ms) (url_path (w_req w')) (req_method (w_req w')) ms) w' else w'"
  for rt slow every
  by unfold_locales (simp_all add: latency_middleware_def tick_def Let_def)

interpretation audit: layer "audit_middleware rt ps" "\<lambda>w. w" "\<lambda>w w' r. Inr r"
  "\<lambda>w w' x. case x of
     Inl e \<Rightarrow> w'
   | Inr r \<Rightarrow> if \<not> exempt ps w \<and> req_method (w_req w) \<in> set AUDIT_METHODS
             then log_audit rt (dset (create_audit_record w) ''status_code'' (PInt (status_code r))) w' else w'"
  for rt ps
  by unfold_locales (auto simp: audit_middleware_def Let_def log_audit_def bindE_def split: sum.splits)

definition tag_span :: "runtime \<Rightarrow> world \<Rightarrow> world" where
  "tag_span rt w =
     (case (span_context rt, asgi_correlation_id rt) of
        (Some _, Some (c # cs)) \<Rightarrow>
          w\<lparr>w_span := dset (dset (w_span w) ''correlation_id'' (c # cs)) ''http.request_id'' (c # cs)\<rparr>
      | _ \<Rightarrow> w)"

definition enter_context :: "runtime \<Rightarrow> settings \<Rightarrow> world \<Rightarrow> world" where
  "enter_context rt s w = (let w = snd (tick rt w) in w\<lparr>w_context := logging_context rt s w\<rparr>)"

interpretation tracing: layer "correlation_tracing_middleware rt" "tag_span rt" "\<lambda>w w' r. Inr r" "\<lambda>w w' x. w'" for rt
  by unfold_locales
    (auto simp: correlation_tracing_middleware_def tag_span_def bindE_def split: sum.splits option.splits list.splits)

lemma finish_request_fst:
  "fst (finish_request rt i t x w) = bindE x (complete_request rt i (round2 (elapsed_ms t (fst (tick rt w)))))"
  by (simp add: finish_request_def request_failed_def tick_def Let_def split: sum.splits)

lemma finish_request_req [simp]: "w_req (snd (finish_request rt i t x w)) = w_req w"
  by (simp add: finish_request_def request_failed_def tick_def Let_def split: sum.splits)

lemma complete_request_same: "complete_request rt i d r = Inr r' \<Longrightarrow> status_code r' = status_code r \<and> content r' = content r"
  by (auto simp: complete_request_def set_header_value_def bindE_eq_Inr split: if_splits)

interpretation logging: layer "logging_context_middleware rt s" "enter_context rt s"
  "\<lambda>w w' r. complete_request rt (state_get w ''correlation_id'' PNone) (round2 (elapsed_ms (fst (tick rt w)) (fst (tick rt w')))) r"
  "\<lambda>w w' x. (snd (finish_request rt (state_get w ''correlation_id'' PNone) (fst (tick rt w)) x w'))\<lparr>w_context := []\<rparr>"
  for rt s
proof unfold_locales
  fix call_next :: application and w x w' assume "call_next (enter_context rt s w) = (x, w')"
  then show "logging_context_middleware rt s call_next w =
      (bindE x (complete_request rt (state_get w ''correlation_id'' PNone) (round2 (elapsed_ms (fst (tick rt w)) (fst (tick rt w'))))),
       (snd (finish_request rt (state_get w ''correlation_id'' PNone) (fst (tick rt w)) x w'))\<lparr>w_context := []\<rparr>)"
    by (simp add: logging_context_middleware_def enter_context_def Let_def case_prod_beta finish_request_fst state_get_def)
qed (simp_all add: complete_request_same)

interpretation observed: layer_pair "correlation_tracing_middleware rt" "tag_span rt" "\<lambda>w w' r. Inr r" "\<lambda>w w' x. w'"
  "logging_context_middleware rt s" "enter_context rt s"
  "\<lambda>w w' r. complete_request rt (state_get w ''correlation_id'' PNone) (round2 (elapsed_ms (fst (tick rt w)) (fst (tick rt w')))) r"
  "\<lambda>w w' x. (snd (finish_request rt (state_get w ''correlation_id'' PNone) (fst (tick rt w)) x w'))\<lparr>w_context := []\<rparr>"
  for rt s ..

section \<open>The request on its way in\<close>

lemma state_get_simps [simp]:
  "state_get (state_set k v w) k' d = (if k' = k then v else state_get w k' d)"
  "state_get (add_log e w) k d = state_get w k d"
  "state_get (snd (tick rt w)) k d = state_get w k d"
  by (simp_all add: state_get_def state_set_def dget_dflt_def)

lemma state_set_req [simp]:
  "req_headers (w_req (state_set k v w)) = req_headers (w_req w)" "url_path (w_req (state_set k v w)) = url_path (w_req w)"
  "req_method (w_req (state_set k v w)) = req_method (w_req w)"
  by (simp_all add: state_set_def)

lemma tag_request_keeps:
  "req_headers (w_req (tag_request rt n k w)) = req_headers (w_req w)" "url_path (w_req (tag_request rt n k w)) = url_path (w_req w)"
  "req_method (w_req (tag_request rt n k w)) = req_method (w_req w)"
  "state_get (tag_request rt n k w) k' d = (if k' = k then PStr (fst (header_or_fresh rt n w)) else state_get w k' d)"
  by (simp_all add: tag_request_def case_prod_beta) (simp add: state_get_def)

lemma set_user_state_keeps:
  assumes "set_user_state u w = Inr w'"
  shows "req_headers (w_req w') = req_headers (w_req w)" "url_path (w_req w') = url_path (w_req w)"
    "req_method (w_req w') = req_method (w_req w)"
    "k \<notin> {''user_id'', ''user_email'', ''user_permissions''} \<Longrightarrow> state_get w' k d = state_get w k d"
  using assms by (auto simp: set_user_state_def bindE_eq_Inr)

lemma auth_context_keeps:
  "req_headers (w_req (auth_context w)) = req_headers (w_req w)" "url_path (w_req (auth_context w)) = url_path (w_req w)"
  "req_method (w_req (auth_context w)) = req_method (w_req w)"
  "k \<notin> {''authorization'', ''user_id'', ''user_email'', ''user_permissions''} \<Longrightarrow> state_get (auth_context w) k d = state_get w k d"
  by (auto simp: auth_context_def Let_def set_user_state_keeps split: option.splits sum.splits)

lemma set_tenant_keeps:
  "req_headers (w_req (set_tenant t w)) = req_headers (w_req w)" "url_path (w_req (set_tenant t w)) = url_path (w_req w)"
  "req_method (w_req (set_tenant t w)) = req_method (w_req w)"
  "k \<notin> {''tenant_id'', ''tenant_header''} \<Longrightarrow> state_get (set_tenant t w) k d = state_get w k d"
  "state_get (set_tenant t w) ''tenant_id'' d = request_tenant t w"
  by (simp_all add: set_tenant_def Let_def)

lemma enter_keeps [simp]: "w_req (tag_span rt w) = w_req w" "w_req (enter_context rt s w) = w_req w"
  by (simp_all add: tag_span_def enter_context_def Let_def split: option.splits list.splits)

lemmas request_keeps = tag_request_keeps auth_context_keeps set_tenant_keeps

lemma exempt_path: "url_path (w_req w) = url_path (w_req w') \<Longrightarrow> exempt ps w = exempt ps w'"
  by (simp add: exempt_def)

text \<open>The world that reaches the error handling, and the one that reaches the routes.\<close>

definition admitted :: "runtime \<Rightarrow> world \<Rightarrow> world" where
  "admitted rt w =
     (let w = tag_request rt ''X-Correlation-ID'' ''correlation_id'' w;
          w = tag_request rt ''X-Request-ID'' ''request_id'' w;
          w = (if exempt [] w then w else auth_context w);
          w = (if exempt [] w then w else set_tenant ''default'' w) in
      snd (tick rt w))"

definition routed :: "runtime \<Rightarrow> settings \<Rightarrow> world \<Rightarrow> world" where
  "routed rt s w = enter_context rt s (tag_span rt (admitted rt w))"

definition correlation_of :: "runtime \<Rightarrow> world \<Rightarrow> string" where
  "correlation_of rt w = fst (header_or_fresh rt ''X-Correlation-ID'' w)"

definition request_id_of :: "runtime \<Rightarrow> world \<Rightarrow> string" where
  "request_id_of rt w =
     fst (header_or_fresh rt ''X-Request-ID'' (tag_request rt ''X-Correlation-ID'' ''correlation_id'' w))"

definition tenant_of :: "world \<Rightarrow> string" where
  "tenant_of w = (case request_header w ''X-Tenant-ID'' of Some (c # cs) \<Rightarrow> c # cs | _ \<Rightarrow> ''default'')"

lemma admitted_state:
  "state_get (admitted rt w) ''correlation_id'' d = PStr (correlation_of rt w)"
  "state_get (admitted rt w) ''request_id'' d = PStr (request_id_of rt w)"
  by (simp_all add: admitted_def Let_def request_keeps correlation_of_def request_id_of_def)

lemma request_tenant_of:
  assumes "state_get w ''tenant_id_from_jwt'' PNone = PNone"
  shows "request_tenant ''default'' w = PStr (tenant_of w)"
  using assms by (auto simp: request_tenant_def tenant_of_def text_or_none_def Let_def split: option.splits list.splits)

section \<open>The answer on its way out\<close>

definition error_page :: "string \<Rightarrow> string \<Rightarrow> response" where
  "error_page request_id detail =
     set_header ''X-Request-ID'' request_id
       \<lparr>status_code = 500, resp_headers = [(''content-type'', ''application/json'')],
        content = PDict [(''error'', PDict [(''type'', PStr ''internal_error''), (''message'', PStr detail),
                                            (''request_id'', PStr request_id)])]\<rparr>"

text \<open>The error layer answers, whatever happens below.\<close>

lemma error_answers:
  assumes "w_req (snd (call_next w)) = w_req w" and "state_get w ''request_id'' (PStr ''unknown'') = PStr rid"
  shows "\<exists>w'. error_middleware rt details call_next w =
      (Inr (case fst (call_next w) of
              Inr r \<Rightarrow> r
            | Inl e \<Rightarrow> error_page rid (if details then exn_text rt e else ''Internal server error'')), w') \<and>
    w_req w' = w_req w"
proof -
  obtain x w' where x: "call_next w = (x, w')" by fastforce
  with assms have "w_req w' = w_req w" "state_get w' ''request_id'' (PStr ''unknown'') = PStr rid"
    by (simp_all add: state_get_def)
  with x show ?thesis
    by (auto simp: error_middleware_def Let_def internal_error_def error_page_def set_header_value_def split: sum.splits)
qed

lemma complete_request_str:
  "complete_request rt (PStr c) d r =
     Inr (set_header ''X-Process-Time-Ms'' (float_str rt d)
       (if c = [] then r else set_header ''X-Correlation-ID'' c (set_header ''X-Request-ID'' c r)))"
  by (simp add: complete_request_def set_header_value_def)

text \<open>The tracing and logging layers pass on the outcome of the routes.\<close>

lemma observed_outcome:
  assumes "state_get w ''correlation_id'' PNone = PStr c"
  shows "case fst (correlation_tracing_middleware rt (logging_context_middleware rt s inner) w) of
      Inl e \<Rightarrow> fst (inner (enter_context rt s (tag_span rt w))) = Inl e
    | Inr r \<Rightarrow> \<exists>r0. fst (inner (enter_context rt s (tag_span rt w))) = Inr r0 \<and> status_code r = status_code r0 \<and> content r = content r0"
proof -
  obtain x w' where x: "inner (enter_context rt s (tag_span rt w)) = (x, w')" by fastforce
  have "state_get (tag_span rt w) ''correlation_id'' PNone = PStr c" using assms by (simp add: state_get_def)
  then show ?thesis using observed.both.passes [of inner rt s w, OF x] x
    by (cases x) (auto simp: complete_request_str)
qed

text \<open>The layers outside the error handling add their headers.\<close>

lemma outer_layers:
  assumes "e (admitted rt w) = (Inr r, w')" and "state_get w ''tenant_id_from_jwt'' PNone = PNone"
  shows "\<exists>r' w''. correlation_id_middleware rt ''X-Correlation-ID'' (request_id_middleware rt ''X-Request-ID''
      (auth_middleware [] (tenant_middleware [] ''default'' (latency_middleware rt 1000 False (audit_middleware rt [] e))))) w =
      (Inr r', w'') \<and> status_code r' = status_code r \<and> content r' = content r \<and>
    header_get (resp_headers r') ''X-Correlation-ID'' = Some (correlation_of rt w) \<and>
    header_get (resp_headers r') ''X-Request-ID'' = Some (request_id_of rt w) \<and>
    (\<not> exempt [] w \<longrightarrow> header_get (resp_headers r') ''X-Tenant-ID'' = Some (tenant_of w)) \<and>
    header_get (resp_headers r') ''X-Process-Time-Ms'' \<noteq> None"
proof -
  define w1 where "w1 = tag_request rt ''X-Correlation-ID'' ''correlation_id'' w"
  define w2 where "w2 = tag_request rt ''X-Request-ID'' ''request_id'' w1"
  define w3 where "w3 = (if exempt [] w2 then w2 else auth_context w2)"
  define w4 where "w4 = (if exempt [] w3 then w3 else set_tenant ''default'' w3)"
  have ad: "admitted rt w = snd (tick rt w4)" by (simp add: admitted_def w1_def w2_def w3_def w4_def Let_def)
  have ex: "exempt [] w2 = exempt [] w" "exempt [] w3 = exempt [] w"
    by (rule exempt_path; simp add: w3_def w2_def w1_def request_keeps)+
  have hd3: "request_header w3 ''X-Tenant-ID'' = request_header w ''X-Tenant-ID''"
    by (simp add: request_header_def w3_def w2_def w1_def request_keeps)
  have "state_get w3 ''tenant_id_from_jwt'' PNone = PNone"
    using assms(2) by (simp add: w3_def w2_def w1_def request_keeps)
  then have ten: "request_tenant ''default'' w3 = PStr (tenant_of w)"
    using request_tenant_of [of w3] hd3 by (simp add: tenant_of_def)
  obtain wa where a: "audit_middleware rt [] e (snd (tick rt w4)) = (Inr r, wa)"
    using audit.answers [of e "snd (tick rt w4)" r w' r rt "[]"] assms(1) ad by auto
  define rl where "rl = set_header ''X-Process-Time-Ms'' (format_2f (elapsed_ms (fst (tick rt w4)) (fst (tick rt wa)))) r"
  obtain wl where l: "latency_middleware rt 1000 False (audit_middleware rt [] e) w4 = (Inr rl, wl)"
    using latency.answers [of "audit_middleware rt [] e" rt w4, OF a] unfolding rl_def by blast
  define rt' where "rt' = (if exempt [] w then rl else set_header ''X-Tenant-ID'' (tenant_of w) rl)"
  obtain wt where t: "tenant_middleware [] ''default'' (latency_middleware rt 1000 False (audit_middleware rt [] e)) w3 = (Inr rt', wt)"
    using tenant.answers [of "latency_middleware rt 1000 False (audit_middleware rt [] e)" "[]" w3 "''default''" rl wl rt'] l ex ten
    by (auto simp: w4_def rt'_def set_header_value_def)
  have u: "auth_middleware [] (tenant_middleware [] ''default'' (latency_middleware rt 1000 False (audit_middleware rt [] e))) w2 = (Inr rt', wt)"
    using t by (cases "exempt [] w2") (simp_all add: auth_middleware_def w3_def)
  let ?auth = "auth_middleware [] (tenant_middleware [] ''default'' (latency_middleware rt 1000 False (audit_middleware rt [] e)))"
  obtain wr where r: "request_id_middleware rt ''X-Request-ID'' ?auth w1 = (Inr (set_header ''X-Request-ID'' (request_id_of rt w) rt'), wr)"
    using request_id.answers [of ?auth rt "''X-Request-ID''" w1 rt' wt] u by (auto simp: w2_def request_id_of_def w1_def)
  obtain wc where "correlation_id_middleware rt ''X-Correlation-ID'' (request_id_middleware rt ''X-Request-ID'' ?auth) w =
      (Inr (set_header ''X-Correlation-ID'' (correlation_of rt w) (set_header ''X-Request-ID'' (request_id_of rt w) rt')), wc)"
    using correlation.answers [of "request_id_middleware rt ''X-Request-ID'' ?auth" rt "''X-Correlation-ID''" w] r
    by (auto simp: w1_def correlation_of_def)
  then show ?thesis by (simp add: rt'_def rl_def lower_def lower_char_def)
qed

section \<open>The audit trail\<close>

definition is_audit :: "log_event \<Rightarrow> bool" where
  "is_audit e = (case e of AuditEvent _ \<Rightarrow> True | _ \<Rightarrow> False)"

definition audits :: "world \<Rightarrow> log_event list" where
  "audits w = filter is_audit (w_log w)"

text \<open>A layer that writes no audit record itself.\<close>

locale quiet_layer = layer +
  assumes audits_before: "audits (before w) = audits w"
    and audits_left: "audits (left w w' x) = audits w'"
begin

lemma audits_through: "audits (snd (mw call_next w)) = audits (snd (call_next (before w)))"
  using passes [of call_next w] audits_left by (cases "call_next (before w)") auto

end

lemma audits_simps [simp]:
  "audits (state_set k v w) = audits w" "audits (snd (tick rt w)) = audits w"
  "audits (snd (header_or_fresh rt n w)) = audits w" "audits (tag_span rt w) = audits w"
  "audits (w\<lparr>w_context := c\<rparr>) = audits w" "audits (enter_context rt s w) = audits w"
  "audits (add_log e w) = audits w @ (if is_audit e then [e] else [])"
  by (simp_all add: audits_def state_set_def tick_def header_or_fresh_def fresh_id_def tag_span_def enter_context_def
      add_log_def Let_def split: option.splits list.splits)

lemma is_audit_simps [simp]:
  "is_audit (AuditEvent d)" "\<not> is_audit (UnhandledError a b c d')" "\<not> is_audit (RequestLatency a' b c' q)"
  "\<not> is_audit (TenantContextEvent v b c')" "\<not> is_audit (AuthExtractionFailed b)" "\<not> is_audit (RequestCompleted n q t)"
  "\<not> is_audit (RequestFailed q)"
  by (simp_all add: is_audit_def)

lemma audits_entry [simp]:
  "audits (tag_request rt n k w) = audits w" "audits (auth_context w) = audits w" "audits (set_tenant t w) = audits w"
proof -
  have "set_user_state u w = Inr w' \<Longrightarrow> audits w' = audits w" for u w w'
    by (auto simp: set_user_state_def bindE_eq_Inr)
  then show "audits (auth_context w) = audits w"
    by (simp add: auth_context_def Let_def split: option.splits sum.splits)
qed (simp_all add: tag_request_def set_tenant_def Let_def case_prod_beta)

lemma audits_finish [simp]: "audits (snd (finish_request rt i t x w)) = audits w"
  by (simp add: finish_request_def request_failed_def tick_def Let_def audits_def add_log_def is_audit_def split: sum.splits)

interpretation quiet_correlation: quiet_layer "correlation_id_middleware rt name" "tag_request rt name ''correlation_id''"
  "\<lambda>w w' r. Inr (set_header name (fst (header_or_fresh rt name w)) r)" "\<lambda>w w' x. w'" for rt name
  by unfold_locales simp_all

interpretation quiet_request_id: quiet_layer "request_id_middleware rt name" "tag_request rt name ''request_id''"
  "\<lambda>w w' r. Inr (set_header name (fst (header_or_fresh rt name w)) r)" "\<lambda>w w' x. w'" for rt name
  by unfold_locales simp_all

interpretation quiet_auth: quiet_layer "auth_middleware ps" "\<lambda>w. if exempt ps w then w else auth_context w"
  "\<lambda>w w' r. Inr r" "\<lambda>w w' x. w'" for ps
  by unfold_locales simp_all

interpretation quiet_tenant: quiet_layer "tenant_middleware ps dflt" "\<lambda>w. if exempt ps w then w else set_tenant dflt w"
  "\<lambda>w w' r. if exempt ps w then Inr r else set_header_value ''X-Tenant-ID'' (request_tenant dflt w) r" "\<lambda>w w' x. w'" for ps dflt
  by unfold_locales simp_all

interpretation quiet_latency: quiet_layer "latency_middleware rt slow every" "\<lambda>w. snd (tick rt w)"
  "\<lambda>w w' r. Inr (set_header ''X-Process-Time-Ms'' (format_2f (elapsed_ms (fst (tick rt w)) (fst (tick rt w')))) r)"
  "\<lambda>w w' x. let ms = elapsed_ms (fst (tick rt w)) (fst (tick rt w')); w' = snd (tick rt w') in
     if slow < ms \<or> every then add_log (RequestLatency (slow < ms) (url_path (w_req w')) (req_method (w_req w')) ms) w' else w'"
  for rt slow every
  by unfold_locales (simp_all add: Let_def)

interpretation quiet_tracing: quiet_layer "correlation_tracing_middleware rt" "tag_span rt" "\<lambda>w w' r. Inr r" "\<lambda>w w' x. w'" for rt
  by unfold_locales simp_all

interpretation quiet_logging: quiet_layer "logging_context_middleware rt s" "enter_context rt s"
  "\<lambda>w w' r. complete_request rt (state_get w ''correlation_id'' PNone) (round2 (elapsed_ms (fst (tick rt w)) (fst (tick rt w')))) r"
  "\<lambda>w w' x. (snd (finish_request rt (state_get w ''correlation_id'' PNone) (fst (tick rt w)) x w'))\<lparr>w_context := []\<rparr>"
  for rt s
  by unfold_locales simp_all

lemma audits_outer:
  "audits (snd (correlation_id_middleware rt ''X-Correlation-ID'' (request_id_middleware rt ''X-Request-ID''
      (auth_middleware [] (tenant_middleware [] ''default'' (latency_middleware rt 1000 False a)))) w)) =
   audits (snd (a (admitted rt w)))"
  by (simp add: quiet_correlation.audits_through quiet_request_id.audits_through quiet_auth.audits_through
      quiet_tenant.audits_through quiet_latency.audits_through admitted_def Let_def)

lemma audits_error:
  "audits (snd (error_middleware rt d call_next w)) = audits (snd (call_next w))"
  by (simp add: error_middleware_def Let_def split: prod.splits sum.splits)

lemma audits_admitted [simp]: "audits (admitted rt w) = audits w"
  by (simp add: admitted_def Let_def)

lemma admitted_request:
  "url_path (w_req (admitted rt w)) = url_path (w_req w)" "req_method (w_req (admitted rt w)) = req_method (w_req w)"
  by (simp_all add: admitted_def Let_def request_keeps)

section \<open>Unverified tokens\<close>

text \<open>A bearer header around arbitrary claims: any first segment and any signature.\<close>

definition bearer :: "string \<Rightarrow> pydict \<Rightarrow> string \<Rightarrow> string" where
  "bearer head claims signature =
     ''Bearer '' @ join ''.'' [head, b64_encode (ascii_bytes (json_dumps (\<lambda>_. []) (PDict claims))), signature]"

lemma token_padding_eq: "token_padding p = p @ b64_padding (length p)"
proof -
  have "length p mod 4 < 4" by simp
  then show ?thesis by (auto simp: token_padding_def b64_padding_def Let_def)
qed

lemma extract_bearer:
  assumes "json_ok (\<lambda>_. False) (PDict claims)" and "CHR ''.'' \<notin> set head" and "CHR ''.'' \<notin> set signature"
  shows "extract_user_from_token (bearer head claims signature) = Some (PDict claims)"
proof -
  let ?doc = "json_dumps (\<lambda>_. []) (PDict claims)"
  let ?p = "b64_encode (ascii_bytes ?doc)"
  have "CHR ''.'' \<notin> set ?p"
    using b64_encode_chars [OF ascii_bytes_bound, of ?doc] by (auto simp: list_all_iff)
  then have "split_on ''.'' [] (join ''.'' [head, ?p, signature]) = [head, ?p, signature]"
    using assms(2,3) by (intro split_on_join) auto
  moreover have "utf8_decode (ascii_bytes ?doc) = Some ?doc"
    by (rule utf8_ascii) (rule ascii_dumps, rule json_ok_mono [OF assms(1)], simp)
  moreover have "json_loads ?doc = Inr (PDict claims)"
    by (rule json_dumps_loads) (rule json_ok_mono [OF assms(1)], simp)
  ultimately show ?thesis
    by (simp add: extract_user_from_token_def bearer_def token_padding_eq b64_roundtrip ascii_bytes_bound startswith_def
        del: json_dumps.simps)
qed

lemma auth_context_claims:
  assumes "request_header w ''Authorization'' = Some (bearer head claims signature)" and "claims \<noteq> []"
    and "json_ok (\<lambda>_. False) (PDict claims)" and "CHR ''.'' \<notin> set head" and "CHR ''.'' \<notin> set signature"
  shows "state_get (auth_context w) ''user_id'' d = dget_dflt claims ''sub'' PNone"
proof -
  have "bearer head claims signature \<noteq> []" by (simp add: bearer_def)
  then show ?thesis using assms extract_bearer [OF assms(3,4,5)]
    by (simp add: auth_context_def set_user_state_def Let_def)
qed

section \<open>Properties\<close>

text \<open>
  C10: Every request is answered, with its identifiers: whatever the routes do, return or
  raise, the stack produces a response that carries the correlation id and the request id of the
  request (its headers, or fresh ones), the processing time and, outside the exempt paths, the tenant.
  A response of the routes keeps its status and content; an exception that no handler covers becomes
  status 500, and in production its text is replaced by a fixed message. The routes and the CORS layer
  are assumed not to write the request, and no tenant of a token to be in its state.
\<close>

theorem every_request_answered:
  assumes "\<And>w. w_req (snd (cors_layer (exception_layer routes) w)) = w_req w"
    and "state_get w ''tenant_id_from_jwt'' PNone = PNone"
  shows "\<exists>r w'. serve rt s cors_layer routes w = (Inr r, w') \<and>
    header_get (resp_headers r) ''X-Correlation-ID'' = Some (correlation_of rt w) \<and>
    header_get (resp_headers r) ''X-Request-ID'' = Some (request_id_of rt w) \<and>
    (\<not> exempt [] w \<longrightarrow> header_get (resp_headers r) ''X-Tenant-ID'' = Some (tenant_of w)) \<and>
    header_get (resp_headers r) ''X-Process-Time-Ms'' \<noteq> None \<and>
    (case fst (cors_layer (exception_layer routes) (routed rt s w)) of
       Inr r0 \<Rightarrow> status_code r = status_code r0 \<and> content r = content r0
     | Inl e \<Rightarrow> status_code r = 500 \<and>
         content r = PDict [(''error'', PDict [(''type'', PStr ''internal_error''),
           (''message'', PStr (if is_production s then ''Internal server error'' else exn_text rt e)),
           (''request_id'', PStr (request_id_of rt w))])])"
proof -
  let ?inner = "cors_layer (exception_layer routes)"
  let ?below = "correlation_tracing_middleware rt (logging_context_middleware rt s ?inner)"
  let ?e = "error_middleware rt (\<not> is_production s) ?below"
  have keeps: "w_req (snd (?below v)) = w_req v" for v
    using observed.both.request_below [of rt s ?inner v] assms(1) by simp
  obtain r0 w0 where e: "?e (admitted rt w) = (Inr r0, w0)" and r0: "r0 = (case fst (?below (admitted rt w)) of
      Inr r \<Rightarrow> r
    | Inl e \<Rightarrow> error_page (request_id_of rt w) (if \<not> is_production s then exn_text rt e else ''Internal server error''))"
    using error_answers [where call_next = ?below and w = "admitted rt w", OF keeps admitted_state(2)] by blast
  obtain r w' where r: "correlation_id_middleware rt ''X-Correlation-ID'' (request_id_middleware rt ''X-Request-ID''
      (auth_middleware [] (tenant_middleware [] ''default'' (latency_middleware rt 1000 False (audit_middleware rt [] ?e))))) w = (Inr r, w')"
    "status_code r = status_code r0" "content r = content r0"
    "header_get (resp_headers r) ''X-Correlation-ID'' = Some (correlation_of rt w)"
    "header_get (resp_headers r) ''X-Request-ID'' = Some (request_id_of rt w)"
    "\<not> exempt [] w \<longrightarrow> header_get (resp_headers r) ''X-Tenant-ID'' = Some (tenant_of w)"
    "header_get (resp_headers r) ''X-Process-Time-Ms'' \<noteq> None"
    using outer_layers [where e = ?e, OF e assms(2)] by blast
  have "serve rt s cors_layer routes w = (Inr r, w')"
    using r(1) by (simp add: serve_def server_error_layer_def build_stack_def add_middlewares_def)
  moreover have "case fst (?inner (routed rt s w)) of
       Inr r1 \<Rightarrow> status_code r = status_code r1 \<and> content r = content r1
     | Inl e \<Rightarrow> status_code r = 500 \<and>
         content r = PDict [(''error'', PDict [(''type'', PStr ''internal_error''),
           (''message'', PStr (if is_production s then ''Internal server error'' else exn_text rt e)),
           (''request_id'', PStr (request_id_of rt w))])]"
    using observed_outcome [where inner = ?inner and s = s and rt = rt and w = "admitted rt w", OF admitted_state(1)] r(2,3)
    unfolding r0 routed_def
    by (cases "fst (?below (admitted rt w))") (auto simp: error_page_def)
  ultimately show ?thesis using r(4-7) by blast
qed

definition sample_runtime :: runtime where
  "sample_runtime = \<lparr>uuid4 = (\<lambda>n. ''id-'' @ digits n), perf_counter = of_nat, utc_now = digits, exn_text = (\<lambda>e. ''secret''),
     float_str = (\<lambda>q. ''0.0''), span_context = None, asgi_correlation_id = None\<rparr>"

definition sample_world :: world where
  "sample_world = \<lparr>w_req = \<lparr>client_host = None, url_path = ''/api/v1/jobs'', req_state = [],
       req_headers = [(''x-tenant-id'', ''acme'')], req_method = ''POST'', req_url = ''http://host/api/v1/jobs'',
       req_query = [], req_query_text = []\<rparr>,
     w_ids = 0, w_ticks = 0, w_context = [], w_span = [], w_log = []\<rparr>"

theorem every_request_answered_witness:
  "\<exists>r w'. serve sample_runtime (default_settings\<lparr>app := (app default_settings)\<lparr>ENVIRONMENT := PRODUCTION\<rparr>\<rparr>)
     (\<lambda>a. a) (\<lambda>w. (Inl KeyError, w)) sample_world = (Inr r, w') \<and>
   header_get (resp_headers r) ''X-Tenant-ID'' = Some ''acme'' \<and> status_code r = 500"
proof -
  let ?s = "default_settings\<lparr>app := (app default_settings)\<lparr>ENVIRONMENT := PRODUCTION\<rparr>\<rparr>"
  have "state_get sample_world ''tenant_id_from_jwt'' PNone = PNone" "\<not> exempt [] sample_world" "tenant_of sample_world = ''acme''"
    by code_simp+
  moreover have "exception_layer (\<lambda>w. (Inl KeyError, w)) w = (Inl KeyError, w)" for w
    by (simp add: exception_layer_def)
  ultimately show ?thesis
    using every_request_answered [where cors_layer = "\<lambda>a. a" and routes = "\<lambda>w. (Inl KeyError, w)"
        and w = sample_world and rt = sample_runtime and s = ?s] by auto
qed

text \<open>
  C11: The audit trail is complete and has no duplicates: serving a request whose method changes
  state, outside the exempt paths, adds exactly one audit record, and any other request adds none.
  The record holds the request as it entered the stack, with its identifiers, tenant and user, and
  the status of the response, also when the routes raised.
\<close>

theorem audited_once:
  assumes "\<And>w. w_req (snd (cors_layer (exception_layer routes) w)) = w_req w"
    and "\<And>w. audits (snd (cors_layer (exception_layer routes) w)) = audits w"
    and "state_get w ''tenant_id_from_jwt'' PNone = PNone"
  shows "\<exists>r w' n. serve rt s cors_layer routes w = (Inr r, w') \<and>
    audits w' = audits w @
      (if \<not> exempt [] w \<and> req_method (w_req w) \<in> {''POST'', ''PUT'', ''PATCH'', ''DELETE''}
       then [AuditEvent (dset (dset (create_audit_record (admitted rt w)) ''status_code'' (PInt (status_code r)))
               ''timestamp'' (PStr (utc_now rt n)))] else [])"
proof -
  let ?inner = "cors_layer (exception_layer routes)"
  let ?below = "correlation_tracing_middleware rt (logging_context_middleware rt s ?inner)"
  let ?e = "error_middleware rt (\<not> is_production s) ?below"
  have keeps: "w_req (snd (?below v)) = w_req v" for v
    using observed.both.request_below [of rt s ?inner v] assms(1) by simp
  obtain r0 w0 where e: "?e (admitted rt w) = (Inr r0, w0)"
    using error_answers [where call_next = ?below and w = "admitted rt w", OF keeps admitted_state(2)] by blast
  have "audits (snd (?e (admitted rt w))) = audits w"
    using assms(2) by (simp add: audits_error quiet_tracing.audits_through quiet_logging.audits_through)
  then have w0: "audits w0 = audits w" using e by simp
  let ?a = "audit_middleware rt [] ?e"
  obtain r w' where r: "correlation_id_middleware rt ''X-Correlation-ID'' (request_id_middleware rt ''X-Request-ID''
      (auth_middleware [] (tenant_middleware [] ''default'' (latency_middleware rt 1000 False ?a)))) w = (Inr r, w')"
    "status_code r = status_code r0"
    using outer_layers [where e = ?e, OF e assms(3)] by blast
  have "serve rt s cors_layer routes w = (Inr r, w')"
    using r(1) by (simp add: serve_def server_error_layer_def build_stack_def add_middlewares_def)
  moreover have "audits w' = audits (snd (?a (admitted rt w)))"
    using audits_outer [of rt ?a w] r(1) by simp
  moreover have "exempt [] (admitted rt w) = exempt [] w" by (rule exempt_path) (simp add: admitted_request)
  ultimately show ?thesis
    using audit.passes [of ?e "admitted rt w" "Inr r0" w0 rt "[]", OF e] w0 r(2)
    by (auto simp: admitted_request log_audit_def AUDIT_METHODS_def)
qed

theorem audited_once_witness:
  "\<exists>r w' n. serve sample_runtime default_settings (\<lambda>a. a) (\<lambda>w. (Inl KeyError, w)) sample_world = (Inr r, w') \<and>
   audits w' = [AuditEvent (dset (dset (create_audit_record (admitted sample_runtime sample_world)) ''status_code''
     (PInt (status_code r))) ''timestamp'' (PStr (utc_now sample_runtime n)))]"
proof -
  have "state_get sample_world ''tenant_id_from_jwt'' PNone = PNone" "\<not> exempt [] sample_world"
    "req_method (w_req sample_world) = ''POST''" "audits sample_world = []"
    by code_simp+
  moreover have "exception_layer (\<lambda>w. (Inl KeyError, w)) w = (Inl KeyError, w)" for w
    by (simp add: exception_layer_def)
  ultimately show ?thesis
    using audited_once [where cors_layer = "\<lambda>a. a" and routes = "\<lambda>w. (Inl KeyError, w)"
        and w = sample_world and rt = sample_runtime and s = default_settings] by auto
qed

text \<open>
  The user in the audit trail is whatever the token says: for any claims, any signature
  segment and any header segment, the record of a request that presents such a token as its bearer
  token names the \<open>sub\<close> claim as the user. No key is involved, so the field is not evidence of who
  made the request.
\<close>

theorem audited_user_unverified:
  assumes "request_header w ''Authorization'' = Some (bearer head claims signature)" and "claims \<noteq> []"
    and "json_ok (\<lambda>_. False) (PDict claims)" and "CHR ''.'' \<notin> set head" and "CHR ''.'' \<notin> set signature"
    and "\<not> exempt [] w"
  shows "dget (create_audit_record (admitted rt w)) ''user_id'' = Some (dget_dflt claims ''sub'' PNone)"
proof -
  define w2 where "w2 = tag_request rt ''X-Request-ID'' ''request_id'' (tag_request rt ''X-Correlation-ID'' ''correlation_id'' w)"
  have "request_header w2 ''Authorization'' = Some (bearer head claims signature)"
    using assms(1) by (simp add: request_header_def w2_def request_keeps)
  moreover have "exempt [] w2 = exempt [] w" "exempt [] (auth_context w2) = exempt [] w"
    by (rule exempt_path; simp add: w2_def request_keeps)+
  ultimately have "state_get (admitted rt w) ''user_id'' PNone = dget_dflt claims ''sub'' PNone"
    using auth_context_claims [of w2] assms(2-6) by (simp add: admitted_def Let_def w2_def [symmetric] set_tenant_keeps)
  then show ?thesis by (simp add: create_audit_record_def)
qed

theorem audited_user_unverified_witness:
  "dget (create_audit_record (admitted sample_runtime
     (sample_world\<lparr>w_req := (w_req sample_world)\<lparr>req_headers := [(''authorization'', bearer ''x'' [(''sub'', PStr ''root'')] ''x'')]\<rparr>\<rparr>)))
     ''user_id'' = Some (PStr ''root'')"
proof -
  let ?w = "sample_world\<lparr>w_req := (w_req sample_world)\<lparr>req_headers := [(''authorization'', bearer ''x'' [(''sub'', PStr ''root'')] ''x'')]\<rparr>\<rparr>"
  have "request_header ?w ''Authorization'' = Some (bearer ''x'' [(''sub'', PStr ''root'')] ''x'')"
  proof -
    have "lower ''Authorization'' = ''authorization''" by code_simp
    then show ?thesis by (simp add: request_header_def header_get_def)
  qed
  moreover have "\<not> exempt [] ?w" by code_simp
  ultimately show ?thesis
    using audited_user_unverified [of ?w "''x''" "[(''sub'', PStr ''root'')]" "''x''" sample_runtime]
    by (simp add: dget_dflt_def)
qed

end
