(* ===== verification/Log_Setup.thy ===== *)
theory Log_Setup
  imports Redaction Settings
begin

text \<open>
  What is written to the logs: the redaction of log events (\<open>app/core/security/__init__.py\<close>), the
  logging configuration (\<open>setup_logging\<close> in \<open>app/core/config/logging.py\<close>) and the set-up of the
  tracing exporters (\<open>app/core/config/observability.py\<close>). A configuration is the value handed to the
  logging library.
\<close>

section \<open>Redaction of log events\<close>

definition SENSITIVE_KEYS :: "string list" where
  "SENSITIVE_KEYS = [''password'', ''token'', ''access_token'', ''refresh_token'', ''authorization'', ''api_key'', ''secret'']"

definition EMAIL_RE :: "re_item list" where
  "EMAIL_RE =
     [Boundary, Rep (\<lambda>c. is_alpha c \<or> is_digit c \<or> c \<in> set ''._%+-'') 1 None, lit CHR ''@'',
      Rep (\<lambda>c. is_alpha c \<or> is_digit c \<or> c \<in> set ''.-'') 1 None, lit CHR ''.'', Rep is_alpha 2 None, Boundary]"

definition local_part :: "string \<Rightarrow> string" where
  "local_part email = takeWhile (\<lambda>c. c \<noteq> CHR ''@'') email"

definition domain_part :: "string \<Rightarrow> string" where
  "domain_part email = drop 1 (dropWhile (\<lambda>c. c \<noteq> CHR ''@'') email)"

definition mask_email :: "string \<Rightarrow> int \<Rightarrow> string" where
  "mask_email email visible =
     (if CHR ''@'' \<notin> set email then email
      else
        let loc = local_part email; domain = domain_part email in
        if visible \<le> 0 then ''***@'' @ domain
        else if int (length loc) \<le> visible then replicate (length loc) CHR ''*'' @ ''@'' @ domain
        else slice_to loc visible @ replicate (nat (int (length loc) - visible)) CHR ''*'' @ ''@'' @ domain)"

text \<open>\<open>pattern.sub(repl, s)\<close> with a function of the match, for a pattern that never matches the empty string.\<close>

fun re_sub_fn :: "re_item list \<Rightarrow> (string \<Rightarrow> string) \<Rightarrow> char option \<Rightarrow> string \<Rightarrow> string" where
  "re_sub_fn items f prev [] = []"
| "re_sub_fn items f prev (x # xs) =
     (case re_match items prev (x # xs) of
        None \<Rightarrow> x # re_sub_fn items f (Some x) xs
      | Some rest \<Rightarrow>
          if length rest \<le> length xs then
            f (take (Suc (length xs) - length rest) (x # xs)) @
            re_sub_fn items f (Some ((x # xs) ! (length xs - length rest))) rest
          else x # re_sub_fn items f (Some x) xs)"

definition redact_field :: "string \<Rightarrow> pyval \<Rightarrow> pyval" where
  "redact_field key value =
     (if lower key \<in> set SENSITIVE_KEYS then PStr ''***''
      else (case value of PStr s \<Rightarrow> PStr (re_sub_fn EMAIL_RE (\<lambda>m. mask_email m 2) None s) | v \<Rightarrow> v))"

definition redact_sensitive_data :: "pydict \<Rightarrow> pydict" where
  "redact_sensitive_data event_dict =
     fold (\<lambda>(key, value) d. dset d key (redact_field key value)) event_dict event_dict"

section \<open>Logging configuration\<close>

datatype renderer = JSONRenderer | ConsoleRenderer bool

record log_handler =
  handler_class :: string
  handler_target :: string
  handler_level :: string

record logger_config =
  logger_handlers :: "string list"
  logger_level :: string
  propagate :: bool

record logging_config =
  cfg_processors :: "string list"
  cfg_foreign_pre_chain :: "string list"
  cfg_renderer :: renderer
  cfg_handlers :: "(string, log_handler) dict"
  cfg_loggers :: "(string, logger_config) dict"

definition shared_processors :: "string list" where
  "shared_processors =
     [''merge_contextvars'', ''add_logger_name'', ''add_log_level'', ''TimeStamper'', ''redact_sensitive_data'',
      ''StackInfoRenderer'', ''format_exc_info'']"

definition library_levels :: "(string \<times> string) list" where
  "library_levels =
     [(''uvicorn'', ''INFO''), (''uvicorn.error'', ''INFO''), (''uvicorn.access'', ''WARNING''),
      (''sqlalchemy.engine'', ''WARNING''), (''httpx'', ''WARNING''), (''httpcore'', ''WARNING''), (''urllib3'', ''WARNING''),
      (''langsmith'', ''WARNING''), (''langchain'', ''INFO''), (''ragas'', ''INFO'')]"

definition setup_logging :: "settings \<Rightarrow> logging_config" where
  "setup_logging s =
     (let log_level = map upper_char (LOG_LEVEL s);
          is_local = (is_development s \<or> is_testing s);
          handlers = [(''console'', \<lparr>handler_class = ''logging.StreamHandler'', handler_target = ''stdout'',
                                     handler_level = log_level\<rparr>)];
          root_handlers = [''console''];
          handlers = (if is_production s
            then dset handlers ''file'' \<lparr>handler_class = ''logging.handlers.RotatingFileHandler'',
                   handler_target = ''var/logs/app.log'', handler_level = log_level\<rparr>
            else handlers);
          root_handlers = (if is_production s then root_handlers @ [''file''] else root_handlers) in
      \<lparr>cfg_processors = [''filter_by_level''] @ shared_processors @ [''wrap_for_formatter''],
       cfg_foreign_pre_chain = shared_processors,
       cfg_renderer = (if lower (LOG_FORMAT s) = ''json'' then JSONRenderer else ConsoleRenderer is_local),
       cfg_handlers = handlers,
       cfg_loggers =
         map (\<lambda>(n, l). (n, \<lparr>logger_handlers = root_handlers, logger_level = l, propagate = False\<rparr>))
           ([([], log_level), (''app'', log_level)] @ library_levels)\<rparr>)"

section \<open>Observability\<close>

text \<open>\<open>os.environ.setdefault\<close>\<close>

definition env_setdefault :: "string \<Rightarrow> string \<Rightarrow> (string, string) dict \<Rightarrow> (string, string) dict" where
  "env_setdefault k v env = (case dget env k of None \<Rightarrow> dset env k v | Some _ \<Rightarrow> env)"

definition setup_langsmith :: "settings \<Rightarrow> (string, string) dict \<Rightarrow> (string, string) dict" where
  "setup_langsmith s env =
     (if LANGSMITH_API_KEY s = [] then env
      else env_setdefault ''LANGCHAIN_PROJECT'' (LANGSMITH_PROJECT s)
        (env_setdefault ''LANGCHAIN_API_KEY'' (LANGSMITH_API_KEY s) (env_setdefault ''LANGCHAIN_TRACING_V2'' ''true'' env)))"

text \<open>
  The state of the tracing library: whether its packages import, whether a provider is already
  installed, and whether the OTLP exporter imports. \<open>console_enabled\<close> is the attribute
  \<open>OTEL_CONSOLE_EXPORTER_ENABLED\<close>, which the settings class does not have.
\<close>

record otel_library =
  otel_available :: bool
  otel_configured :: bool
  otlp_available :: bool

datatype span_processor = OTLP string | ConsoleExporter

datatype otel_outcome = DependenciesMissing | AlreadyConfigured | Installed "span_processor list" "string \<times> string \<times> string"
  \<comment> \<open>the processors and the resource: service name, version, environment\<close>

definition setup_opentelemetry :: "otel_library \<Rightarrow> bool \<Rightarrow> settings \<Rightarrow> otel_outcome" where
  "setup_opentelemetry lib console_enabled s =
     (if \<not> otel_available lib then DependenciesMissing
      else if otel_configured lib then AlreadyConfigured
      else
        let endpoint = strip (OTEL_EXPORTER_ENDPOINT s);
            processors =
              (if endpoint \<noteq> [] then (if otlp_available lib then [OTLP endpoint] else [])
               else if console_enabled then [ConsoleExporter] else []) in
        Installed processors (APP_NAME (app s), APP_VERSION (app s), environment_value (ENVIRONMENT (app s))))"

definition setup_observability ::
  "otel_library \<Rightarrow> settings \<Rightarrow> (string, string) dict \<Rightarrow> (string, string) dict \<times> otel_outcome" where
  "setup_observability lib s env = (setup_langsmith s env, setup_opentelemetry lib False s)"

section \<open>Masking\<close>

lemma split_at_sign: "CHR ''@'' \<in> set e \<Longrightarrow> e = local_part e @ CHR ''@'' # domain_part e"
proof -
  assume at: "CHR ''@'' \<in> set e"
  then have "dropWhile (\<lambda>c. c \<noteq> CHR ''@'') e \<noteq> []" by (simp add: dropWhile_eq_Nil_conv)
  then obtain d ds where d: "dropWhile (\<lambda>c. c \<noteq> CHR ''@'') e = d # ds" by (cases "dropWhile (\<lambda>c. c \<noteq> CHR ''@'') e") auto
  moreover have "d = CHR ''@''" using d hd_dropWhile [of "\<lambda>c. c \<noteq> CHR ''@''" e] by simp
  ultimately show ?thesis
    using takeWhile_dropWhile_id [of "\<lambda>c. c \<noteq> CHR ''@''" e] by (simp add: local_part_def domain_part_def)
qed

lemma parts_append:
  assumes "CHR ''@'' \<notin> set l"
  shows "local_part (l @ CHR ''@'' # d) = l" "domain_part (l @ CHR ''@'' # d) = d"
  using assms by (induction l) (auto simp: local_part_def domain_part_def)

lemma local_no_at: "CHR ''@'' \<notin> set (local_part e)"
  by (auto simp: local_part_def dest: set_takeWhileD)

text \<open>The masked address of a local part and a domain.\<close>

lemma mask_email_parts:
  assumes "CHR ''@'' \<notin> set l"
  shows "mask_email (l @ CHR ''@'' # d) v =
    (if v \<le> 0 then ''***'' else take (nat v) (if int (length l) \<le> v then [] else l) @
       replicate (if int (length l) \<le> v then length l else length l - nat v) CHR ''*'') @ CHR ''@'' # d"
  using assms by (auto simp: mask_email_def Let_def parts_append slice_to_def nat_diff_distrib)

lemma length_mask_email: "length (mask_email m 2) = length m"
proof (cases "CHR ''@'' \<in> set m")
  case True
  then have "mask_email m 2 = mask_email (local_part m @ CHR ''@'' # domain_part m) 2" using split_at_sign by simp
  also have "length \<dots> = length (local_part m @ CHR ''@'' # domain_part m)"
    unfolding mask_email_parts [OF local_no_at] by auto
  finally show ?thesis using split_at_sign [OF True] by simp
qed (simp add: mask_email_def)

lemma length_re_sub_fn: "(\<And>m. length (f m) = length m) \<Longrightarrow> length (re_sub_fn items f p s) = length s"
proof (induction items f p s rule: re_sub_fn.induct)
  case (2 items f prev x xs)
  have "length (f (take n (x # xs))) = length (take n (x # xs))" for n by (rule 2)
  with 2 show ?case by (auto split: option.splits)
qed simp

lemma re_sub_fn_unchanged: "\<not> re_search items p s \<Longrightarrow> re_sub_fn items f p s = s"
  by (induction s arbitrary: p) auto

lemma redact_as_merge:
  "redact_sensitive_data d = dmerge d (map (\<lambda>(k, v). (k, redact_field k v)) d)"
  unfolding redact_sensitive_data_def dmerge_def fold_map
  by (rule fold_cong) (auto simp: fun_eq_iff)

lemma dkeys_dmerge_subset: "set (dkeys e) \<subseteq> set (dkeys d) \<Longrightarrow> dkeys (dmerge d e) = dkeys d"
proof (induction e arbitrary: d)
  case (Cons kv e)
  obtain k v where kv: "kv = (k, v)" by fastforce
  have "dkeys (dset d k v) = dkeys d" using Cons.prems kv by (simp add: update_keys)
  then show ?case using Cons.IH [of "dset d k v"] Cons.prems kv by (simp add: dmerge_def)
qed (simp add: dmerge_def)

lemma dget_map_values: "dget (map (\<lambda>(k, v). (k, g k v)) d) k = map_option (g k) (dget d k)"
  by (induction d) auto

section \<open>Properties\<close>

text \<open>
  Redaction of a log event keeps its fields and their order and decides each value on
  its own: under a sensitive key, in any capitalisation, it becomes three stars; a string keeps its
  length and, if no address is found in it, its text; every other value is unchanged. An address
  keeps its domain and at most the first two characters before the at sign.
\<close>

theorem redacted_event:
  assumes "dict_wf d"
  shows "dkeys (redact_sensitive_data d) = dkeys d \<and>
    (\<forall>k v. dget d k = Some v \<longrightarrow>
       (\<exists>v'. dget (redact_sensitive_data d) k = Some v' \<and>
         (if lower k \<in> {''password'', ''token'', ''access_token'', ''refresh_token'', ''authorization'', ''api_key'', ''secret''}
          then v' = PStr ''***''
          else case v of
            PStr s \<Rightarrow> \<exists>t. v' = PStr t \<and> length t = length s \<and> (\<not> re_search EMAIL_RE None s \<longrightarrow> t = s)
          | _ \<Rightarrow> v' = v))) \<and>
    (CHR ''@'' \<notin> set l \<longrightarrow>
       mask_email (l @ CHR ''@'' # domain) 2 =
         (if length l \<le> 2 then replicate (length l) CHR ''*'' else take 2 l @ replicate (length l - 2) CHR ''*'') @
         CHR ''@'' # domain)"
proof (intro conjI allI impI)
  let ?e = "map (\<lambda>(k, v). (k, redact_field k v)) d"
  have keys: "dkeys ?e = dkeys d" by (simp add: case_prod_beta comp_def)
  then show "dkeys (redact_sensitive_data d) = dkeys d" unfolding redact_as_merge by (intro dkeys_dmerge_subset) simp
  fix k v assume v: "dget d k = Some v"
  have "dict_wf ?e" using assms unfolding keys .
  then have "dget (redact_sensitive_data d) k = Some (redact_field k v)"
    unfolding redact_as_merge using v by (simp add: dget_dmerge dget_map_values)
  then show "\<exists>v'. dget (redact_sensitive_data d) k = Some v' \<and>
      (if lower k \<in> {''password'', ''token'', ''access_token'', ''refresh_token'', ''authorization'', ''api_key'', ''secret''}
       then v' = PStr ''***''
       else case v of
         PStr s \<Rightarrow> \<exists>t. v' = PStr t \<and> length t = length s \<and> (\<not> re_search EMAIL_RE None s \<longrightarrow> t = s)
       | _ \<Rightarrow> v' = v)"
    by (cases v) (auto simp: redact_field_def SENSITIVE_KEYS_def length_re_sub_fn length_mask_email re_sub_fn_unchanged)
next
  assume "CHR ''@'' \<notin> set l"
  then show "mask_email (l @ CHR ''@'' # domain) 2 =
      (if length l \<le> 2 then replicate (length l) CHR ''*'' else take 2 l @ replicate (length l - 2) CHR ''*'') @ CHR ''@'' # domain"
    by (auto simp: mask_email_parts)
qed

theorem redacted_event_witness:
  "dkeys (redact_sensitive_data [(''Token'', PInt 1), (''event'', PStr ''mail bob.x@a.io'')]) = [''Token'', ''event''] \<and>
   redact_sensitive_data [(''Token'', PInt 1), (''event'', PStr ''mail bob.x@a.io'')] =
     [(''Token'', PStr ''***''), (''event'', PStr ''mail bo***@a.io'')]"
proof
  show "dkeys (redact_sensitive_data [(''Token'', PInt 1), (''event'', PStr ''mail bob.x@a.io'')]) = [''Token'', ''event'']"
    using redacted_event [of "[(''Token'', PInt 1), (''event'', PStr ''mail bob.x@a.io'')]"] by simp
  show "redact_sensitive_data [(''Token'', PInt 1), (''event'', PStr ''mail bob.x@a.io'')] =
     [(''Token'', PStr ''***''), (''event'', PStr ''mail bo***@a.io'')]" by code_simp
qed

text \<open>
  The logging configuration is closed: every logger writes to handlers that are defined, the file
  handler exists exactly in production, and the redaction runs on every path before the renderer.
\<close>

theorem logging_closed:
  "(\<forall>(n, l)\<in>set (cfg_loggers (setup_logging s)). set (logger_handlers l) = set (dkeys (cfg_handlers (setup_logging s)))) \<and>
   (''file'' \<in> set (dkeys (cfg_handlers (setup_logging s))) \<longleftrightarrow> is_production s) \<and>
   ''redact_sensitive_data'' \<in> set (cfg_processors (setup_logging s)) \<and>
   ''redact_sensitive_data'' \<in> set (cfg_foreign_pre_chain (setup_logging s))"
  by (auto simp: setup_logging_def Let_def shared_processors_def)

text \<open>
  Setting up tracing never overrides the environment, and without an endpoint no exporter is
  installed: the attribute that would enable the console exporter is not a setting.
\<close>

theorem observability_setup:
  "(dget env k = Some v \<longrightarrow> dget (fst (setup_observability lib s env)) k = Some v) \<and>
   (strip (OTEL_EXPORTER_ENDPOINT s) = [] \<longrightarrow>
     snd (setup_observability lib s env) = DependenciesMissing \<or> snd (setup_observability lib s env) = AlreadyConfigured \<or>
     (\<exists>r. snd (setup_observability lib s env) = Installed [] r))"
proof -
  have "dget e k = Some v \<Longrightarrow> dget (env_setdefault k' v' e) k = Some v" for e k' v'
    by (simp add: env_setdefault_def split: option.splits) auto
  then have "dget env k = Some v \<Longrightarrow> dget (setup_langsmith s env) k = Some v"
    by (simp add: setup_langsmith_def)
  then show ?thesis by (simp add: setup_observability_def setup_opentelemetry_def Let_def)
qed

end
