(* ===== verification/Tracing.thy ===== *)
theory Tracing
  imports Api_Deps
begin

text \<open>
  The tracing dependencies (\<open>app/api/deps/tracing.py\<close>): three context variables, the context manager
  that sets and resets them, and the headers it produces. An unset variable is \<open>None\<close>; the token that
  \<open>set\<close> returns is the previous content. Fresh identifiers are arguments.
\<close>

section \<open>Context variables\<close>

record trace_vars =
  trace_id_var :: "pyval option"
  span_id_var :: "string option"
  correlation_id_var :: "pyval option"

definition trace_id_get :: "trace_vars \<Rightarrow> pyval" where
  "trace_id_get vs = (case trace_id_var vs of Some v \<Rightarrow> v | None \<Rightarrow> PStr [])"

definition span_id_get :: "trace_vars \<Rightarrow> string" where
  "span_id_get vs = (case span_id_var vs of Some v \<Rightarrow> v | None \<Rightarrow> [])"

definition correlation_id_get :: "trace_vars \<Rightarrow> pyval" where
  "correlation_id_get vs = (case correlation_id_var vs of Some v \<Rightarrow> v | None \<Rightarrow> PNone)"

definition get_trace_id :: "string \<Rightarrow> trace_vars \<Rightarrow> request \<Rightarrow> pyval" where
  "get_trace_id new_id vs req =
     (let trace_id = dget_dflt (req_state req) ''trace_id'' PNone in
      if truthy trace_id then trace_id
      else if truthy (trace_id_get vs) then trace_id_get vs
      else PStr new_id)"

definition correlation_id_dep :: "trace_vars \<Rightarrow> string option \<Rightarrow> pyval" where
  "correlation_id_dep vs x_correlation_id =
     (case x_correlation_id of
        Some (c # cs) \<Rightarrow> PStr (c # cs)
      | _ \<Rightarrow> correlation_id_get vs)"

section \<open>The context manager\<close>

text \<open>Each token field is \<open>None\<close> until the variable is set.\<close>

record tracing_ctx =
  tx_trace_id :: pyval
  tx_span_id :: string
  tx_correlation_id :: pyval
  tx_parent_span_id :: "string option"
  token_trace_id :: "pyval option option"
  token_span_id :: "string option option"
  token_corr_id :: "pyval option option"

definition new_tracing_ctx :: "pyval \<Rightarrow> string \<Rightarrow> pyval \<Rightarrow> tracing_ctx" where
  "new_tracing_ctx trace_id span_id correlation_id =
     \<lparr>tx_trace_id = trace_id, tx_span_id = span_id, tx_correlation_id = correlation_id, tx_parent_span_id = None,
      token_trace_id = None, token_span_id = None, token_corr_id = None\<rparr>"

definition enter_ctx :: "tracing_ctx \<Rightarrow> trace_vars \<Rightarrow> tracing_ctx \<times> trace_vars" where
  "enter_ctx c vs =
     (let c = c\<lparr>token_trace_id := Some (trace_id_var vs)\<rparr>; vs = vs\<lparr>trace_id_var := Some (tx_trace_id c)\<rparr>;
          c = c\<lparr>token_span_id := Some (span_id_var vs)\<rparr>; vs = vs\<lparr>span_id_var := Some (tx_span_id c)\<rparr> in
      if truthy (tx_correlation_id c)
      then (c\<lparr>token_corr_id := Some (correlation_id_var vs)\<rparr>, vs\<lparr>correlation_id_var := Some (tx_correlation_id c)\<rparr>)
      else (c, vs))"

definition exit_ctx :: "tracing_ctx \<Rightarrow> trace_vars \<Rightarrow> trace_vars" where
  "exit_ctx c vs =
     (let vs = (case token_trace_id c of Some t \<Rightarrow> vs\<lparr>trace_id_var := t\<rparr> | None \<Rightarrow> vs);
          vs = (case token_span_id c of Some t \<Rightarrow> vs\<lparr>span_id_var := t\<rparr> | None \<Rightarrow> vs) in
      case token_corr_id c of Some t \<Rightarrow> vs\<lparr>correlation_id_var := t\<rparr> | None \<Rightarrow> vs)"

text \<open>\<open>with ctx: body\<close>: the exit runs also when the body raises.\<close>

definition with_ctx :: "tracing_ctx \<Rightarrow> (trace_vars \<Rightarrow> 'a res \<times> trace_vars) \<Rightarrow> trace_vars \<Rightarrow> 'a res \<times> trace_vars" where
  "with_ctx c body vs =
     (let (c, vs) = enter_ctx c vs; (x, vs) = body vs in (x, exit_ctx c vs))"

definition to_headers :: "tracing_ctx \<Rightarrow> (string, pyval) dict res" where
  "to_headers c =
     bindE (as_str (tx_trace_id c)) (\<lambda>t.
       let headers = [(''X-Trace-ID'', PStr t),
                      (''traceparent'', PStr (''00-'' @ filter (\<lambda>ch. ch \<noteq> CHR ''-'') t @ ''-'' @ tx_span_id c @ ''-01''))] in
       Inr (if truthy (tx_correlation_id c) then dset headers ''X-Correlation-ID'' (tx_correlation_id c) else headers))"

definition tracing_context :: "string \<Rightarrow> string \<Rightarrow> trace_vars \<Rightarrow> string option \<Rightarrow> request \<Rightarrow> tracing_ctx" where
  "tracing_context new_trace new_span vs x_correlation_id req =
     (let correlation_id = (case x_correlation_id of
            Some (c # cs) \<Rightarrow> PStr (c # cs) | _ \<Rightarrow> dget_dflt (req_state req) ''correlation_id'' PNone) in
      new_tracing_ctx (get_trace_id new_trace vs req) (slice_to new_span 16) correlation_id)"

definition get_current_trace_id :: "string \<Rightarrow> trace_vars \<Rightarrow> pyval" where
  "get_current_trace_id new_id vs = py_or (trace_id_get vs) (PStr new_id)"

definition get_current_span_id :: "string \<Rightarrow> trace_vars \<Rightarrow> string" where
  "get_current_span_id new_id vs = (if span_id_get vs \<noteq> [] then span_id_get vs else slice_to new_id 16)"

definition set_trace_context :: "pyval \<Rightarrow> string \<Rightarrow> trace_vars \<Rightarrow> (pyval option \<times> string option) \<times> trace_vars" where
  "set_trace_context trace_id span_id vs =
     ((trace_id_var vs, span_id_var vs), vs\<lparr>trace_id_var := Some trace_id, span_id_var := Some span_id\<rparr>)"

definition reset_trace_context :: "pyval option \<times> string option \<Rightarrow> trace_vars \<Rightarrow> trace_vars" where
  "reset_trace_context tokens vs = vs\<lparr>trace_id_var := fst tokens, span_id_var := snd tokens\<rparr>"

section \<open>Lemmas\<close>

lemma enter_tokens:
  assumes "enter_ctx c vs = (c', vs')"
  shows "token_trace_id c' = Some (trace_id_var vs)" "token_span_id c' = Some (span_id_var vs)"
    "token_corr_id c' = (if truthy (tx_correlation_id c) then Some (correlation_id_var vs) else token_corr_id c)"
    "trace_id_var vs' = Some (tx_trace_id c)" "span_id_var vs' = Some (tx_span_id c)"
    "correlation_id_var vs' = (if truthy (tx_correlation_id c) then Some (tx_correlation_id c) else correlation_id_var vs)"
  using assms by (auto simp: enter_ctx_def Let_def split: if_splits)

lemma split_on_dashes:
  "length (split_on ''-'' acc s) = Suc (length (filter (\<lambda>c. c = CHR ''-'') s))"
proof (induction s arbitrary: acc)
  case (Cons c s)
  then show ?case by (simp add: startswith_def)
qed simp

section \<open>Properties\<close>

text \<open>
  Leaving a tracing context undoes entering it: whatever the body does and whether it
  returns or raises, the trace and span variables are as they were, and so is the correlation
  variable if the context set it; inside, the body sees the identifiers of the context. The pair of
  functions without a context manager does the same.
\<close>

theorem tracing_context_restores:
  assumes "token_corr_id c = None"
  shows "(\<exists>vs'. with_ctx c body vs = (fst (body (snd (enter_ctx c vs))), vs') \<and>
      trace_id_var vs' = trace_id_var vs \<and> span_id_var vs' = span_id_var vs \<and>
      correlation_id_var vs' =
        (if truthy (tx_correlation_id c) then correlation_id_var vs
         else correlation_id_var (snd (body (snd (enter_ctx c vs)))))) \<and>
    trace_id_get (snd (enter_ctx c vs)) = tx_trace_id c \<and>
    reset_trace_context (fst (set_trace_context t sp vs)) (snd (set_trace_context t sp vs)) = vs"
proof -
  obtain c' vs1 where e: "enter_ctx c vs = (c', vs1)" by fastforce
  obtain x vs2 where b: "body vs1 = (x, vs2)" by fastforce
  note tok = enter_tokens [OF e]
  have "with_ctx c body vs = (x, exit_ctx c' vs2)" by (simp add: with_ctx_def e b)
  moreover have "trace_id_var (exit_ctx c' vs2) = trace_id_var vs" "span_id_var (exit_ctx c' vs2) = span_id_var vs"
    "correlation_id_var (exit_ctx c' vs2) = (if truthy (tx_correlation_id c) then correlation_id_var vs else correlation_id_var vs2)"
    using tok assms by (simp_all add: exit_ctx_def Let_def)
  moreover have "trace_id_get (snd (enter_ctx c vs)) = tx_trace_id c" using tok e by (simp add: trace_id_get_def)
  ultimately show ?thesis using e b by (simp add: reset_trace_context_def set_trace_context_def)
qed

theorem tracing_context_restores_witness:
  "\<exists>vs'. with_ctx (new_tracing_ctx (PStr ''t'') ''s'' (PStr ''c'')) (\<lambda>vs. (Inl KeyError :: unit res, vs\<lparr>span_id_var := None\<rparr>))
     \<lparr>trace_id_var = None, span_id_var = Some ''outer'', correlation_id_var = None\<rparr> = (Inl KeyError, vs') \<and>
   span_id_var vs' = Some ''outer''"
  using tracing_context_restores [of "new_tracing_ctx (PStr ''t'') ''s'' (PStr ''c'')"
      "\<lambda>vs. (Inl KeyError :: unit res, vs\<lparr>span_id_var := None\<rparr>)"
      "\<lparr>trace_id_var = None, span_id_var = Some ''outer'', correlation_id_var = None\<rparr>"]
  by (auto simp: new_tracing_ctx_def)

text \<open>
  The \<open>traceparent\<close> header does not have the four fields of the standard: the span id is the
  first sixteen characters of a UUID, which has a dash after its eighth character, so the header has
  at least five dash-separated fields.
\<close>

theorem traceparent_malformed:
  assumes "new_span = a @ ''-'' @ b" and "length a = 8" and "tx_trace_id (tracing_context nt new_span vs x req) = PStr t"
  shows "\<exists>h p. to_headers (tracing_context nt new_span vs x req) = Inr h \<and> dget h ''traceparent'' = Some (PStr p) \<and>
    4 < length (split_on ''-'' [] p)"
proof -
  let ?c = "tracing_context nt new_span vs x req"
  let ?p = "''00-'' @ filter (\<lambda>ch. ch \<noteq> CHR ''-'') t @ ''-'' @ tx_span_id ?c @ ''-01''"
  have "tx_span_id ?c = a @ ''-'' @ take 7 b"
    using assms(1,2) by (simp add: tracing_context_def Let_def new_tracing_ctx_def slice_to_def)
  then have "4 < length (split_on ''-'' [] ?p)" unfolding split_on_dashes by simp
  then show ?thesis using assms(3) by (simp add: to_headers_def Let_def)
qed

theorem traceparent_malformed_witness:
  "\<exists>h p. to_headers (tracing_context ''6f1c2a3b-0000-4000-8000-000000000000'' ''6f1c2a3b-0000-4000-8000-000000000000''
     \<lparr>trace_id_var = None, span_id_var = None, correlation_id_var = None\<rparr> None
     \<lparr>client_host = None, url_path = ''/'', req_state = [], req_headers = []\<rparr>) = Inr h \<and>
   dget h ''traceparent'' = Some (PStr p) \<and> 4 < length (split_on ''-'' [] p)"
  by (rule traceparent_malformed [where a = "''6f1c2a3b''" and b = "''0000-4000-8000-000000000000''"
        and t = "''6f1c2a3b-0000-4000-8000-000000000000''"])
    (simp_all add: tracing_context_def new_tracing_ctx_def get_trace_id_def trace_id_get_def dget_dflt_def Let_def)

end
