(* ===== verification/Application.thy ===== *)
theory Application
  imports Middleware Dispatch
begin

text \<open>
  The application factory (\<open>app/main.py\<close>), the shared Redis pool it opens and closes
  (\<open>app/infra/cache/redis_client.py\<close>) and the health endpoint (\<open>app/api/routers/health_router.py\<close>). A
  connection pool is the address it was made for; \<open>aiokafka_available\<close> and \<open>connect\<close> are the Kafka library, \<open>disconnect\<close> and
  \<open>halt\<close> are the outcomes of closing the pool and of stopping the producer.
\<close>

section \<open>The Redis pool\<close>

definition init_redis_pool :: "settings \<Rightarrow> string option \<Rightarrow> string option" where
  "init_redis_pool s pool = (case pool of None \<Rightarrow> Some (redis_build_url (redis s)) | Some u \<Rightarrow> Some u)"


text \<open>The client uses the pool, opened on first use.\<close>

definition get_redis :: "settings \<Rightarrow> string option \<Rightarrow> string option \<times> string option" where
  "get_redis s pool = (let pool = init_redis_pool s pool in (pool, pool))"

section \<open>Life cycle\<close>






section \<open>Routes\<close>

type_synonym route = "string \<times> string"

definition with_prefix :: "string \<Rightarrow> route list \<Rightarrow> route list" where
  "with_prefix p rs = map (\<lambda>(m, path). (m, p @ path)) rs"

definition health_routes :: "route list" where
  "health_routes = [(''GET'', ''/health'')]"

definition eval_routes :: "route list" where
  "eval_routes = with_prefix ''/eval''
     [(''GET'', ''/metrics''), (''POST'', ''/classification''), (''POST'', ''/ragas/single-turn''), (''POST'', ''/ragas/multi-turn'')]"

definition auth_routes :: "route list" where
  "auth_routes = with_prefix ''/auth''
     [(''POST'', ''/login''), (''POST'', ''/token''), (''POST'', ''/refresh''), (''POST'', ''/validate''), (''GET'', ''/me''),
      (''POST'', ''/logout'')]"

definition admin_routes :: "route list" where
  "admin_routes = with_prefix ''/admin''
     [(''POST'', ''/users''), (''GET'', ''/users''), (''GET'', ''/users/{user_id}''), (''PATCH'', ''/users/{user_id}''),
      (''DELETE'', ''/users/{user_id}''), (''POST'', ''/users/{user_id}/reset-password''), (''GET'', ''/system/status''),
      (''POST'', ''/system/maintenance''), (''GET'', ''/tokens/config''), (''POST'', ''/tokens/validate''),
      (''POST'', ''/users/{user_id}/tokens/reset'')]"

definition v1_eval_routes :: "route list" where
  "v1_eval_routes = with_prefix ''/eval''
     [(''GET'', ''/metrics''), (''POST'', ''/classification''), (''POST'', ''/ragas/single-turn''), (''POST'', ''/ragas/multi-turn''),
      (''POST'', ''/ragas/single-turn/async''), (''POST'', ''/ragas/multi-turn/async'')]"

definition v1_jobs_routes :: "route list" where
  "v1_jobs_routes = with_prefix ''/jobs'' [(''GET'', ''/{job_id}'')]"

definition v2_eval_routes :: "route list" where
  "v2_eval_routes = with_prefix ''/eval'' [(''POST'', ''/ragas/single-turn''), (''POST'', ''/ragas/multi-turn'')]"

definition v2_jobs_routes :: "route list" where
  "v2_jobs_routes = with_prefix ''/jobs'' [(''GET'', ''/{job_id}'')]"

definition include_routers :: "settings \<Rightarrow> route list" where
  "include_routers s =
     (let api_prefix = API_PREFIX (app s) in
      with_prefix api_prefix health_routes @ with_prefix api_prefix eval_routes @
      with_prefix api_prefix auth_routes @ with_prefix api_prefix admin_routes @
      with_prefix (api_prefix @ ''/v1'') v1_eval_routes @ with_prefix (api_prefix @ ''/v1'') v1_jobs_routes @
      with_prefix (api_prefix @ ''/v2'') v2_eval_routes @ with_prefix (api_prefix @ ''/v2'') v2_jobs_routes)"

section \<open>The application object\<close>

record fastapi_app =
  app_title :: string
  app_version :: string
  app_description :: string
  docs_url :: "string option"
  redoc_url :: "string option"
  openapi_url :: "string option"
  app_routes :: "route list"
  app_stack :: "application \<Rightarrow> application"

definition create_app :: "runtime \<Rightarrow> middleware \<Rightarrow> settings \<Rightarrow> fastapi_app" where
  "create_app rt cors_layer s =
     \<lparr>app_title = APP_NAME (app s), app_version = APP_VERSION (app s), app_description = DESCRIPTION (app s),
      docs_url = (if is_production s then None else Some ''/docs''),
      redoc_url = (if is_production s then None else Some ''/redoc''),
      openapi_url = (if is_production s then None else Some ''/openapi.json''),
      app_routes = include_routers s,
      app_stack = serve rt s cors_layer\<rparr>"

definition health_check :: "settings \<Rightarrow> pydict" where
  "health_check s =
     [(''status'', PStr ''healthy''), (''app'', PStr (APP_NAME (app s))), (''version'', PStr (APP_VERSION (app s))),
      (''environment'', PStr (environment_value (ENVIRONMENT (app s)))), (''debug'', PBool (DEBUG_MODE (app s)))]"

section \<open>The synchronous endpoints of version 1\<close>

definition v1_metric_catalog :: "(pyval \<Rightarrow> string) \<Rightarrow> settings \<Rightarrow> request \<Rightarrow> metric_definition list res" where
  "v1_metric_catalog fmt s req = limited fmt s rate_limit_metrics_catalog req (Inr metric_catalog)"

definition v1_classification where
  "v1_classification fmt s req actual predicted positive_label =
     limited fmt s rate_limit_classification req (classification_endpoint actual predicted positive_label)"

definition v1_single_turn where
  "v1_single_turn L msg shown yaml llm embeddings fmt s req q =
     limited fmt s rate_limit_ragas_expensive req
       (if \<not> single_request_ok q then Inl (HTTPException 422 ''body'')
        else snd (evaluate_ragas_single_turn L msg shown yaml llm embeddings q None None new_bus))"

definition v1_multi_turn where
  "v1_multi_turn L msg shown llm fmt s req w =
     limited fmt s rate_limit_ragas_expensive req
       (if \<not> multi_request_ok w then Inl (HTTPException 422 ''body'')
        else snd (evaluate_ragas_multi_turn L msg shown llm w new_bus))"

section \<open>Lemmas\<close>

lemma with_prefix_append [simp]: "with_prefix p (xs @ ys) = with_prefix p xs @ with_prefix p ys"
  by (simp add: with_prefix_def)

lemma with_prefix_nested: "with_prefix p (with_prefix q rs) = with_prefix (p @ q) rs"
  by (simp add: with_prefix_def case_prod_beta)

lemma with_prefix_split: "with_prefix (p @ q) rs = with_prefix p (with_prefix q rs)"
  by (simp add: with_prefix_nested)

lemma distinct_with_prefix [simp]: "distinct (with_prefix p rs) \<longleftrightarrow> distinct rs"
proof -
  have "inj_on (\<lambda>(m, path). (m, p @ path)) (set rs)" by (auto simp: inj_on_def)
  then show ?thesis by (simp add: with_prefix_def distinct_map)
qed

text \<open>The routes below the prefix.\<close>

definition all_routes :: "route list" where
  "all_routes = health_routes @ eval_routes @ auth_routes @ admin_routes @ with_prefix ''/v1'' (v1_eval_routes @ v1_jobs_routes) @
     with_prefix ''/v2'' (v2_eval_routes @ v2_jobs_routes)"

lemma include_routers_prefix: "include_routers s = with_prefix (API_PREFIX (app s)) all_routes"
  by (simp add: include_routers_def all_routes_def Let_def with_prefix_split del: with_prefix_nested)

lemma all_routes_distinct: "distinct all_routes"
  by code_simp

section \<open>Properties\<close>

text \<open>
  No route hides another: for every API prefix the method and path of each route of the
  service occur once. Every path starts with the prefix, so with the default prefix no route of the
  service is exempt from authentication context, tenant and audit: the exemption of \<open>/health\<close> does not
  reach the health endpoint, which is served under the prefix.
\<close>

theorem routes_unambiguous:
  "distinct (app_routes (create_app rt cors_layer s)) \<and>
   (API_PREFIX (app s) = ''/api'' \<longrightarrow>
     (\<forall>(m, path)\<in>set (app_routes (create_app rt cors_layer s)).
        startswith path ''/api'' \<and> (url_path (w_req w) = path \<longrightarrow> \<not> exempt [] w)))"
proof -
  have "\<not> exempt [] w" if "url_path (w_req w) = ''/api'' @ path" for path
    using that by (simp add: exempt_def default_exempt_paths_def startswith_def)
  moreover have "distinct (app_routes (create_app rt cors_layer s))"
    by (simp add: create_app_def include_routers_prefix all_routes_distinct)
  moreover have "\<forall>(m, path)\<in>set (app_routes (create_app rt cors_layer s)). \<exists>t. path = API_PREFIX (app s) @ t"
    by (auto simp: create_app_def include_routers_prefix with_prefix_def)
  ultimately show ?thesis by (auto simp: startswith_def)
qed

theorem routes_unambiguous_witness:
  "(''GET'', ''/api/health'') \<in> set (app_routes (create_app sample_runtime (\<lambda>a. a) default_settings)) \<and>
   \<not> exempt [] (sample_world\<lparr>w_req := (w_req sample_world)\<lparr>url_path := ''/api/health''\<rparr>\<rparr>)"
proof -
  let ?w = "sample_world\<lparr>w_req := (w_req sample_world)\<lparr>url_path := ''/api/health''\<rparr>\<rparr>"
  have m: "(''GET'', ''/api/health'') \<in> set (app_routes (create_app sample_runtime (\<lambda>a. a) default_settings))"
    by (simp add: create_app_def include_routers_def default_settings_def Let_def health_routes_def with_prefix_def)
  moreover have "API_PREFIX (app default_settings) = ''/api''" by (simp add: default_settings_def)
  ultimately show ?thesis
    using routes_unambiguous [of sample_runtime "\<lambda>a. a" default_settings ?w] by fastforce
qed




text \<open>
  The synchronous endpoints of version 1 have the semantics of the unversioned ones: the limits that
  the versioned ones depend on never change the outcome.
\<close>

theorem v1_endpoints_agree:
  "v1_metric_catalog fmt s req = Inr metrics_endpoint \<and>
   v1_classification fmt s req actual predicted l = classification_endpoint actual predicted l \<and>
   v1_single_turn L msg shown yaml llm emb fmt s req q = single_turn_endpoint L msg shown yaml llm emb q \<and>
   v1_multi_turn L msg shown llm fmt s req w = multi_turn_endpoint L msg shown llm w"
  by (simp add: v1_metric_catalog_def v1_classification_def v1_single_turn_def v1_multi_turn_def limited_passes
      metrics_endpoint_def single_turn_endpoint_def multi_turn_endpoint_def)

text \<open>The interactive documentation and the schema are served outside production only.\<close>

theorem docs_hidden_in_production:
  "docs_url (create_app rt c s) = None \<longleftrightarrow> is_production s"
  "openapi_url (create_app rt c s) = None \<longleftrightarrow> is_production s"
  by (simp_all add: create_app_def)

end
