(* ===== verification/Job_Documents.thy ===== *)
theory Job_Documents
  imports Job_Store Json
begin

text \<open>
  The job store one level down (\<open>app/infra/jobs/redis_job_store.py\<close>): the server keeps texts, and the
  store writes a document with \<open>json.dumps\<close> and reads it with \<open>json.loads\<close>. This is a document store in
  the sense of \<open>Job_Store\<close>, on every document that JSON represents faithfully. Also the Redis Streams
  publisher (\<open>app/infra/event_bus/redis_streams.py\<close>), which appends such texts to a capped stream.
\<close>

section \<open>Texts on the server\<close>

record 'db text_redis =
  tget :: "'db \<Rightarrow> int \<Rightarrow> string \<Rightarrow> string option"
  tset :: "'db \<Rightarrow> int \<Rightarrow> string \<Rightarrow> string \<Rightarrow> int \<Rightarrow> 'db"

text \<open>The server's documented behaviour: a key set with an expiry is visible until then.\<close>

definition text_redis_ok :: "'db text_redis \<Rightarrow> bool" where
  "text_redis_ok T \<longleftrightarrow>
     (\<forall>kv t k v ex t' k'. t \<le> t' \<longrightarrow>
        tget T (tset T kv t k v ex) t' k' =
          (if k' = k then if t' < t + ex then Some v else None else tget T kv t' k'))"

text \<open>\<open>json.loads(raw) if raw else None\<close>: a text that is no JSON raises, and any JSON value is returned.\<close>

definition load_document :: "string option \<Rightarrow> pyval option res" where
  "load_document raw =
     (case raw of
        None \<Rightarrow> Inr None
      | Some txt \<Rightarrow> if txt = [] then Inr None else bindE (json_loads txt) (\<lambda>v. Inr (Some v)))"

text \<open>The operations of the store on texts. \<open>data.update\<close> raises on a value that is no object.\<close>

definition text_create_job ::
  "(rat \<Rightarrow> string) \<Rightarrow> 'db text_redis \<Rightarrow> (int \<Rightarrow> string) \<Rightarrow> string \<Rightarrow> string \<Rightarrow> string option \<Rightarrow> int \<Rightarrow> 'db \<Rightarrow> string \<times> 'db" where
  "text_create_job repr_float T stamp job_id job_type idempotency_key t kv =
     (job_id, tset T kv t (job_key job_id)
        (json_dumps repr_float (PDict (new_job stamp t job_id job_type idempotency_key))) JOB_TTL_SECONDS)"

definition text_get_job :: "'db text_redis \<Rightarrow> 'db \<Rightarrow> int \<Rightarrow> string \<Rightarrow> pyval option res" where
  "text_get_job T kv t job_id = load_document (tget T kv t (job_key job_id))"

definition text_update_job ::
  "(rat \<Rightarrow> string) \<Rightarrow> 'db text_redis \<Rightarrow> string \<Rightarrow> pydict \<Rightarrow> int \<Rightarrow> 'db \<Rightarrow> 'db res" where
  "text_update_job repr_float T job_id changes t kv =
     bindE (load_document (tget T kv t (job_key job_id))) (\<lambda>data.
       case data of
         None \<Rightarrow> Inr kv
       | Some (PDict d) \<Rightarrow>
           Inr (tset T kv t (job_key job_id) (json_dumps repr_float (PDict (dmerge d changes))) JOB_TTL_SECONDS)
       | Some v \<Rightarrow> Inl AttributeError)"

text \<open>The documents that the texts of a server stand for, as a document store.\<close>

definition document_view :: "string option \<Rightarrow> pydict option" where
  "document_view raw = (case load_document raw of Inr (Some (PDict d)) \<Rightarrow> Some d | _ \<Rightarrow> None)"

definition json_redis :: "(rat \<Rightarrow> string) \<Rightarrow> 'db text_redis \<Rightarrow> 'db redis" where
  "json_redis repr_float T =
     \<lparr>rget = (\<lambda>kv t k. document_view (tget T kv t k)),
      rset = (\<lambda>kv t k d ex. tset T kv t k (json_dumps repr_float (PDict d)) ex)\<rparr>"

section \<open>Redis Streams\<close>

definition STREAM_MAXLEN :: nat where
  "STREAM_MAXLEN = 10000"

text \<open>\<open>xadd\<close> is the server's operation: topic, entry, length cap.\<close>

definition streams_publish ::
  "(string \<Rightarrow> (string, string) dict \<Rightarrow> nat \<Rightarrow> 'db \<Rightarrow> 'db) \<Rightarrow> (rat \<Rightarrow> string) \<Rightarrow> string \<Rightarrow> pydict \<Rightarrow> 'db \<Rightarrow> 'db" where
  "streams_publish xadd repr_float topic payload kv =
     xadd topic [(''data'', json_dumps repr_float (PDict payload))] STREAM_MAXLEN kv"

section \<open>Documents read back\<close>

lemma load_document_dumps:
  assumes "json_ok (float_text repr_float) (PDict d)"
  shows "load_document (Some (json_dumps repr_float (PDict d))) = Inr (Some (PDict d))"
  using json_dumps_loads [OF assms] by (simp add: load_document_def)

lemma document_view_loaded: "load_document raw = Inr (map_option PDict x) \<Longrightarrow> document_view raw = x"
  by (cases x) (simp_all add: document_view_def)

lemma new_job_ok: "json_ok ok (PDict (new_job stamp t i ty ik))"
  by (auto simp: new_job_def opt_str_def split: option.splits)

lemma dset_values: "(k', v') \<in> set (dset d k v) \<Longrightarrow> v' = v \<or> (k', v') \<in> set d"
  by (induction d) (auto split: if_splits)

lemma json_ok_dset:
  assumes "json_ok ok (PDict d)" and "json_ok ok v"
  shows "json_ok ok (PDict (dset d k v))"
  using assms dset_values [where d = d and k = k and v = v] by fastforce

lemma json_ok_dmerge: "json_ok ok (PDict d) \<Longrightarrow> \<forall>(k, v)\<in>set e. json_ok ok v \<Longrightarrow> json_ok ok (PDict (dmerge d e))"
proof (induction e arbitrary: d)
  case (Cons kv e)
  obtain k v where kv: "kv = (k, v)" by fastforce
  have "json_ok ok (PDict (dset d k v))" using Cons.prems kv by (intro json_ok_dset) auto
  then show ?case using Cons.IH [of "dset d k v"] Cons.prems kv by (simp add: dmerge_def del: json_ok.simps)
qed (simp add: dmerge_def)

section \<open>Operations on both stores\<close>

text \<open>
  The writes of the job store in the order they happen, on any store. An update carries the changed fields;
  the updates of the workers are instances.
\<close>

datatype job_op = CreateJob int string string "string option" | UpdateJob int string pydict

fun op_time :: "job_op \<Rightarrow> int" where
  "op_time (CreateJob t i ty ik) = t"
| "op_time (UpdateJob t i changes) = t"

fun apply_op :: "'db redis \<Rightarrow> (int \<Rightarrow> string) \<Rightarrow> job_op \<Rightarrow> 'db \<Rightarrow> 'db" where
  "apply_op R stamp (CreateJob t i ty ik) kv = snd (create_job R stamp i ty ik t kv)"
| "apply_op R stamp (UpdateJob t i changes) kv = update_job R i changes t kv"

definition apply_ops :: "'db redis \<Rightarrow> (int \<Rightarrow> string) \<Rightarrow> job_op list \<Rightarrow> 'db \<Rightarrow> 'db" where
  "apply_ops R stamp ops kv = fold (apply_op R stamp) ops kv"

fun apply_text_op :: "(rat \<Rightarrow> string) \<Rightarrow> 'db text_redis \<Rightarrow> (int \<Rightarrow> string) \<Rightarrow> job_op \<Rightarrow> 'db \<Rightarrow> 'db res" where
  "apply_text_op repr_float T stamp (CreateJob t i ty ik) kv = Inr (snd (text_create_job repr_float T stamp i ty ik t kv))"
| "apply_text_op repr_float T stamp (UpdateJob t i changes) kv = text_update_job repr_float T i changes t kv"

fun apply_text_ops ::
  "(rat \<Rightarrow> string) \<Rightarrow> 'db text_redis \<Rightarrow> (int \<Rightarrow> string) \<Rightarrow> job_op list \<Rightarrow> 'db \<Rightarrow> 'db res" where
  "apply_text_ops repr_float T stamp [] kv = Inr kv"
| "apply_text_ops repr_float T stamp (op # ops) kv =
     bindE (apply_text_op repr_float T stamp op kv) (apply_text_ops repr_float T stamp ops)"

text \<open>The values written are representable in JSON, and time does not run backwards.\<close>

fun op_values_ok :: "(rat \<Rightarrow> string) \<Rightarrow> job_op \<Rightarrow> bool" where
  "op_values_ok repr_float (CreateJob t i ty ik) \<longleftrightarrow> True"
| "op_values_ok repr_float (UpdateJob t i changes) \<longleftrightarrow> (\<forall>(n, v)\<in>set changes. json_ok (float_text repr_float) v)"

fun ops_ok :: "(rat \<Rightarrow> string) \<Rightarrow> int \<Rightarrow> job_op list \<Rightarrow> int \<Rightarrow> bool" where
  "ops_ok repr_float t [] now \<longleftrightarrow> t \<le> now"
| "ops_ok repr_float t (op # ops) now \<longleftrightarrow> t \<le> op_time op \<and> op_values_ok repr_float op \<and> ops_ok repr_float (op_time op) ops now"

text \<open>
  The simulation relation from a time on: every text of the text store loads without an exception to the document that the
  document store holds, and the documents are representable.
\<close>

definition agree :: "(rat \<Rightarrow> string) \<Rightarrow> 'a redis \<Rightarrow> 'b text_redis \<Rightarrow> int \<Rightarrow> 'a \<Rightarrow> 'b \<Rightarrow> bool" where
  "agree repr_float R T t kvd kvt \<longleftrightarrow>
     (\<forall>s k. t \<le> s \<longrightarrow> load_document (tget T kvt s k) = Inr (map_option PDict (rget R kvd s k)) \<and>
        (\<forall>d. rget R kvd s k = Some d \<longrightarrow> json_ok (float_text repr_float) (PDict d)))"

lemma agreeD:
  assumes "agree repr_float R T t kvd kvt" and "t \<le> s"
  shows "load_document (tget T kvt s k) = Inr (map_option PDict (rget R kvd s k))"
    and "rget (json_redis repr_float T) kvt s k = rget R kvd s k"
    and "rget R kvd s k = Some d \<Longrightarrow> json_ok (float_text repr_float) (PDict d)"
  using assms document_view_loaded [of "tget T kvt s k" "rget R kvd s k"]
  by (auto simp: agree_def json_redis_def simp del: json_ok.simps)

lemma agree_later: "agree repr_float R T t kvd kvt \<Longrightarrow> t \<le> t' \<Longrightarrow> agree repr_float R T t' kvd kvt"
  unfolding agree_def by (meson order_trans)

text \<open>A document written as a text is read back until it expires.\<close>

lemma agree_write:
  assumes "redis_ok R" "text_redis_ok T" "agree repr_float R T t kvd kvt" "json_ok (float_text repr_float) (PDict d)"
  shows "agree repr_float R T t (rset R kvd t k d ex) (tset T kvt t k (json_dumps repr_float (PDict d)) ex)"
proof -
  have "rget R (rset R kvd t k d ex) s k' = (if k' = k then if s < t + ex then Some d else None else rget R kvd s k')"
    "tget T (tset T kvt t k v ex) s k' = (if k' = k then if s < t + ex then Some v else None else tget T kvt s k')"
    if "t \<le> s" for s k' v
    using assms(1,2) that by (simp_all add: redis_ok_def text_redis_ok_def)
  moreover have "load_document None = Inr None" by (simp add: load_document_def)
  ultimately show ?thesis using assms(3,4) load_document_dumps [OF assms(4)]
    by (simp add: agree_def del: json_ok.simps json_dumps.simps)
qed

text \<open>Each operation on texts returns, does what it does on the documents, and keeps the relation.\<close>

lemma agree_op:
  assumes "redis_ok R" "text_redis_ok T" "agree repr_float R T (op_time op) kvd kvt" "op_values_ok repr_float op"
  shows "apply_text_op repr_float T stamp op kvt = Inr (apply_op (json_redis repr_float T) stamp op kvt) \<and>
    agree repr_float R T (op_time op) (apply_op R stamp op kvd) (apply_op (json_redis repr_float T) stamp op kvt)"
proof (cases op)
  case (CreateJob t i ty ik)
  then show ?thesis using agree_write [OF assms(1-3) new_job_ok]
    by (simp add: create_job_def text_create_job_def json_redis_def del: json_dumps.simps)
next
  case (UpdateJob t i changes)
  note same = agreeD [OF assms(3) order_refl, of "job_key i"]
  show ?thesis
  proof (cases "rget R kvd t (job_key i)")
    case None
    then show ?thesis using assms(3) UpdateJob same by (simp add: update_job_def text_update_job_def)
  next
    case (Some d)
    then have "json_ok (float_text repr_float) (PDict (dmerge d changes))"
      using same(3) assms(4) UpdateJob by (intro json_ok_dmerge) auto
    from agree_write [OF assms(1-3) this, of "job_key i" JOB_TTL_SECONDS] Some same(1,2) UpdateJob show ?thesis
      by (simp add: update_job_def text_update_job_def json_redis_def del: json_dumps.simps)
  qed
qed

lemma agree_ops:
  "redis_ok R \<Longrightarrow> text_redis_ok T \<Longrightarrow> agree repr_float R T t kvd kvt \<Longrightarrow> ops_ok repr_float t ops now \<Longrightarrow>
   apply_text_ops repr_float T stamp ops kvt = Inr (apply_ops (json_redis repr_float T) stamp ops kvt) \<and>
   agree repr_float R T now (apply_ops R stamp ops kvd) (apply_ops (json_redis repr_float T) stamp ops kvt)"
proof (induction ops arbitrary: t kvd kvt)
  case Nil
  then show ?case using agree_later by (auto simp: apply_ops_def)
next
  case (Cons op ops)
  then have "agree repr_float R T (op_time op) kvd kvt" using agree_later by auto
  from agree_op [OF Cons.prems(1,2) this, of stamp] Cons.prems
  have op: "apply_text_op repr_float T stamp op kvt = Inr (apply_op (json_redis repr_float T) stamp op kvt)"
    "agree repr_float R T (op_time op) (apply_op R stamp op kvd) (apply_op (json_redis repr_float T) stamp op kvt)"
    by simp_all
  from Cons.IH [OF Cons.prems(1,2) op(2)] op(1) Cons.prems show ?case by (simp add: apply_ops_def)
qed

section \<open>Properties\<close>

text \<open>
  C12: The store of JSON texts implements the document store that the jobs are verified against: after any
  sequence of creations and updates, from empty stores and with values that JSON represents, no operation has raised,
  both stores hold the same job documents at every later moment, expiry included, reading a job loads its
  text to that document, and polling answers the same.
\<close>

theorem text_store_simulates:
  assumes "redis_ok R" and "text_redis_ok T" and "\<And>s k. rget R kvd s k = None" and "\<And>s k. tget T kvt s k = None"
    and "ops_ok repr_float t ops now"
  shows "get_job (json_redis repr_float T) (apply_ops (json_redis repr_float T) stamp ops kvt) now i =
      get_job R (apply_ops R stamp ops kvd) now i \<and>
    get_job_status (json_redis repr_float T) (apply_ops (json_redis repr_float T) stamp ops kvt) now i =
      get_job_status R (apply_ops R stamp ops kvd) now i \<and>
    apply_text_ops repr_float T stamp ops kvt = Inr (apply_ops (json_redis repr_float T) stamp ops kvt) \<and>
    text_get_job T (apply_ops (json_redis repr_float T) stamp ops kvt) now i =
      Inr (map_option PDict (get_job R (apply_ops R stamp ops kvd) now i))"
proof -
  have "agree repr_float R T t kvd kvt" using assms(3,4) by (simp add: agree_def load_document_def)
  note final = agree_ops [OF assms(1,2) this assms(5), of stamp]
  note same = agreeD [OF conjunct2 [OF final] order_refl, of "job_key i"]
  from final same(1,2) show ?thesis by (simp add: get_job_def get_job_status_def text_get_job_def)
qed

definition table_text :: "(string \<times> string \<times> int) list text_redis" where
  "table_text =
     \<lparr>tget = (\<lambda>kv t k. case map_of kv k of Some (v, until) \<Rightarrow> if t < until then Some v else None | None \<Rightarrow> None),
      tset = (\<lambda>kv t k v ex. (k, v, t + ex) # kv)\<rparr>"

lemma table_text_ok: "text_redis_ok table_text"
  by (simp add: text_redis_ok_def table_text_def)

theorem text_store_simulates_witness:
  "\<exists>kv. apply_text_ops (\<lambda>q. []) table_text (\<lambda>t. ''now'')
      [CreateJob 0 ''1'' ''eval'' None, UpdateJob 5 ''1'' [(''status'', PStr ''running'')]] [] = Inr kv \<and>
    text_get_job table_text kv 9 ''1'' =
      Inr (Some (PDict (dmerge (new_job (\<lambda>t. ''now'') 0 ''1'' ''eval'' None) [(''status'', PStr ''running'')])))"
proof -
  have "get_job table_redis (apply_ops table_redis (\<lambda>t. ''now'')
      [CreateJob 0 ''1'' ''eval'' None, UpdateJob 5 ''1'' [(''status'', PStr ''running'')]] []) 9 ''1'' =
    Some (dmerge (new_job (\<lambda>t. ''now'') 0 ''1'' ''eval'' None) [(''status'', PStr ''running'')])"
    by (simp add: apply_ops_def get_job_def create_job_def update_job_def table_redis_def JOB_TTL_SECONDS_def)
  with text_store_simulates [OF table_redis_ok table_text_ok, of "[]" "[]" "\<lambda>q. []" 0
      "[CreateJob 0 ''1'' ''eval'' None, UpdateJob 5 ''1'' [(''status'', PStr ''running'')]]" 9 "\<lambda>t. ''now''" "''1''"]
  show ?thesis by (simp add: table_redis_def table_text_def)
qed

end
