(* ===== verification/Auth0.thy ===== *)
theory Auth0
  imports Settings Json
begin

text \<open>
  The Auth0 service (\<open>app/core/security/auth0_service.py\<close>). The HTTP client and the JWT library are
  parameters (\<open>auth0_lib\<close>): a request returns the decoded body or raises, and verification against a
  key set returns the text of the claims or raises. The service keeps the key set it fetched.
\<close>

section \<open>Parameters and state\<close>

record auth0_lib =
  http_get :: "string \<Rightarrow> (string, string) dict \<Rightarrow> pyval res"
  http_post :: "string \<Rightarrow> pydict \<Rightarrow> pyval res"
  verify_jwt :: "pyval list \<Rightarrow> string \<Rightarrow> string res"

text \<open>The attributes read from the settings.\<close>

record auth0_config =
  AUTH0_DOMAIN :: "string option"
  AUTH0_AUDIENCE :: "string option"
  AUTH0_CLIENT_ID :: "string option"
  AUTH0_CLIENT_SECRET :: "string option"

text \<open>The settings class has none of these attributes, so reading them gives the default.\<close>

definition settings_auth0 :: "settings \<Rightarrow> auth0_config" where
  "settings_auth0 s =
     \<lparr>AUTH0_DOMAIN = None, AUTH0_AUDIENCE = None, AUTH0_CLIENT_ID = None, AUTH0_CLIENT_SECRET = None\<rparr>"

definition present :: "string option \<Rightarrow> string option" where
  "present x = (case x of Some (c # cs) \<Rightarrow> Some (c # cs) | _ \<Rightarrow> None)"

record token_payload =
  tp_sub :: pyval
  tp_email :: pyval
  tp_name :: pyval
  tp_permissions :: pyval
  tp_tenant_id :: pyval
  tp_claims :: pydict

definition new_token_payload :: "pydict \<Rightarrow> token_payload" where
  "new_token_payload claims =
     \<lparr>tp_sub = dget_dflt claims ''sub'' PNone, tp_email = dget_dflt claims ''email'' PNone, tp_name = dget_dflt claims ''name'' PNone,
      tp_permissions = dget_dflt claims ''permissions'' (PList []),
      tp_tenant_id = py_or (dget_dflt claims ''tenant_id'' PNone) (dget_dflt claims ''https://tenant/id'' PNone),
      tp_claims = claims\<rparr>"

section \<open>Operations\<close>

definition get_jwks :: "auth0_lib \<Rightarrow> auth0_config \<Rightarrow> pyval option \<Rightarrow> pyval res \<times> pyval option" where
  "get_jwks lib cfg jwks =
     (case jwks of
        Some j \<Rightarrow> (Inr j, jwks)
      | None \<Rightarrow>
          (case present (AUTH0_DOMAIN cfg) of
             None \<Rightarrow> (Inl (ValueError ''AUTH0_DOMAIN not configured''), None)
           | Some domain \<Rightarrow>
               (case http_get lib (''https://'' @ domain @ ''/.well-known/jwks.json'') [] of
                  Inl e \<Rightarrow> (Inl e, None)
                | Inr j \<Rightarrow> (Inr j, if j = PNone then None else Some j))))"

definition check_claims :: "auth0_config \<Rightarrow> string \<Rightarrow> pyval \<Rightarrow> token_payload res" where
  "check_claims cfg domain claims =
     bindE (case present (AUTH0_AUDIENCE cfg) of
              None \<Rightarrow> Inr ()
            | Some audience \<Rightarrow>
                bindE (py_get claims ''aud'' PNone) (\<lambda>a.
                  if a \<noteq> PStr audience then Inl (ValueError ''Invalid token audience'') else Inr ()))
       (\<lambda>_. bindE (py_get claims ''iss'' PNone) (\<lambda>iss.
          if iss \<noteq> PStr (''https://'' @ domain @ ''/'') then Inl (ValueError ''Invalid token issuer'')
          else (case claims of PDict d \<Rightarrow> Inr (new_token_payload d) | _ \<Rightarrow> Inl AttributeError)))"

definition verify_with :: "auth0_lib \<Rightarrow> auth0_config \<Rightarrow> string \<Rightarrow> pyval \<Rightarrow> string \<Rightarrow> token_payload res" where
  "verify_with lib cfg domain jwks token =
     bindE (py_get jwks ''keys'' (PList [])) (\<lambda>ks.
     bindE (py_iter ks) (\<lambda>keys.
     bindE (verify_jwt lib keys token) (\<lambda>txt.
     bindE (json_loads txt) (check_claims cfg domain))))"

definition validate_token ::
  "(exn \<Rightarrow> string) \<Rightarrow> auth0_lib \<Rightarrow> auth0_config \<Rightarrow> string \<Rightarrow> pyval option \<Rightarrow> token_payload res \<times> pyval option" where
  "validate_token exn_str lib cfg token jwks =
     (case present (AUTH0_DOMAIN cfg) of
        None \<Rightarrow> (Inl (ValueError ''AUTH0_DOMAIN not configured''), jwks)
      | Some domain \<Rightarrow>
          (case get_jwks lib cfg jwks of
             (k, jwks) \<Rightarrow>
               (case bindE k (\<lambda>j. verify_with lib cfg domain j token) of
                  Inr p \<Rightarrow> (Inr p, jwks)
                | Inl e \<Rightarrow> (Inl (ValueError (''Token validation failed: '' @ exn_str e)), jwks))))"

definition get_userinfo :: "auth0_lib \<Rightarrow> auth0_config \<Rightarrow> string \<Rightarrow> pyval res" where
  "get_userinfo lib cfg token =
     (case present (AUTH0_DOMAIN cfg) of
        None \<Rightarrow> Inl (ValueError ''AUTH0_DOMAIN not configured'')
      | Some domain \<Rightarrow> http_get lib (''https://'' @ domain @ ''/userinfo'') [(''Authorization'', ''Bearer '' @ token)])"

text \<open>\<open>urlencode\<close>\<close>

definition urlencode :: "(string, string) dict \<Rightarrow> string" where
  "urlencode params = join ''&'' (map (\<lambda>(k, v). quote_plus k @ ''='' @ quote_plus v) params)"

definition authorize_params :: "string \<Rightarrow> string \<Rightarrow> string option \<Rightarrow> string \<Rightarrow> (string, string) dict" where
  "authorize_params client_id redirect_uri state scope =
     [(''response_type'', ''code''), (''client_id'', client_id), (''redirect_uri'', redirect_uri), (''scope'', scope)] @
     (case present state of Some st \<Rightarrow> [(''state'', st)] | None \<Rightarrow> [])"

definition get_authorize_url :: "auth0_config \<Rightarrow> string \<Rightarrow> string option \<Rightarrow> string \<Rightarrow> string res" where
  "get_authorize_url cfg redirect_uri state scope =
     (case (present (AUTH0_DOMAIN cfg), present (AUTH0_CLIENT_ID cfg)) of
        (Some domain, Some client_id) \<Rightarrow>
          Inr (''https://'' @ domain @ ''/authorize?'' @ urlencode (authorize_params client_id redirect_uri state scope))
      | _ \<Rightarrow> Inl (ValueError ''AUTH0_DOMAIN and AUTH0_CLIENT_ID required''))"

definition exchange_code :: "auth0_lib \<Rightarrow> auth0_config \<Rightarrow> string \<Rightarrow> string \<Rightarrow> pyval res" where
  "exchange_code lib cfg code redirect_uri =
     (case (present (AUTH0_DOMAIN cfg), present (AUTH0_CLIENT_ID cfg), present (AUTH0_CLIENT_SECRET cfg)) of
        (Some domain, Some client_id, Some client_secret) \<Rightarrow>
          http_post lib (''https://'' @ domain @ ''/oauth/token'')
            [(''grant_type'', PStr ''authorization_code''), (''client_id'', PStr client_id), (''client_secret'', PStr client_secret),
             (''code'', PStr code), (''redirect_uri'', PStr redirect_uri)]
      | _ \<Rightarrow> Inl (ValueError ''Auth0 not fully configured''))"

text \<open>The singleton: the service and its key cache are created on first use.\<close>

definition get_auth0_service :: "(auth0_config \<times> pyval option) option \<Rightarrow> settings \<Rightarrow> auth0_config \<times> pyval option" where
  "get_auth0_service service s = (case service of Some v \<Rightarrow> v | None \<Rightarrow> (settings_auth0 s, None))"

section \<open>Lemmas\<close>

lemma present_Some [simp]: "present x = Some y \<longleftrightarrow> x = Some y \<and> y \<noteq> []"
  by (cases x) (auto simp: present_def split: list.splits)

lemma py_get_Inr: "py_get v k d = Inr r \<longleftrightarrow> (\<exists>kvs. v = PDict kvs \<and> r = dget_dflt kvs k d)"
  by (cases v) auto

lemma check_claims_Inr:
  assumes "check_claims cfg domain v = Inr p"
  shows "\<exists>d. v = PDict d \<and> p = new_token_payload d \<and> dget_dflt d ''iss'' PNone = PStr (''https://'' @ domain @ ''/'') \<and>
    (\<forall>a. present (AUTH0_AUDIENCE cfg) = Some a \<longrightarrow> dget_dflt d ''aud'' PNone = PStr a)"
proof -
  from assms obtain iss where iss: "py_get v ''iss'' PNone = Inr iss" "iss = PStr (''https://'' @ domain @ ''/'')"
    "(case v of PDict d \<Rightarrow> Inr (new_token_payload d) | _ \<Rightarrow> Inl AttributeError) = Inr p"
    and aud: "(case present (AUTH0_AUDIENCE cfg) of
              None \<Rightarrow> Inr ()
            | Some audience \<Rightarrow>
                bindE (py_get v ''aud'' PNone) (\<lambda>a.
                  if a \<noteq> PStr audience then Inl (ValueError ''Invalid token audience'') else Inr ())) = Inr ()"
    by (auto simp: check_claims_def bindE_eq_Inr split: if_splits)
  then obtain d where d: "v = PDict d" "p = new_token_payload d" by (cases v) auto
  have "dget_dflt d ''aud'' PNone = PStr a" if "present (AUTH0_AUDIENCE cfg) = Some a" for a
    using aud that d(1) by (auto simp del: present_Some simp: bindE_eq_Inr split: if_splits)
  then show ?thesis using d iss by auto
qed

lemma verify_with_Inr:
  assumes "verify_with lib cfg domain j token = Inr p"
  shows "\<exists>ks keys txt v. py_get j ''keys'' (PList []) = Inr ks \<and> py_iter ks = Inr keys \<and>
    verify_jwt lib keys token = Inr txt \<and> json_loads txt = Inr v \<and> check_claims cfg domain v = Inr p"
  using assms by (auto simp: verify_with_def bindE_eq_Inr)

lemma unreserved_not: "\<not> unreserved CHR ''&''" "\<not> unreserved CHR ''=''"
  by (simp_all add: unreserved_def)

lemma quote_plus_not: "CHR ''&'' \<notin> set (quote_plus s)" "CHR ''='' \<notin> set (quote_plus s)"
  using quote_plus_chars [of "CHR ''&''" s] quote_plus_chars [of "CHR ''=''" s] unreserved_not by auto

text \<open>The query string determines the parameters.\<close>

lemma pair_text_inject:
  assumes "quote_plus k @ CHR ''='' # quote_plus v = quote_plus k' @ CHR ''='' # quote_plus v'"
  shows "k = k' \<and> v = v'"
proof -
  have "split_on ''='' [] (quote_plus a @ CHR ''='' # quote_plus b) = [quote_plus a, quote_plus b]" for a b
    using split_on_join [of "[quote_plus a, quote_plus b]" "CHR ''=''"] quote_plus_not by simp
  with assms have "[quote_plus k, quote_plus v] = [quote_plus k', quote_plus v']" by metis
  then show ?thesis using quote_plus_inject by simp
qed

lemma urlencode_inject:
  assumes "urlencode ps = urlencode qs" and "ps \<noteq> []" and "qs \<noteq> []"
  shows "ps = qs"
proof -
  let ?f = "\<lambda>(k, v). quote_plus k @ ''='' @ quote_plus v"
  have no: "\<forall>x\<in>set (map ?f xs). CHR ''&'' \<notin> set x" for xs using quote_plus_not by auto
  have "split_on ''&'' [] (urlencode xs) = map ?f xs" if "xs \<noteq> []" for xs
    unfolding urlencode_def using that no by (intro split_on_join) auto
  then have "map ?f ps = map ?f qs" using assms by metis
  moreover have "inj ?f"
  proof (rule injI)
    fix x y assume "?f x = ?f y"
    then have "fst x = fst y \<and> snd x = snd y"
      using pair_text_inject [of "fst x" "snd x" "fst y" "snd y"] by (simp add: case_prod_beta)
    then show "x = y" by (simp add: prod_eq_iff)
  qed
  ultimately show ?thesis using inj_map_eq_map by blast
qed

section \<open>Properties\<close>

text \<open>
  C24: A token is accepted only if it was verified against the keys of the key set that the service
  holds afterwards, which is the one it held before or the one it has just fetched from the configured domain, and if
  its claims name the configured issuer and, if one is configured, the audience; the payload is made of those verified
  claims. Every rejection is a \<open>ValueError\<close>. A key set that is held is used without asking the provider again.
\<close>

theorem auth0_token_checked:
  "(validate_token exn_str lib cfg token jwks = (Inr p, jwks') \<longrightarrow>
      (\<exists>domain j ks keys txt d. AUTH0_DOMAIN cfg = Some domain \<and> jwks' = Some j \<and>
         (jwks = Some j \<or> jwks = None \<and> http_get lib (''https://'' @ domain @ ''/.well-known/jwks.json'') [] = Inr j) \<and>
         py_get j ''keys'' (PList []) = Inr ks \<and> py_iter ks = Inr keys \<and>
         verify_jwt lib keys token = Inr txt \<and> json_loads txt = Inr (PDict d) \<and>
         dget d ''iss'' = Some (PStr (''https://'' @ domain @ ''/'')) \<and>
         (\<forall>a. AUTH0_AUDIENCE cfg = Some a \<and> a \<noteq> [] \<longrightarrow> dget d ''aud'' = Some (PStr a)) \<and>
         p = new_token_payload d)) \<and>
   (\<forall>e. fst (validate_token exn_str lib cfg token jwks) = Inl e \<longrightarrow> (\<exists>m. e = ValueError m)) \<and>
   (jwks \<noteq> None \<longrightarrow> get_jwks lib cfg jwks = (Inr (the jwks), jwks))"
proof (intro conjI impI allI)
  assume ok: "validate_token exn_str lib cfg token jwks = (Inr p, jwks')"
  then obtain domain where dom: "present (AUTH0_DOMAIN cfg) = Some domain"
    by (cases "present (AUTH0_DOMAIN cfg)") (auto simp: validate_token_def)
  obtain k j' where k: "get_jwks lib cfg jwks = (k, j')" by fastforce
  with ok dom have "bindE k (\<lambda>j. verify_with lib cfg domain j token) = Inr p" "jwks' = j'"
    by (auto simp: validate_token_def split: sum.splits)
  then obtain j where j: "k = Inr j" "verify_with lib cfg domain j token = Inr p" by (auto simp: bindE_eq_Inr)
  then have "j \<noteq> PNone" by (auto simp: verify_with_def)
  then have held: "jwks' = Some j \<and>
      (jwks = Some j \<or> jwks = None \<and> http_get lib (''https://'' @ domain @ ''/.well-known/jwks.json'') [] = Inr j)"
    using k j(1) dom \<open>jwks' = j'\<close>
    by (auto simp: get_jwks_def simp del: present_Some split: option.splits sum.splits if_splits)
  obtain ks keys doc v where v: "py_get j ''keys'' (PList []) = Inr ks" "py_iter ks = Inr keys"
    "verify_jwt lib keys token = Inr doc" "json_loads doc = Inr v" "check_claims cfg domain v = Inr p"
    using verify_with_Inr [OF j(2)] by blast
  obtain d where d: "v = PDict d" "p = new_token_payload d" "dget_dflt d ''iss'' PNone = PStr (''https://'' @ domain @ ''/'')"
    "\<forall>a. present (AUTH0_AUDIENCE cfg) = Some a \<longrightarrow> dget_dflt d ''aud'' PNone = PStr a"
    using check_claims_Inr [OF v(5)] by blast
  then have "AUTH0_DOMAIN cfg = Some domain" "dget d ''iss'' = Some (PStr (''https://'' @ domain @ ''/''))"
    "\<forall>a. AUTH0_AUDIENCE cfg = Some a \<and> a \<noteq> [] \<longrightarrow> dget d ''aud'' = Some (PStr a)"
    using dom by (auto simp: dget_dflt_def split: option.splits)
  with held v d(1,2) show "\<exists>domain j ks keys txt d. AUTH0_DOMAIN cfg = Some domain \<and> jwks' = Some j \<and>
      (jwks = Some j \<or> jwks = None \<and> http_get lib (''https://'' @ domain @ ''/.well-known/jwks.json'') [] = Inr j) \<and>
      py_get j ''keys'' (PList []) = Inr ks \<and> py_iter ks = Inr keys \<and>
      verify_jwt lib keys token = Inr txt \<and> json_loads txt = Inr (PDict d) \<and>
      dget d ''iss'' = Some (PStr (''https://'' @ domain @ ''/'')) \<and>
      (\<forall>a. AUTH0_AUDIENCE cfg = Some a \<and> a \<noteq> [] \<longrightarrow> dget d ''aud'' = Some (PStr a)) \<and> p = new_token_payload d"
    by blast
next
  fix e assume "fst (validate_token exn_str lib cfg token jwks) = Inl e"
  then show "\<exists>m. e = ValueError m"
    by (auto simp: validate_token_def split: option.splits prod.splits sum.splits)
next
  assume "jwks \<noteq> None"
  then show "get_jwks lib cfg jwks = (Inr (the jwks), jwks)" by (auto simp: get_jwks_def)
qed

definition demo_auth0 :: auth0_lib where
  "demo_auth0 = \<lparr>http_get = (\<lambda>u h. Inr (PDict [(''keys'', PList [PStr ''k''])])), http_post = (\<lambda>u p. Inl (RuntimeError ''down'')),
     verify_jwt = (\<lambda>keys token. if keys = [PStr ''k''] then Inr token else Inl (ValueError ''key''))\<rparr>"

definition demo_auth0_config :: auth0_config where
  "demo_auth0_config = \<lparr>AUTH0_DOMAIN = Some ''d'', AUTH0_AUDIENCE = Some ''a'', AUTH0_CLIENT_ID = Some ''c'', AUTH0_CLIENT_SECRET = None\<rparr>"

definition demo_claims :: pydict where
  "demo_claims = [(''iss'', PStr ''https://d/''), (''aud'', PStr ''a''), (''sub'', PStr ''u'')]"

theorem auth0_token_checked_witness:
  "\<exists>keys. verify_jwt demo_auth0 keys (json_dumps (\<lambda>_. []) (PDict demo_claims)) = Inr (json_dumps (\<lambda>_. []) (PDict demo_claims)) \<and>
     keys = [PStr ''k'']"
proof -
  have "json_loads (json_dumps (\<lambda>_. []) (PDict demo_claims)) = Inr (PDict demo_claims)"
    by (rule json_dumps_loads) (simp add: demo_claims_def)
  then have "validate_token (\<lambda>_. []) demo_auth0 demo_auth0_config (json_dumps (\<lambda>_. []) (PDict demo_claims)) None =
      (Inr (new_token_payload demo_claims), Some (PDict [(''keys'', PList [PStr ''k''])]))"
    by (simp add: validate_token_def demo_auth0_config_def demo_auth0_def get_jwks_def present_def verify_with_def dget_dflt_def
        check_claims_def demo_claims_def del: json_dumps.simps)
  then show ?thesis
    using auth0_token_checked [of "\<lambda>_. []" demo_auth0 demo_auth0_config "json_dumps (\<lambda>_. []) (PDict demo_claims)" None]
    by (auto simp: demo_auth0_def dget_dflt_def simp del: json_dumps.simps)
qed

text \<open>
  The authorization address determines what was asked for: two addresses of one
  configuration are equal only for the same redirect address, scope and state, whatever characters
  those contain.
\<close>

theorem authorize_url_injective:
  assumes "get_authorize_url cfg r st sc = Inr u" and "get_authorize_url cfg r' st' sc' = Inr u"
  shows "r = r' \<and> sc = sc' \<and> present st = present st'"
proof -
  from assms obtain domain cid where "present (AUTH0_DOMAIN cfg) = Some domain" "present (AUTH0_CLIENT_ID cfg) = Some cid"
    by (auto simp: get_authorize_url_def split: option.splits)
  with assms have "urlencode (authorize_params cid r st sc) = urlencode (authorize_params cid r' st' sc')"
    by (auto simp: get_authorize_url_def simp del: present_Some)
  then have "authorize_params cid r st sc = authorize_params cid r' st' sc'"
    by (rule urlencode_inject) (simp_all add: authorize_params_def)
  then show ?thesis by (auto simp: authorize_params_def simp del: present_Some split: option.splits)
qed

theorem authorize_url_injective_witness:
  "get_authorize_url demo_auth0_config ''http://h/cb?x=1&y'' (Some ''s p'') ''openid'' =
     Inr ''https://d/authorize?response_type=code&client_id=c&redirect_uri=http%3A%2F%2Fh%2Fcb%3Fx%3D1%26y&scope=openid&state=s+p'' \<and>
   (\<forall>r. get_authorize_url demo_auth0_config r (Some ''s p'') ''openid'' =
      Inr ''https://d/authorize?response_type=code&client_id=c&redirect_uri=http%3A%2F%2Fh%2Fcb%3Fx%3D1%26y&scope=openid&state=s+p'' \<longrightarrow>
      r = ''http://h/cb?x=1&y'')"
proof -
  have "get_authorize_url demo_auth0_config ''http://h/cb?x=1&y'' (Some ''s p'') ''openid'' =
     Inr ''https://d/authorize?response_type=code&client_id=c&redirect_uri=http%3A%2F%2Fh%2Fcb%3Fx%3D1%26y&scope=openid&state=s+p''"
    by code_simp
  then show ?thesis using authorize_url_injective by blast
qed

text \<open>With the settings class of this code base no operation of the service can succeed.\<close>

theorem auth0_unconfigured:
  "fst (validate_token exn_str lib (settings_auth0 s) token jwks) = Inl (ValueError ''AUTH0_DOMAIN not configured'') \<and>
   get_userinfo lib (settings_auth0 s) token = Inl (ValueError ''AUTH0_DOMAIN not configured'') \<and>
   get_authorize_url (settings_auth0 s) r st sc = Inl (ValueError ''AUTH0_DOMAIN and AUTH0_CLIENT_ID required'') \<and>
   exchange_code lib (settings_auth0 s) c r = Inl (ValueError ''Auth0 not fully configured'')"
  by (simp add: validate_token_def get_userinfo_def get_authorize_url_def exchange_code_def settings_auth0_def present_def)

end
