(* ===== verification/Admin_Script.thy ===== *)
theory Admin_Script
  imports Settings
begin

text \<open>
  The script that prepares the first administrator (\<open>scripts/init_admin_user.py\<close>): password generation
  by rejection sampling, the user record, the edit of the environment file and the control flow of
  \<open>main\<close>. \<open>draw n\<close> is the n-th random choice from the alphabet, \<open>pbkdf2\<close> the key derivation. What the
  script prints is in \<open>Script_Output\<close>.
\<close>

section \<open>Passwords\<close>

definition password_alphabet :: string where
  "password_alphabet = ''abcdefghijklmnopqrstuvwxyzABCDEFGHIJKLMNOPQRSTUVWXYZ0123456789''"

definition char_between :: "nat \<Rightarrow> nat \<Rightarrow> char \<Rightarrow> bool" where
  "char_between lo hi c \<longleftrightarrow> (let n = of_char c :: nat in lo \<le> n \<and> n \<le> hi)"

text \<open>\<open>islower\<close>, \<open>isupper\<close> and \<open>isdigit\<close> on the characters of the alphabet.\<close>

definition mixed :: "string \<Rightarrow> bool" where
  "mixed p \<longleftrightarrow> list_ex (char_between 97 122) p \<and> list_ex (char_between 65 90) p \<and> list_ex (char_between 48 57) p"

definition candidate :: "(nat \<Rightarrow> nat) \<Rightarrow> nat \<Rightarrow> nat \<Rightarrow> string" where
  "candidate draw len attempt = map (\<lambda>i. password_alphabet ! draw (attempt * len + i)) [0..<len]"

text \<open>The loop may run for ever; \<open>None\<close> is not returning.\<close>

partial_function (option) sample_password :: "(nat \<Rightarrow> nat) \<Rightarrow> nat \<Rightarrow> nat \<Rightarrow> string option" where
  "sample_password draw len attempt =
     (if mixed (candidate draw len attempt) then Some (candidate draw len attempt)
      else sample_password draw len (Suc attempt))"

definition generate_secure_password :: "(nat \<Rightarrow> nat) \<Rightarrow> nat \<Rightarrow> string option" where
  "generate_secure_password draw len = sample_password draw len 0"

section \<open>The user record\<close>

definition hash_password_salted :: "(string \<Rightarrow> string \<Rightarrow> nat \<Rightarrow> string) \<Rightarrow> string \<Rightarrow> string option \<Rightarrow> string \<Rightarrow> string \<times> string" where
  "hash_password_salted pbkdf2 new_salt salt password =
     (let salt = (case salt of None \<Rightarrow> new_salt | Some s \<Rightarrow> s) in (pbkdf2 password salt 100000, salt))"

definition admin_record ::
  "(string \<Rightarrow> string \<Rightarrow> nat \<Rightarrow> string) \<Rightarrow> string \<Rightarrow> string \<Rightarrow> string \<times> string \<Rightarrow> string \<Rightarrow> string \<Rightarrow> string \<Rightarrow> pydict" where
  "admin_record pbkdf2 new_salt new_id stamps username email password =
     (let (password_hash, salt) = hash_password_salted pbkdf2 new_salt None password in
      [(''user_id'', PStr new_id), (''username'', PStr username), (''email'', PStr email),
       (''password_hash'', PStr password_hash), (''password_salt'', PStr salt),
       (''permissions'', PList (map PStr [''admin:*'', ''eval:*'', ''workflow:*'', ''user:*'', ''system:*''])),
       (''is_active'', PBool True), (''is_admin'', PBool True), (''tenant_id'', PStr ''default''),
       (''created_at'', PStr (fst stamps)), (''updated_at'', PStr (snd stamps))])"

text \<open>The password is generated only when none is given; \<open>None\<close> is a generation that does not return.\<close>

definition create_admin_user ::
  "(string \<Rightarrow> string \<Rightarrow> nat \<Rightarrow> string) \<Rightarrow> (nat \<Rightarrow> nat) \<Rightarrow> string \<Rightarrow> string \<Rightarrow> string \<times> string \<Rightarrow>
   string \<Rightarrow> string \<Rightarrow> string option \<Rightarrow> (pydict \<times> string) option" where
  "create_admin_user pbkdf2 draw new_salt new_id stamps username email password =
     map_option (\<lambda>p. (admin_record pbkdf2 new_salt new_id stamps username email p, p))
       (case password of None \<Rightarrow> generate_secure_password draw 16 | Some p \<Rightarrow> Some p)"

section \<open>The environment file\<close>

text \<open>\<open>readlines\<close>: lines keep their newline.\<close>

fun readlines :: "string \<Rightarrow> string \<Rightarrow> string list" where
  "readlines acc [] = (if acc = [] then [] else [acc])"
| "readlines acc (c # cs) = (if c = CHR 0x0A then (acc @ [c]) # readlines [] cs else readlines (acc @ [c]) cs)"

definition admin_vars :: "string \<Rightarrow> string \<Rightarrow> (string, string) dict" where
  "admin_vars username password = [(''ADMIN_USERNAME'', username), (''ADMIN_PASSWORD'', password)]"

definition is_admin_line :: "string \<Rightarrow> bool" where
  "is_admin_line line = list_ex (\<lambda>key. startswith line (key @ ''='')) [''ADMIN_USERNAME'', ''ADMIN_PASSWORD'']"

definition admin_comment :: string where
  "admin_comment = ''# Admin credentials (set by init_admin_user.py)'' @ [CHR 0x0A]"

text \<open>The new content of the file; \<open>old\<close> is its content, \<open>None\<close> if it does not exist.\<close>

definition saved_content :: "string \<Rightarrow> string \<Rightarrow> string option \<Rightarrow> string" where
  "saved_content username password old =
     (let file_lines = (case old of None \<Rightarrow> [] | Some c \<Rightarrow> readlines [] c);
          kept = filter (\<lambda>l. \<not> is_admin_line l) file_lines in
      concat (kept @ [CHR 0x0A # admin_comment] @ map (\<lambda>(key, value). key @ ''='' @ value @ [CHR 0x0A]) (admin_vars username password)))"

text \<open>
  \<open>os.path.dirname\<close> and \<open>os.path.join\<close>. The path of the environment file is taken relative to the directory above that of the
  script; \<open>loc\<close> says which file a path names for the running process, and \<open>script\<close> is \<open>__file__\<close>.
\<close>

definition path_dirname :: "string \<Rightarrow> string" where
  "path_dirname p =
     (let head = rev (dropWhile (\<lambda>c. c \<noteq> CHR ''/'') (rev p)) in
      if list_all (\<lambda>c. c = CHR ''/'') head then head else rev (dropWhile (\<lambda>c. c = CHR ''/'') (rev head)))"

definition path_join :: "string \<Rightarrow> string \<Rightarrow> string" where
  "path_join a b =
     (if startswith b ''/'' then b else if a = [] \<or> last a = CHR ''/'' then a @ b else a @ ''/'' @ b)"

definition env_path :: "string \<Rightarrow> string \<Rightarrow> string" where
  "env_path script env_file = path_join (path_join (path_dirname script) ''..'') env_file"

type_synonym files = "(string, string) dict"

definition save_to_env_file :: "(string \<Rightarrow> string) \<Rightarrow> string \<Rightarrow> string \<Rightarrow> string \<Rightarrow> string \<Rightarrow> files \<Rightarrow> files" where
  "save_to_env_file loc script username password env_file fs =
     (let f = loc (env_path script env_file) in dset fs f (saved_content username password (dget fs f)))"

section \<open>The entry point\<close>

record script_args =
  arg_username :: string
  arg_email :: "string option"
  arg_password :: "string option"
  arg_save_env :: bool
  arg_env_file :: string
  arg_dry_run :: bool

definition default_args :: script_args where
  "default_args = \<lparr>arg_username = ''admin'', arg_email = None, arg_password = None, arg_save_env = False,
     arg_env_file = ''configs/dev.env'', arg_dry_run = False\<rparr>"

text \<open>
  The exit code and the files afterwards. \<open>writable\<close> says whether a path can be opened for reading and writing: the handler
  turns an error into exit code 1. The settings are loaded for display only.
\<close>

definition script_main ::
  "(string \<Rightarrow> string) \<Rightarrow> string \<Rightarrow> (string \<Rightarrow> string \<Rightarrow> nat \<Rightarrow> string) \<Rightarrow> (nat \<Rightarrow> nat) \<Rightarrow> string \<Rightarrow> string \<Rightarrow> string \<times> string \<Rightarrow>
   (string \<Rightarrow> bool) \<Rightarrow> script_args \<Rightarrow> files \<Rightarrow> (int \<times> files) option" where
  "script_main loc script pbkdf2 draw new_salt new_id stamps writable args fs =
     (let email = (case arg_email args of None \<Rightarrow> arg_username args @ ''@local'' | Some e \<Rightarrow> e) in
      if arg_dry_run args then Some (0, fs)
      else
        map_option
          (\<lambda>(user_data, plain_password).
             if arg_save_env args then
               (if writable (env_path script (arg_env_file args))
                then (0, save_to_env_file loc script (arg_username args) plain_password (arg_env_file args) fs)
                else (1, fs))
             else (0, fs))
          (create_admin_user pbkdf2 draw new_salt new_id stamps (arg_username args) email (arg_password args)))"

section \<open>Lemmas on the sampling loop\<close>

lemma length_candidate [simp]: "length (candidate draw len k) = len"
  by (simp add: candidate_def)

lemma sample_password_sound:
  assumes "sample_password draw len k = Some p"
  shows "mixed p \<and> (\<exists>n. p = candidate draw len n)"
proof (rule sample_password.raw_induct [OF _ assms, of "\<lambda>draw len k p. mixed p \<and> (\<exists>n. p = candidate draw len n)"])
  fix f :: "(nat \<Rightarrow> nat) \<Rightarrow> nat \<Rightarrow> nat \<Rightarrow> string option" and draw len k p
  assume "\<And>draw len k p. f draw len k = Some p \<Longrightarrow> mixed p \<and> (\<exists>n. p = candidate draw len n)"
    and "(if mixed (candidate draw len k) then Some (candidate draw len k) else f draw len (Suc k)) = Some p"
  then show "mixed p \<and> (\<exists>n. p = candidate draw len n)" by (cases "mixed (candidate draw len k)") auto
qed

lemma sample_password_finds: "mixed (candidate draw len (k + n)) \<Longrightarrow> \<exists>p. sample_password draw len k = Some p"
proof (induction n arbitrary: k)
  case 0
  then show ?case by (subst sample_password.simps) simp
next
  case (Suc n)
  have "\<exists>p. sample_password draw len (Suc k) = Some p" using Suc.IH [of "Suc k"] Suc.prems by simp
  then show ?case by (subst sample_password.simps) auto
qed

lemma alphabet_chars: "list_all (\<lambda>c. char_between 97 122 c \<or> char_between 65 90 c \<or> char_between 48 57 c) password_alphabet"
  by code_simp

lemma mixed_length: "mixed p \<Longrightarrow> 3 \<le> length p"
proof -
  assume "mixed p"
  then obtain a b c where "a \<in> set p" "b \<in> set p" "c \<in> set p" "char_between 97 122 a" "char_between 65 90 b" "char_between 48 57 c"
    by (auto simp: mixed_def list_ex_iff)
  then have sub: "{a, b, c} \<subseteq> set p" and "a \<noteq> b" "b \<noteq> c" "a \<noteq> c" by (auto simp: char_between_def Let_def)
  then have "card {a, b, c} = 3" by simp
  moreover have "card {a, b, c} \<le> card (set p)" by (rule card_mono [OF finite_set sub])
  ultimately show ?thesis using card_length [of p] by linarith
qed

section \<open>Lemmas on lines\<close>

definition complete_line :: "string \<Rightarrow> bool" where
  "complete_line l \<longleftrightarrow> (\<exists>b. l = b @ [CHR 0x0A] \<and> CHR 0x0A \<notin> set b)"

lemma readlines_line: "CHR 0x0A \<notin> set b \<Longrightarrow> readlines acc (b @ CHR 0x0A # t) = (acc @ b @ [CHR 0x0A]) # readlines [] t"
  by (induction b arbitrary: acc) auto

lemma readlines_tail: "CHR 0x0A \<notin> set b \<Longrightarrow> readlines acc b = (if acc @ b = [] then [] else [acc @ b])"
  by (induction b arbitrary: acc) auto

lemma readlines_concat: "\<forall>l\<in>set ls. complete_line l \<Longrightarrow> readlines [] (concat ls @ t) = ls @ readlines [] t"
proof (induction ls)
  case (Cons l ls)
  then obtain b where b: "l = b @ [CHR 0x0A]" "CHR 0x0A \<notin> set b" by (auto simp: complete_line_def)
  then have "readlines [] (concat (l # ls) @ t) = l # readlines [] (concat ls @ t)"
    using readlines_line [of b "[]" "concat ls @ t"] by simp
  then show ?case using Cons by simp
qed simp

text \<open>Only the last line can lack its newline.\<close>

lemma readlines_shape:
  "\<exists>ls b. readlines [] s = ls @ (if b = [] then [] else [b]) \<and> (\<forall>l\<in>set ls. complete_line l) \<and> CHR 0x0A \<notin> set b"
proof (induction s rule: length_induct)
  case (1 s)
  show ?case
  proof (cases "CHR 0x0A \<in> set s")
    case False
    then show ?thesis using readlines_tail [of s "[]"] by (intro exI [of _ "[]"] exI [of _ s]) simp
  next
    case True
    then obtain a t where s: "s = a @ CHR 0x0A # t" "CHR 0x0A \<notin> set a" by (metis split_list_first)
    then have "length t < length s" by simp
    with 1 obtain ls b where r: "readlines [] t = ls @ (if b = [] then [] else [b])" "\<forall>l\<in>set ls. complete_line l" "CHR 0x0A \<notin> set b"
      by blast
    have "complete_line (a @ [CHR 0x0A])" using s(2) by (auto simp: complete_line_def)
    then show ?thesis using s r readlines_line [OF s(2), of "[]" t]
      by (intro exI [of _ "(a @ [CHR 0x0A]) # ls"] exI [of _ b]) simp
  qed
qed

lemma startswith_newline:
  assumes "CHR 0x0A \<notin> set p" and "p \<noteq> []"
  shows "startswith (b @ [CHR 0x0A]) p \<longleftrightarrow> startswith b p"
proof
  assume "startswith (b @ [CHR 0x0A]) p"
  then obtain t where t: "b @ [CHR 0x0A] = p @ t" by (auto simp: startswith_iff)
  then have "t \<noteq> []" using assms(1) by (metis append_Nil2 in_set_conv_decomp)
  then obtain t' where "t = t' @ [CHR 0x0A]" using t by (metis append_butlast_last_id last_appendR last_snoc)
  with t have "b = p @ t'" by simp
  then show "startswith b p" by simp
qed (auto simp: startswith_iff)

lemma is_admin_newline: "is_admin_line (b @ [CHR 0x0A]) = is_admin_line b"
  using startswith_newline [of "''ADMIN_USERNAME=''" b] startswith_newline [of "''ADMIN_PASSWORD=''" b]
  by (simp add: is_admin_line_def)

lemma not_admin: "\<not> is_admin_line [CHR 0x0A]" "\<not> is_admin_line admin_comment" "\<not> is_admin_line []"
  by code_simp+

lemma complete_comment: "complete_line admin_comment" "complete_line [CHR 0x0A]"
  by (auto simp: admin_comment_def complete_line_def)

abbreviation user_line :: "string \<Rightarrow> string" where
  "user_line u \<equiv> ''ADMIN_USERNAME='' @ u @ [CHR 0x0A]"

abbreviation password_line :: "string \<Rightarrow> string" where
  "password_line p \<equiv> ''ADMIN_PASSWORD='' @ p @ [CHR 0x0A]"

lemma admin_lines: "is_admin_line (user_line u)" "is_admin_line (password_line p)"
  by (simp_all add: is_admin_line_def startswith_def)

lemma complete_admin:
  assumes "CHR 0x0A \<notin> set u" shows "complete_line (user_line u)" "complete_line (password_line u)"
  using assms unfolding complete_line_def
  by (rule_tac x = "''ADMIN_USERNAME='' @ u" in exI, simp, rule_tac x = "''ADMIN_PASSWORD='' @ u" in exI, simp)

lemma save_lines:
  assumes "CHR 0x0A \<notin> set u" and "CHR 0x0A \<notin> set p" and "\<forall>l\<in>set ks. complete_line l"
    and "readlines [] old = ls @ (if b = [] then [] else [b])" and "CHR 0x0A \<notin> set b"
    and "ks = filter (\<lambda>l. \<not> is_admin_line l) ls"
  shows "readlines [] (saved_content u p (Some old)) =
    ks @ [(if b = [] \<or> is_admin_line b then [] else b) @ [CHR 0x0A], admin_comment, user_line u, password_line p]"
proof -
  let ?e = "(if b = [] \<or> is_admin_line b then [] else b) @ [CHR 0x0A]"
  have "saved_content u p (Some old) = concat (ks @ [?e, admin_comment, user_line u, password_line p]) @ []"
    using assms(4,6) by (simp add: saved_content_def admin_vars_def)
  moreover have "complete_line ?e" using assms(5) by (auto simp: complete_line_def)
  then have "\<forall>l\<in>set (ks @ [?e, admin_comment, user_line u, password_line p]). complete_line l"
    using assms(1-3) complete_comment(1) complete_admin(1) [OF assms(1)] complete_admin(2) [OF assms(2)] by simp
  ultimately show ?thesis
    using readlines_concat [of "ks @ [?e, admin_comment, user_line u, password_line p]" "[]"] by (simp only: readlines.simps append_Nil2 simp_thms if_True)
qed

section \<open>Properties\<close>

text \<open>
  C35: A generated password has the requested length, uses the alphabet only and mixes lower case,
  upper case and digits; generation returns as soon as some attempt is mixed. Below three characters
  no attempt can be, and the loop never ends.
\<close>

theorem generated_password:
  assumes "\<And>n. draw n < length password_alphabet"
  shows "(\<forall>p. generate_secure_password draw len = Some p \<longrightarrow> length p = len \<and> mixed p \<and> set p \<subseteq> set password_alphabet) \<and>
    ((\<exists>k. mixed (candidate draw len k)) \<longrightarrow> (\<exists>p. generate_secure_password draw len = Some p)) \<and>
    (len < 3 \<longrightarrow> generate_secure_password draw len = None)"
proof (intro conjI allI impI)
  fix p assume p: "generate_secure_password draw len = Some p"
  then obtain n where n: "mixed p" "p = candidate draw len n"
    using sample_password_sound [of draw len 0 p] unfolding generate_secure_password_def by blast
  then show "length p = len" "mixed p" by simp_all
  show "set p \<subseteq> set password_alphabet" using n(2) assms by (auto simp: candidate_def)
next
  assume "\<exists>k. mixed (candidate draw len k)"
  then show "\<exists>p. generate_secure_password draw len = Some p"
    using sample_password_finds [of draw len 0] by (auto simp: generate_secure_password_def)
next
  assume len: "len < 3"
  show "generate_secure_password draw len = None"
  proof (cases "generate_secure_password draw len")
    case (Some p)
    then have "mixed p \<and> length p = len"
      using sample_password_sound [of draw len 0 p] unfolding generate_secure_password_def by (metis length_candidate)
    then show ?thesis using mixed_length [of p] len by simp
  qed
qed

theorem generated_password_witness:
  "(\<exists>p. generate_secure_password (\<lambda>n. 26 * n mod 62) 4 = Some p) \<and> generate_secure_password (\<lambda>n. 26 * n mod 62) 2 = None"
proof -
  have m: "mixed (candidate (\<lambda>n. 26 * n mod 62) 4 0)" by code_simp
  have d: "26 * n mod 62 < length password_alphabet" for n :: nat
  proof -
    have "length password_alphabet = 62" by code_simp
    then show ?thesis by simp
  qed
  note g = generated_password [of "\<lambda>n. 26 * n mod 62", OF d]
  from m have "\<exists>p. generate_secure_password (\<lambda>n. 26 * n mod 62) 4 = Some p" using g [of 4] by blast
  moreover have "(2 :: nat) < 3" by simp
  then have "generate_secure_password (\<lambda>n. 26 * n mod 62) 2 = None" using g [of 2] by blast
  ultimately show ?thesis by blast
qed

text \<open>
  Saving the credentials replaces them and keeps the rest: read back, the file has the
  complete lines it had before, in order, without the old credentials; then the unfinished last line
  or an empty one, a comment, and one line for each of the two variables. The comment is not
  recognised on the next run, so every further run adds two lines.
\<close>

theorem env_file_saved:
  assumes "CHR 0x0A \<notin> set u" and "CHR 0x0A \<notin> set p" and "CHR 0x0A \<notin> set u'" and "CHR 0x0A \<notin> set p'"
  shows "\<exists>ks e. readlines [] (saved_content u p (Some old)) = ks @ [e, admin_comment, user_line u, password_line p] \<and>
    ks = filter (\<lambda>l. complete_line l \<and> \<not> is_admin_line l) (readlines [] old) \<and> \<not> is_admin_line e \<and>
    readlines [] (saved_content u' p' (Some (saved_content u p (Some old)))) =
      ks @ [e, admin_comment, [CHR 0x0A], admin_comment, user_line u', password_line p']"
proof -
  obtain ls b where r: "readlines [] old = ls @ (if b = [] then [] else [b])" "\<forall>l\<in>set ls. complete_line l" "CHR 0x0A \<notin> set b"
    using readlines_shape by blast
  define ks where "ks = filter (\<lambda>l. \<not> is_admin_line l) ls"
  define e where "e = (if b = [] \<or> is_admin_line b then [] else b) @ [CHR 0x0A]"
  have ks: "\<forall>l\<in>set ks. complete_line l" using r(2) by (simp add: ks_def)
  have new: "readlines [] (saved_content u p (Some old)) = ks @ [e, admin_comment, user_line u, password_line p]"
    unfolding e_def by (rule save_lines [OF assms(1,2) ks r(1,3) ks_def])
  have e: "complete_line e" "\<not> is_admin_line e"
    using r(3) not_admin by (auto simp: e_def complete_line_def is_admin_newline)
  have "\<not> complete_line b" using r(3) by (auto simp: complete_line_def)
  moreover have "filter (\<lambda>l. complete_line l \<and> \<not> is_admin_line l) ls = ks"
    unfolding ks_def using r(2) by (intro filter_cong) auto
  ultimately have "ks = filter (\<lambda>l. complete_line l \<and> \<not> is_admin_line l) (readlines [] old)" by (simp add: r(1))
  moreover have "readlines [] (saved_content u' p' (Some (saved_content u p (Some old)))) =
      ks @ [e, admin_comment, [CHR 0x0A], admin_comment, user_line u', password_line p']"
  proof -
    have old: "readlines [] (saved_content u p (Some old)) =
        (ks @ [e, admin_comment, user_line u, password_line p]) @ (if [] = ([] :: string) then [] else [[]])" by (simp add: new)
    have kept: "ks @ [e, admin_comment] = filter (\<lambda>l. \<not> is_admin_line l) (ks @ [e, admin_comment, user_line u, password_line p])"
      using e(2) not_admin(2) admin_lines by (simp add: ks_def)
    have "\<forall>l\<in>set (ks @ [e, admin_comment]). complete_line l" using ks e(1) complete_comment by auto
    from save_lines [OF assms(3,4) this old _ kept] show ?thesis by simp
  qed
  ultimately show ?thesis using new e(2) by (intro exI [of _ ks] exI [of _ e]) simp
qed

definition nl :: string where "nl = [CHR 0x0A]"

theorem env_file_saved_witness:
  "\<exists>ks e. readlines [] (saved_content ''root'' ''pw'' (Some (''A=1'' @ nl @ ''ADMIN_USERNAME=x'' @ nl @ ''B=2''))) =
     ks @ [e, admin_comment, user_line ''root'', password_line ''pw''] \<and> ks = [''A=1'' @ nl]"
proof -
  have "filter (\<lambda>l. complete_line l \<and> \<not> is_admin_line l) (readlines [] (''A=1'' @ nl @ ''ADMIN_USERNAME=x'' @ nl @ ''B=2'')) = [''A=1'' @ nl]"
  proof -
    have "readlines [] (''A=1'' @ nl @ ''ADMIN_USERNAME=x'' @ nl @ ''B=2'') = [''A=1'' @ nl, ''ADMIN_USERNAME=x'' @ nl, ''B=2'']" by code_simp
    moreover have "is_admin_line (''ADMIN_USERNAME=x'' @ nl)" "\<not> is_admin_line (''A=1'' @ nl)" by code_simp+
    moreover have "complete_line (''A=1'' @ nl)" unfolding complete_line_def nl_def by (rule exI [of _ "''A=1''"]) simp
    moreover have "\<not> complete_line ''B=2''" by (auto simp: complete_line_def append_eq_Cons_conv Cons_eq_append_conv)
    ultimately show ?thesis by simp
  qed
  then show ?thesis
    using env_file_saved [of "''root''" "''pw''" "''root''" "''pw''" "''A=1'' @ nl @ ''ADMIN_USERNAME=x'' @ nl @ ''B=2''"] by auto
qed

text \<open>
  A dry run and a run without saving change no file, and every run that returns ends with exit
  code 0, unless the environment file cannot be written.
\<close>

theorem script_effects:
  assumes "script_main loc script pbkdf2 draw salt i stamps writable args fs = Some (code, fs')"
  shows "(arg_dry_run args \<or> \<not> arg_save_env args \<longrightarrow> fs' = fs \<and> code = 0) \<and>
    (code = 1 \<longrightarrow> \<not> writable (env_path script (arg_env_file args)) \<and> fs' = fs) \<and> (code = 0 \<or> code = 1) \<and>
    (f \<noteq> loc (env_path script (arg_env_file args)) \<longrightarrow> dget fs' f = dget fs f)"
  using assms by (auto simp: script_main_def save_to_env_file_def Let_def split: if_splits)

theorem script_effects_witness:
  "\<exists>fs'. script_main (\<lambda>p. p) ''scripts/init_admin_user.py'' (\<lambda>p s n. p) (\<lambda>n. 0) ''salt'' ''id'' (''t'', ''t'') (\<lambda>f. True)
     (default_args\<lparr>arg_dry_run := True\<rparr>) [(''configs/dev.env'', ''A=1'')] = Some (0, fs') \<and> fs' = [(''configs/dev.env'', ''A=1'')]"
proof -
  have "script_main (\<lambda>p. p) ''scripts/init_admin_user.py'' (\<lambda>p s n. p) (\<lambda>n. 0) ''salt'' ''id'' (''t'', ''t'') (\<lambda>f. True)
     (default_args\<lparr>arg_dry_run := True\<rparr>) [(''configs/dev.env'', ''A=1'')] = Some (0, [(''configs/dev.env'', ''A=1'')])" by code_simp
  from script_effects [OF this] this show ?thesis by blast
qed

end
