(* ===== verification/Service_Config.thy ===== *)
theory Service_Config
  imports Errors Json Settings
begin

text \<open>
  The configuration classes beside the main settings (\<open>app/core/config/eval_settings.py\<close>,
  \<open>llm_settings.py\<close>, \<open>worker_settings.py\<close>), the task queues of \<open>app/workers/celery_app.py\<close>, the limits of
  \<open>app/core/security/rate_limiter.py\<close>, the exceptions of \<open>app/core/exceptions.py\<close> and the embedding client of
  \<open>app/infra/llm_gateways/ollama_provider.py\<close>. Reading values from the environment belongs to the settings
  library; the bounds of the fields are checked on the values it delivers.
\<close>

section \<open>Evaluation settings\<close>

record eval_settings =
  DEFAULT_FAITHFULNESS_THRESHOLD :: rat
  DEFAULT_ANSWER_RELEVANCY_THRESHOLD :: rat
  DEFAULT_CONTEXT_PRECISION_THRESHOLD :: rat
  DEFAULT_CONTEXT_RECALL_THRESHOLD :: rat
  DEFAULT_CONTEXT_RELEVANCE_THRESHOLD :: rat
  EVAL_DEFAULT_TIMEOUT :: int
  EVAL_MAX_CONCURRENT :: int
  EVAL_BATCH_SIZE :: int
  RAGAS_TEMPERATURE :: rat
  ONLINE_EVAL_SAMPLE_RATE :: rat
  ONLINE_EVAL_MIN_SAMPLES :: int
  REGRESSION_THRESHOLD_DELTA :: rat

definition default_eval_settings :: eval_settings where
  "default_eval_settings =
     \<lparr>DEFAULT_FAITHFULNESS_THRESHOLD = flit 0.85, DEFAULT_ANSWER_RELEVANCY_THRESHOLD = flit 0.80,
      DEFAULT_CONTEXT_PRECISION_THRESHOLD = flit 0.75, DEFAULT_CONTEXT_RECALL_THRESHOLD = flit 0.75,
      DEFAULT_CONTEXT_RELEVANCE_THRESHOLD = flit 0.70, EVAL_DEFAULT_TIMEOUT = 300, EVAL_MAX_CONCURRENT = 10, EVAL_BATCH_SIZE = 100,
      RAGAS_TEMPERATURE = 0, ONLINE_EVAL_SAMPLE_RATE = flit 0.01, ONLINE_EVAL_MIN_SAMPLES = 10, REGRESSION_THRESHOLD_DELTA = flit 0.05\<rparr>"

definition eval_settings_ok :: "eval_settings \<Rightarrow> bool" where
  "eval_settings_ok s \<longleftrightarrow>
     list_all (\<lambda>q. 0 \<le> q \<and> q \<le> 1)
       [DEFAULT_FAITHFULNESS_THRESHOLD s, DEFAULT_ANSWER_RELEVANCY_THRESHOLD s, DEFAULT_CONTEXT_PRECISION_THRESHOLD s,
        DEFAULT_CONTEXT_RECALL_THRESHOLD s, DEFAULT_CONTEXT_RELEVANCE_THRESHOLD s, ONLINE_EVAL_SAMPLE_RATE s] \<and>
     30 \<le> EVAL_DEFAULT_TIMEOUT s \<and> EVAL_DEFAULT_TIMEOUT s \<le> 3600 \<and>
     1 \<le> EVAL_MAX_CONCURRENT s \<and> EVAL_MAX_CONCURRENT s \<le> 50 \<and>
     10 \<le> EVAL_BATCH_SIZE s \<and> EVAL_BATCH_SIZE s \<le> 1000 \<and>
     0 \<le> RAGAS_TEMPERATURE s \<and> RAGAS_TEMPERATURE s \<le> 2 \<and> 1 \<le> ONLINE_EVAL_MIN_SAMPLES s \<and>
     0 \<le> REGRESSION_THRESHOLD_DELTA s \<and> REGRESSION_THRESHOLD_DELTA s \<le> flit 0.5"

definition get_quality_gate_thresholds :: "eval_settings \<Rightarrow> (string, rat) dict" where
  "get_quality_gate_thresholds s =
     [(''faithfulness'', DEFAULT_FAITHFULNESS_THRESHOLD s), (''answer_relevancy'', DEFAULT_ANSWER_RELEVANCY_THRESHOLD s),
      (''context_precision'', DEFAULT_CONTEXT_PRECISION_THRESHOLD s), (''context_recall'', DEFAULT_CONTEXT_RECALL_THRESHOLD s),
      (''context_relevance'', DEFAULT_CONTEXT_RELEVANCE_THRESHOLD s)]"

section \<open>Comma-separated lists\<close>

text \<open>\<open>[m.strip() for m in s.split(",") if m.strip()]\<close>\<close>

definition comma_list :: "string \<Rightarrow> string list" where
  "comma_list s = filter (\<lambda>m. m \<noteq> []) (map strip (split_on '','' [] s))"

definition get_allowed_models :: "string \<Rightarrow> string list option" where
  "get_allowed_models allowlist = (if allowlist = ''*'' then None else Some (comma_list allowlist))"

definition is_model_allowed :: "string \<Rightarrow> string \<Rightarrow> bool" where
  "is_model_allowed allowlist model =
     (case get_allowed_models allowlist of None \<Rightarrow> True | Some allowed \<Rightarrow> model \<in> set allowed)"

definition default_queues :: string where
  "default_queues = ''default,workflow,evaluation,embedding,indexing,agent,llm,maintenance,dead_letter''"

definition get_queues :: "string \<Rightarrow> string list" where
  "get_queues queues = comma_list queues"

text \<open>Only a decoding error is handled: the text of a JSON value that is no object raises.\<close>

definition get_task_routes :: "string \<Rightarrow> pydict res" where
  "get_task_routes routes =
     (case json_loads routes of
        Inl e \<Rightarrow> Inr []
      | Inr (PDict d) \<Rightarrow> Inr (map (\<lambda>(k, v). (k, PDict [(''queue'', v)])) d)
      | Inr _ \<Rightarrow> Inl AttributeError)"

section \<open>Celery routing\<close>

text \<open>The task names of \<open>eval_tasks.py\<close> and the queue a name is routed to: the first matching pattern, else the default.\<close>

definition task_routes :: "(string \<times> string) list" where
  "task_routes = [(''eval.'', ''evaluation''), (''embedding.'', ''embedding''), (''maintenance.'', ''maintenance'')]"

definition task_queues :: "string list" where
  "task_queues = [''evaluation'', ''embedding'', ''maintenance'', ''dead_letter'']"

definition task_default_queue :: string where
  "task_default_queue = ''evaluation''"

definition route_task :: "string \<Rightarrow> string" where
  "route_task name =
     (case List.find (\<lambda>(prefix, q). startswith name prefix) task_routes of Some (p, q) \<Rightarrow> q | None \<Rightarrow> task_default_queue)"

section \<open>Rate limiter\<close>

text \<open>
  The module binds \<open>settings\<close> to the settings object and then to the module of the same name, on which the
  attributes are read.
\<close>

definition limiter_limits :: "rate_settings option \<Rightarrow> string list res" where
  "limiter_limits settings_object =
     (case settings_object of
        None \<Rightarrow> Inl AttributeError
      | Some r \<Rightarrow>
          Inr (if RATE_LIMIT_ENABLED r
               then [show_int (RATE_LIMIT_PER_MINUTE r) @ ''/minute'', show_int (RATE_LIMIT_PER_HOUR r) @ ''/hour''] else []))"

definition limiter_import :: "string list res" where
  "limiter_import = limiter_limits None"

section \<open>Core exceptions\<close>

definition app_exception :: "string \<Rightarrow> string option \<Rightarrow> exn" where
  "app_exception message code = AppException message (case code of Some (c # cs) \<Rightarrow> c # cs | _ \<Rightarrow> ''app_error'')"

text \<open>The classes that take one message, each with its code and its default message.\<close>

definition core_exceptions :: "(string \<times> string \<times> string) list" where
  "core_exceptions =
     [(''InvalidTokenError'', ''invalid_token'', ''Invalid token''), (''TokenExpiredError'', ''token_expired'', ''Token has expired''),
      (''AuthenticationError'', ''authentication_error'', ''Authentication failed''),
      (''AuthorizationError'', ''authorization_error'', ''Not authorized''),
      (''ValidationError'', ''validation_error'', ''Validation failed''), (''ConflictError'', ''conflict'', ''Resource conflict''),
      (''RateLimitError'', ''rate_limit_exceeded'', ''Rate limit exceeded''),
      (''ServiceUnavailableError'', ''service_unavailable'', ''Service temporarily unavailable'')]"

definition core_exception :: "string \<Rightarrow> string option \<Rightarrow> exn option" where
  "core_exception cls message =
     map_option (\<lambda>(code, dflt). app_exception (case message of Some m \<Rightarrow> m | None \<Rightarrow> dflt) (Some code)) (map_of core_exceptions cls)"

definition core_not_found :: "string \<Rightarrow> exn" where
  "core_not_found resource = app_exception (resource @ '' not found'') (Some ''not_found'')"

definition core_provider_error :: "string \<Rightarrow> string \<Rightarrow> exn" where
  "core_provider_error provider message = app_exception (provider @ '': '' @ message) (Some ''llm_provider_error'')"

section \<open>Ollama embeddings\<close>

record ollama_client =
  ollama_url :: string
  ollama_model :: string

definition new_ollama :: "string \<Rightarrow> string \<Rightarrow> ollama_client" where
  "new_ollama url model = \<lparr>ollama_url = rstrip_chars url ''/'', ollama_model = model\<rparr>"

text \<open>\<open>post\<close> is the HTTP client: address and body to the decoded response or an exception; \<open>exn_str\<close> prints exceptions.\<close>

definition embed_documents ::
  "(string \<Rightarrow> pydict \<Rightarrow> pyval res) \<Rightarrow> (exn \<Rightarrow> string) \<Rightarrow> ollama_client \<Rightarrow> string list \<Rightarrow> pyval res" where
  "embed_documents post exn_str c texts =
     (case bindE (post (ollama_url c @ ''/api/embed'') [(''model'', PStr (ollama_model c)), (''input'', PList (map PStr texts))])
             (\<lambda>r. case r of PDict d \<Rightarrow> dget_or_raise d ''embeddings'' | _ \<Rightarrow> Inl TypeError) of
        Inr v \<Rightarrow> Inr v
      | Inl e \<Rightarrow> Inl (EmbeddingServiceError (''Ollama embedding failed: '' @ exn_str e) []))"

definition embed_query ::
  "(string \<Rightarrow> pydict \<Rightarrow> pyval res) \<Rightarrow> (exn \<Rightarrow> string) \<Rightarrow> ollama_client \<Rightarrow> string \<Rightarrow> pyval res" where
  "embed_query post exn_str c t =
     bindE (embed_documents post exn_str c [t])
       (\<lambda>r. case r of PList (x # xs) \<Rightarrow> Inr x | PList [] \<Rightarrow> Inl IndexError | PStr (ch # cs) \<Rightarrow> Inr (PStr [ch])
          | PStr [] \<Rightarrow> Inl IndexError | PDict d \<Rightarrow> Inl KeyError | _ \<Rightarrow> Inl TypeError)"

section \<open>Lemmas\<close>

lemma comma_list_join:
  assumes "xs \<noteq> []" and "\<forall>x\<in>set xs. x \<noteq> [] \<and> strip x = x \<and> CHR '','' \<notin> set x"
  shows "comma_list (join '','' xs) = xs"
proof -
  have "split_on '','' [] (join '','' xs) = xs" using assms by (intro split_on_join) auto
  moreover have "map strip xs = xs" using assms(2) by (induction xs) auto
  moreover have "filter (\<lambda>m. m \<noteq> []) xs = xs" using assms(2) by simp
  ultimately show ?thesis by (simp add: comma_list_def)
qed

section \<open>Properties\<close>

text \<open>
  An allow list names exactly its entries: written as a comma-separated list of trimmed,
  non-empty names it is read back as those names, and a model is
  allowed if and only if it is one of them. Only the text "*" alone allows every model.
\<close>

theorem allowlist_exact:
  assumes "ms \<noteq> []" and "\<forall>m\<in>set ms. m \<noteq> [] \<and> strip m = m \<and> CHR '','' \<notin> set m" and "join '','' ms \<noteq> ''*''"
  shows "get_allowed_models (join '','' ms) = Some ms \<and> (is_model_allowed (join '','' ms) m \<longleftrightarrow> m \<in> set ms) \<and>
    is_model_allowed ''*'' m \<and> get_queues (join '','' ms) = ms"
  using comma_list_join [OF assms(1,2)] assms(3)
  by (simp add: get_allowed_models_def is_model_allowed_def get_queues_def)

theorem allowlist_exact_witness:
  "get_allowed_models ''gpt-4o-mini,llama3.2'' = Some [''gpt-4o-mini'', ''llama3.2''] \<and>
   is_model_allowed ''gpt-4o-mini,llama3.2'' ''llama3.2'' \<and> \<not> is_model_allowed ''gpt-4o-mini,llama3.2'' ''gpt-4o''"
proof -
  have "strip ''gpt-4o-mini'' = ''gpt-4o-mini''" "strip ''llama3.2'' = ''llama3.2''" by code_simp+
  then show ?thesis
    using allowlist_exact [of "[''gpt-4o-mini'', ''llama3.2'']" "''llama3.2''"] allowlist_exact [of "[''gpt-4o-mini'', ''llama3.2'']" "''gpt-4o''"]
    by simp
qed

text \<open>
  Tasks are routed to declared queues, and no route leads to the dead-letter queue.
\<close>

theorem routing_targets:
  "route_task name \<in> set task_queues \<and> route_task name \<noteq> ''dead_letter'' \<and>
   route_task ''eval.ragas_single_turn'' = ''evaluation''"
proof -
  have "route_task name \<in> {''evaluation'', ''embedding'', ''maintenance''}"
    by (simp add: route_task_def task_routes_def task_default_queue_def)
  moreover have "route_task ''eval.ragas_single_turn'' = ''evaluation''" by code_simp
  ultimately show ?thesis by (auto simp: task_queues_def)
qed

text \<open>
  Task routes are read without an exception exactly when the text is no JSON at all or a JSON object; other JSON
  values raise. The limiter module cannot be imported. The exceptions of the core module are not among those
  that a handler maps to their own status: each becomes a response with status 500.
\<close>

theorem config_failures:
  "(is_ok (get_task_routes t) \<longleftrightarrow> (\<forall>v. json_loads t = Inr v \<longrightarrow> (\<exists>d. v = PDict d))) \<and>
   limiter_import = Inl AttributeError \<and>
   (core_exception cls m = Some e \<longrightarrow> resp_status (handle_exception path e) = 500)"
proof -
  have "is_ok (get_task_routes t) \<longleftrightarrow> (\<forall>v. json_loads t = Inr v \<longrightarrow> (\<exists>d. v = PDict d))"
    by (auto simp: get_task_routes_def split: sum.splits pyval.splits)
  moreover have "core_exception cls m = Some e \<Longrightarrow> \<exists>a b. e = AppException a b"
    by (auto simp: core_exception_def app_exception_def)
  ultimately show ?thesis
    by (auto simp: limiter_import_def limiter_limits_def handle_exception_def error_response_def)
qed

text \<open>An embedding request fails with one kind of exception only, status 502, and the configured address may end in slashes.\<close>

theorem embedding_errors:
  "(embed_documents post exn_str c texts = Inl e \<longrightarrow> resp_status (handle_exception path e) = 502) \<and>
   new_ollama (url @ ''/'') model = new_ollama url model"
  by (auto simp: embed_documents_def EmbeddingServiceError_def new_exception_def handle_exception_def error_response_def new_ollama_def
      rstrip_chars_def split: sum.splits)

end
