(* ===== verification/Worker_Process.thy ===== *)
theory Worker_Process
  imports Dispatch Job_Documents Base64
begin

text \<open>
  The worker of version 2 as a process (\<open>main\<close> of \<open>app/workers/eval_worker.py\<close>): it connects the publisher and
  the consumer, handles the messages of the topic one after the other, and closes both at the end. What
  travels over the broker is bytes, written by the serialiser of \<open>app/infra/event_bus/kafka.py\<close> and read by the
  deserialiser of the consumer. The broker is a parameter: connecting, sending and stopping accept or raise,
  and the messages are those that arrive until the consumer is stopped.
\<close>

section \<open>The wire format\<close>

definition value_serializer :: "(rat \<Rightarrow> string) \<Rightarrow> pydict \<Rightarrow> nat list" where
  "value_serializer repr_float v = ascii_bytes (json_dumps repr_float (PDict v))"

definition value_deserializer :: "nat list \<Rightarrow> pyval res" where
  "value_deserializer m =
     (case utf8_decode m of
        None \<Rightarrow> Inl (ValueError ''UnicodeDecodeError'')
      | Some s \<Rightarrow> json_loads s)"

text \<open>A float is printed in ASCII to a text that reads back.\<close>

definition wire_float :: "(rat \<Rightarrow> string) \<Rightarrow> rat \<Rightarrow> bool" where
  "wire_float repr_float q \<longleftrightarrow> float_text repr_float q \<and> ascii (repr_float q)"

section \<open>The consumer\<close>

definition TOPIC_EVAL_REQUESTED :: string where
  "TOPIC_EVAL_REQUESTED = ''eval.requested''"

definition GROUP_ID :: string where
  "GROUP_ID = ''eval-workers''"

record consumer_config =
  cc_topic :: string
  cc_servers :: string
  cc_group_id :: string
  cc_auto_offset_reset :: string
  cc_enable_auto_commit :: bool

definition worker_consumer :: "string \<Rightarrow> consumer_config" where
  "worker_consumer servers =
     \<lparr>cc_topic = TOPIC_EVAL_REQUESTED, cc_servers = servers, cc_group_id = GROUP_ID,
      cc_auto_offset_reset = ''earliest'', cc_enable_auto_commit = True\<rparr>"

text \<open>
  \<open>async for msg in consumer\<close>: a value that cannot be deserialised makes the iteration raise; a value that is
  no object makes \<open>event["job_id"]\<close> raise.
\<close>

type_synonym wire_run = "nat list \<times> string \<times> string \<times> int \<times> int \<times> int"

fun consume_loop ::
  "'db redis \<Rightarrow> (int \<Rightarrow> string) \<Rightarrow> (exn \<Rightarrow> string) \<Rightarrow> (pydict \<Rightarrow> pydict res) \<Rightarrow> (pydict \<Rightarrow> pydict res) \<Rightarrow> (pyval \<Rightarrow> string) \<Rightarrow>
   (string \<Rightarrow> pydict \<Rightarrow> unit res) \<Rightarrow> kafka_publisher \<Rightarrow> wire_run list \<Rightarrow> 'db \<times> event_log \<Rightarrow> ('db \<times> event_log) \<times> unit res" where
  "consume_loop R stamp msg_of single multi shown_name send p [] st = (st, Inr ())"
| "consume_loop R stamp msg_of single multi shown_name send p ((m, c, f, clock) # runs) st =
     (case bindE (value_deserializer m) to_dict of
        Inl e \<Rightarrow> (st, Inl e)
      | Inr event \<Rightarrow>
          (case worker_handle R stamp msg_of single multi shown_name send p c f clock event st of
             (st, Inr u) \<Rightarrow> consume_loop R stamp msg_of single multi shown_name send p runs st
           | (st, Inl e) \<Rightarrow> (st, Inl e)))"

section \<open>The process\<close>

datatype process_end = SystemExit string | Ended "unit res"

record process_state =
  ps_publisher :: "kafka_publisher option"
  ps_consuming :: bool

text \<open>
  The broker as the process sees it: whether the client library can be imported, the connections of
  producer and consumer, sending, and stopping the consumer.
\<close>

record broker =
  br_available :: bool
  br_connect :: "string \<Rightarrow> unit res"
  br_subscribe :: "consumer_config \<Rightarrow> unit res"
  br_send :: "string \<Rightarrow> nat list \<Rightarrow> unit res"
  br_unsubscribe :: "unit res"

definition broker_send :: "broker \<Rightarrow> (rat \<Rightarrow> string) \<Rightarrow> string \<Rightarrow> pydict \<Rightarrow> unit res" where
  "broker_send B repr_float topic payload = br_send B topic (value_serializer repr_float payload)"

definition close_connections ::
  "broker \<Rightarrow> kafka_publisher \<Rightarrow> unit res \<Rightarrow> process_state \<times> process_end" where
  "close_connections B p outcome =
     (case br_unsubscribe B of
        Inl e \<Rightarrow> (\<lparr>ps_publisher = Some p, ps_consuming = True\<rparr>, Ended (Inl e))
      | Inr u \<Rightarrow> (\<lparr>ps_publisher = Some (stop_publisher p), ps_consuming = False\<rparr>, Ended outcome))"

definition worker_main ::
  "broker \<Rightarrow> (rat \<Rightarrow> string) \<Rightarrow> string \<Rightarrow> 'db redis \<Rightarrow> (int \<Rightarrow> string) \<Rightarrow> (exn \<Rightarrow> string) \<Rightarrow> (pydict \<Rightarrow> pydict res) \<Rightarrow>
   (pydict \<Rightarrow> pydict res) \<Rightarrow> (pyval \<Rightarrow> string) \<Rightarrow> wire_run list \<Rightarrow> 'db \<times> event_log \<Rightarrow>
   process_state \<times> ('db \<times> event_log) \<times> process_end" where
  "worker_main B repr_float servers R stamp msg_of single multi shown_name runs st =
     (if \<not> br_available B
      then (\<lparr>ps_publisher = None, ps_consuming = False\<rparr>, st,
            SystemExit ''aiokafka is required for v2 eval_worker. Add aiokafka to requirements.txt and reinstall.'')
      else
        case new_publisher (br_available B) servers of
          Inl e \<Rightarrow> (\<lparr>ps_publisher = None, ps_consuming = False\<rparr>, st, Ended (Inl e))
        | Inr p \<Rightarrow>
            (case start_publisher (br_connect B) p of
               (p, Inl e) \<Rightarrow> (\<lparr>ps_publisher = Some p, ps_consuming = False\<rparr>, st, Ended (Inl e))
             | (p, Inr u) \<Rightarrow>
                 (case br_subscribe B (worker_consumer servers) of
                    Inl e \<Rightarrow> (\<lparr>ps_publisher = Some p, ps_consuming = False\<rparr>, st, Ended (Inl e))
                  | Inr u \<Rightarrow>
                      (let (st, outcome) = consume_loop R stamp msg_of single multi shown_name (broker_send B repr_float) p runs st;
                           (ps, end_of) = close_connections B p outcome
                       in (ps, st, end_of)))))"

section \<open>Lemmas\<close>

text \<open>What one side writes the other side reads.\<close>

lemma wire_roundtrip:
  assumes "json_ok (wire_float repr_float) (PDict d)"
  shows "value_deserializer (value_serializer repr_float d) = Inr (PDict d)"
proof -
  have "ascii (json_dumps repr_float (PDict d))"
    by (rule ascii_dumps, rule json_ok_mono [OF assms]) (simp add: wire_float_def)
  then have "utf8_decode (value_serializer repr_float d) = Some (json_dumps repr_float (PDict d))"
    unfolding value_serializer_def by (rule utf8_ascii)
  moreover have "json_ok (float_text repr_float) (PDict d)"
    by (rule json_ok_mono [OF assms]) (simp add: wire_float_def)
  from json_dumps_loads [OF this] have "json_loads (json_dumps repr_float (PDict d)) = Inr (PDict d)" .
  ultimately show ?thesis by (simp add: value_deserializer_def)
qed

lemma requested_event_ok:
  "json_ok ok (PDict inp) \<Longrightarrow> json_ok ok (PDict (requested_event i ty inp ev ts))"
  by (auto simp: requested_event_def)

lemma single_payload_ok: "json_ok ok (PDict (single_payload q))"
  by (auto simp: single_payload_def opt_str_def opt_strs_def strs_def split: option.splits)

text \<open>On messages that the serialiser wrote, the loop over bytes is the loop over events.\<close>

fun wire_of :: "(rat \<Rightarrow> string) \<Rightarrow> message_run \<Rightarrow> wire_run" where
  "wire_of repr_float (event, rest) = (value_serializer repr_float event, rest)"

lemma consume_written:
  assumes "\<forall>run\<in>set runs. json_ok (wire_float repr_float) (PDict (fst run))"
  shows "consume_loop R stamp msg_of single multi shown_name send p (map (wire_of repr_float) runs) st =
    worker_loop R stamp msg_of single multi shown_name send p runs st"
  using assms
proof (induction runs arbitrary: st)
  case (Cons run runs)
  obtain event c f clock where run: "run = (event, c, f, clock)" by (metis prod_cases4)
  then have "value_deserializer (value_serializer repr_float event) = Inr (PDict event)"
    using Cons.prems by (intro wire_roundtrip) auto
  then show ?case using Cons run by (auto split: prod.splits sum.splits)
qed simp

lemma worker_main_connected:
  assumes "br_available B" "br_connect B servers = Inr ()" "br_subscribe B (worker_consumer servers) = Inr ()"
    "br_unsubscribe B = Inr ()"
    and "consume_loop R stamp msg_of single multi shown_name (broker_send B repr_float) \<lparr>bootstrap = servers, started = True\<rparr> runs st =
      (st', outcome)"
  shows "worker_main B repr_float servers R stamp msg_of single multi shown_name runs st =
    (\<lparr>ps_publisher = Some \<lparr>bootstrap = servers, started = False\<rparr>, ps_consuming = False\<rparr>, st', Ended outcome)"
  using assms by (simp add: worker_main_def new_publisher_def start_publisher_def close_connections_def stop_publisher_def)

fun run_input :: "job_run \<Rightarrow> pydict" where
  "run_input (i, ty, inp, rest) = inp"

lemma run_of_ok: "json_ok ok (PDict (run_input run)) \<Longrightarrow> json_ok ok (PDict (fst (run_of run)))"
  by (cases run rule: run_of.cases) (simp add: requested_event_ok del: json_ok.simps)

section \<open>Properties\<close>

text \<open>
  C8: The worker process of version 2 makes progress: when its connections open and close and the broker accepts
  what it sends, a run over the messages that the publisher wrote for requested events of different live jobs
  handles all of them, ends normally and closes publisher and consumer; afterwards every one of these jobs
  is completed or failed, whatever the evaluations yield, and other jobs are as they were.
\<close>

theorem worker_process_settles:
  assumes "redis_ok R" and "orderly R kv now t runs"
    and "\<forall>run\<in>set runs. json_ok (wire_float repr_float) (PDict (run_input run))"
    and "br_available B" and "br_connect B servers = Inr ()" and "br_subscribe B (worker_consumer servers) = Inr ()"
    and "br_unsubscribe B = Inr ()" and "\<And>topic bytes. br_send B topic bytes = Inr ()"
  shows "\<exists>kv' sent'. worker_main B repr_float servers R stamp msg_of single multi shown_name
        (map (wire_of repr_float \<circ> run_of) runs) (kv, sent) =
      (\<lparr>ps_publisher = Some \<lparr>bootstrap = servers, started = False\<rparr>, ps_consuming = False\<rparr>, (kv', sent'), Ended (Inr ())) \<and>
    (\<forall>i\<in>run_job ` set runs. settled R kv' now i) \<and>
    (\<forall>j. j \<notin> run_job ` set runs \<longrightarrow> get_job R kv' now j = get_job R kv now j)"
proof -
  let ?p = "\<lparr>bootstrap = servers, started = True\<rparr>" and ?send = "broker_send B repr_float"
  have "kafka_publish ?send ?p topic payload = Inr ()" for topic payload
    by (simp add: kafka_publish_def broker_send_def assms(8))
  from worker_loop_settles [OF assms(1) this assms(2)] obtain kv' sent' where
    l: "worker_loop R stamp msg_of single multi shown_name ?send ?p (map run_of runs) (kv, sent) = ((kv', sent'), Inr ())"
    "\<forall>i\<in>run_job ` set runs. settled R kv' now i" "\<forall>j. j \<notin> run_job ` set runs \<longrightarrow> get_job R kv' now j = get_job R kv now j"
    by blast
  have "consume_loop R stamp msg_of single multi shown_name ?send ?p (map (wire_of repr_float) (map run_of runs)) (kv, sent) =
      ((kv', sent'), Inr ())"
    using assms(3) l(1) by (subst consume_written) (auto simp: run_of_ok simp del: json_ok.simps)
  from worker_main_connected [OF assms(4-7) this] l(2,3) show ?thesis by auto
qed

definition demo_broker :: broker where
  "demo_broker =
     \<lparr>br_available = True, br_connect = (\<lambda>s. Inr ()), br_subscribe = (\<lambda>c. Inr ()), br_send = (\<lambda>t m. Inr ()), br_unsubscribe = Inr ()\<rparr>"

theorem worker_process_settles_witness:
  "\<exists>kv' sent'. worker_main demo_broker (\<lambda>q. []) ''localhost:9092'' table_redis (\<lambda>t. ''now'') (\<lambda>e. ''no'') (\<lambda>d. Inr []) (\<lambda>d. Inr []) (\<lambda>v. [])
      (map (wire_of (\<lambda>q. []) \<circ> run_of)
        [(''j'', ''single_turn'', [], ''e'', ''now'', ''c'', ''f'', 10, 20, 20), (''k'', ''other'', [], ''e'', ''now'', ''c'', ''f'', 30, 40, 50)])
      (snd (create_job table_redis (\<lambda>t. ''now'') ''k'' ''ragas_single_turn'' None 0
        (snd (create_job table_redis (\<lambda>t. ''now'') ''j'' ''ragas_single_turn'' None 0 []))), []) =
      (\<lparr>ps_publisher = Some \<lparr>bootstrap = ''localhost:9092'', started = False\<rparr>, ps_consuming = False\<rparr>, (kv', sent'), Ended (Inr ())) \<and>
    settled table_redis kv' 60 ''j'' \<and> settled table_redis kv' 60 ''k''"
proof -
  have "orderly table_redis (snd (create_job table_redis (\<lambda>t. ''now'') ''k'' ''ragas_single_turn'' None 0
        (snd (create_job table_redis (\<lambda>t. ''now'') ''j'' ''ragas_single_turn'' None 0 [])))) 60 0
      [(''j'', ''single_turn'', [], ''e'', ''now'', ''c'', ''f'', 10, 20, 20), (''k'', ''other'', [], ''e'', ''now'', ''c'', ''f'', 30, 40, 50)]"
    by (simp add: get_job_def create_job_def table_redis_def JOB_TTL_SECONDS_def job_key_def)
  from worker_process_settles [OF table_redis_ok this, of "\<lambda>q. []" demo_broker "''localhost:9092''" "\<lambda>t. ''now''" "\<lambda>e. ''no''"
      "\<lambda>d. Inr []" "\<lambda>d. Inr []" "\<lambda>v. []" "[]"]
  show ?thesis by (fastforce simp: demo_broker_def)
qed

text \<open>
  C17: End to end in version 2, over the bytes on the broker: a single-turn request is accepted with a job
  identifier, also by a broker that takes the serialised event and no other message. A worker process that receives this
  message within the lifetime of the job, with a service that scores the request, ends normally, leaves a
  completed job with exactly that result, which polling returns, and has announced it.
\<close>

theorem v2_request_served:
  assumes "redis_ok R" and "single_request_ok q" and "started p" and "svc q = Inr r"
    and "t \<le> t0" and "t0 < t + JOB_TTL_SECONDS" and "t0 \<le> t1" and "t1 < t0 + JOB_TTL_SECONDS"
    and "t1 \<le> now" and "now < t1 + JOB_TTL_SECONDS"
    and "br_available B" and "br_connect B servers = Inr ()" and "br_subscribe B (worker_consumer servers) = Inr ()"
    and "br_unsubscribe B = Inr ()" and "\<And>topic bytes. br_send B topic bytes = Inr ()"
  shows "\<exists>kv1 kv2. evaluate_single_turn_v2 R stamp
        (broker_send (B\<lparr>br_send := (\<lambda>topic m. if topic = ''eval.requested'' \<and>
            m = value_serializer repr_float (requested_event i ''single_turn'' (single_payload q) ev (stamp t))
          then Inr () else Inl e)\<rparr>) repr_float) (Some p) q i ev t kv = (kv1, Inr (new_async_response i)) \<and>
    worker_main B repr_float servers R stamp msg_of (\<lambda>d. bindE (single_kwargs d) svc) multi shown_name
        [(value_serializer repr_float (requested_event i ''single_turn'' (single_payload q) ev (stamp t)), c, f, t0, t1, t2)] (kv1, sent) =
      (\<lparr>ps_publisher = Some \<lparr>bootstrap = servers, started = False\<rparr>, ps_consuming = False\<rparr>,
       (kv2, sent @ [(''eval.completed'', completed_event (PStr i) r c (stamp t1))]), Ended (Inr ())) \<and>
    get_job_status R kv2 now i =
      Inr \<lparr>v_job_id = i, v_job_type = ''ragas_single_turn'', v_status = ''completed'', v_result = Some r, v_error = None,
           v_idempotency_key = None, v_created_at = stamp t, v_started_at = Some (stamp t0), v_completed_at = Some (stamp t1)\<rparr>"
proof -
  let ?send = "broker_send B repr_float" and ?p = "\<lparr>bootstrap = servers, started = True\<rparr>"
    and ?ev = "requested_event i ''single_turn'' (single_payload q) ev (stamp t)"
  have send: "?send topic payload = Inr ()" for topic payload by (simp add: broker_send_def assms(15))
  have "started ?p" by simp
  from v2_job_completes [where send = ?send and svc = svc, OF assms(1,2) this send assms(4-10)] obtain kv1 kv2 where
    v: "evaluate_single_turn_v2 R stamp ?send (Some ?p) q i ev t kv = (kv1, Inr (new_async_response i))"
    "worker_handle R stamp msg_of (\<lambda>d. bindE (single_kwargs d) svc) multi shown_name ?send ?p c f (t0, t1, t2) ?ev (kv1, sent) =
      ((kv2, sent @ [(''eval.completed'', completed_event (PStr i) r c (stamp t1))]), Inr ())"
    "get_job_status R kv2 now i =
      Inr \<lparr>v_job_id = i, v_job_type = ''ragas_single_turn'', v_status = ''completed'', v_result = Some r, v_error = None,
           v_idempotency_key = None, v_created_at = stamp t, v_started_at = Some (stamp t0), v_completed_at = Some (stamp t1)\<rparr>"
    by blast
  have "consume_loop R stamp msg_of (\<lambda>d. bindE (single_kwargs d) svc) multi shown_name ?send ?p
      (map (wire_of repr_float) [(?ev, c, f, t0, t1, t2)]) (kv1, sent) =
      ((kv2, sent @ [(''eval.completed'', completed_event (PStr i) r c (stamp t1))]), Inr ())"
    using v(2) by (subst consume_written) (simp_all add: requested_event_ok single_payload_ok del: json_ok.simps)
  from worker_main_connected [OF assms(11-14) this]
  have "worker_main B repr_float servers R stamp msg_of (\<lambda>d. bindE (single_kwargs d) svc) multi shown_name
        [(value_serializer repr_float ?ev, c, f, t0, t1, t2)] (kv1, sent) =
      (\<lparr>ps_publisher = Some \<lparr>bootstrap = servers, started = False\<rparr>, ps_consuming = False\<rparr>,
       (kv2, sent @ [(''eval.completed'', completed_event (PStr i) r c (stamp t1))]), Ended (Inr ()))" by simp
  moreover have "evaluate_single_turn_v2 R stamp (broker_send (B\<lparr>br_send := (\<lambda>topic m. if topic = ''eval.requested'' \<and>
        m = value_serializer repr_float ?ev then Inr () else Inl e)\<rparr>) repr_float) (Some p) q i ev t kv =
      (kv1, Inr (new_async_response i))"
    using v(1) assms(2,3) send by (simp add: evaluate_single_turn_v2_def submit_v2_def get_kafka_publisher_def kafka_publish_def
        create_job_def) (simp add: broker_send_def)
  ultimately show ?thesis using v(3) by blast
qed

theorem v2_request_served_witness:
  "\<exists>kv1 kv2. evaluate_single_turn_v2 table_redis (\<lambda>t. ''now'')
        (broker_send (demo_broker\<lparr>br_send := (\<lambda>topic m. if topic = ''eval.requested'' \<and>
            m = value_serializer (\<lambda>q. []) (requested_event ''j'' ''single_turn'' (single_payload demo_single) ''e'' ''now'')
          then Inr () else Inl KeyError)\<rparr>) (\<lambda>q. [])) (Some demo_publisher) demo_single ''j'' ''e'' 0 [] =
      (kv1, Inr (new_async_response ''j'')) \<and>
    worker_main demo_broker (\<lambda>q. []) ''h'' table_redis (\<lambda>t. ''now'') (\<lambda>e. []) (\<lambda>d. bindE (single_kwargs d) (\<lambda>q. Inr [])) (\<lambda>d. Inr []) (\<lambda>v. [])
        [(value_serializer (\<lambda>q. []) (requested_event ''j'' ''single_turn'' (single_payload demo_single) ''e'' ''now''), ''c'', ''f'', 10, 20, 30)] (kv1, []) =
      (\<lparr>ps_publisher = Some \<lparr>bootstrap = ''h'', started = False\<rparr>, ps_consuming = False\<rparr>,
       (kv2, [(''eval.completed'', completed_event (PStr ''j'') [] ''c'' ''now'')]), Ended (Inr ())) \<and>
    (\<exists>v. get_job_status table_redis kv2 50 ''j'' = Inr v \<and> v_status v = ''completed'')"
proof -
  have "single_request_ok demo_single" by (simp add: demo_single_def single_request_ok_def)
  from v2_request_served [where svc = "\<lambda>q. Inr []" and p = demo_publisher and r = "[]" and t = 0 and ?t0.0 = 10 and ?t1.0 = 20
      and ?t2.0 = 30 and now = 50 and B = demo_broker and servers = "''h''" and stamp = "\<lambda>t. ''now''" and repr_float = "\<lambda>q. []"
      and i = "''j''" and ev = "''e''" and e = KeyError and kv = "[]" and msg_of = "\<lambda>e. []" and multi = "\<lambda>d. Inr []"
      and shown_name = "\<lambda>v. []" and c = "''c''" and f = "''f''" and sent = "[]", OF table_redis_ok this]
  show ?thesis by (fastforce simp: demo_publisher_def demo_broker_def JOB_TTL_SECONDS_def)
qed

text \<open>
  The connections of the process: once the consumer is connected, a normal end, a message that cannot be read and an
  exception of the handler all close the consumer and the publisher, unless stopping the consumer raises. A
  consumer that cannot connect leaves the publisher running.
\<close>

theorem worker_main_connections:
  assumes "br_available B" and "br_connect B servers = Inr ()"
  shows "fst (worker_main B repr_float servers R stamp msg_of single multi shown_name runs st) =
    (case br_subscribe B (worker_consumer servers) of
       Inl e \<Rightarrow> \<lparr>ps_publisher = Some \<lparr>bootstrap = servers, started = True\<rparr>, ps_consuming = False\<rparr>
     | Inr u \<Rightarrow>
         (case br_unsubscribe B of
            Inl e \<Rightarrow> \<lparr>ps_publisher = Some \<lparr>bootstrap = servers, started = True\<rparr>, ps_consuming = True\<rparr>
          | Inr u \<Rightarrow> \<lparr>ps_publisher = Some \<lparr>bootstrap = servers, started = False\<rparr>, ps_consuming = False\<rparr>))"
  using assms by (simp add: worker_main_def new_publisher_def start_publisher_def close_connections_def stop_publisher_def
      split: sum.splits prod.splits)

theorem worker_main_connections_witness:
  "fst (worker_main demo_broker (\<lambda>q. []) ''h'' table_redis (\<lambda>t. ''now'') (\<lambda>e. []) (\<lambda>d. Inr []) (\<lambda>d. Inr []) (\<lambda>v. [])
      [(ascii_bytes ''{'', ''c'', ''f'', 10, 20, 30)] ([], [])) =
    \<lparr>ps_publisher = Some \<lparr>bootstrap = ''h'', started = False\<rparr>, ps_consuming = False\<rparr>"
  using worker_main_connections [of demo_broker "''h''" "\<lambda>q. []" table_redis "\<lambda>t. ''now''" "\<lambda>e. []" "\<lambda>d. Inr []" "\<lambda>d. Inr []"
      "\<lambda>v. []" "[(ascii_bytes ''{'', ''c'', ''f'', 10, 20, 30)]" "([], [])"]
  by (simp add: demo_broker_def)

end
