(* ===== verification/Environment_Vars.thy ===== *)
theory Environment_Vars
  imports Feature_Flags Json
begin

text \<open>
  The remaining helpers of \<open>app/core/config/env.py\<close>: integer variables, with Python's \<open>int\<close> on texts, and the
  choice of the environment file. The dotenv library is a parameter, a function on the process
  environment.
\<close>

section \<open>Integers from texts\<close>

text \<open>
  \<open>int(s)\<close>: surrounding whitespace, a sign, and digits with single underscores between them; a text of more than
  4300 digits is refused by the interpreter.
\<close>

definition MAX_STR_DIGITS :: nat where
  "MAX_STR_DIGITS = 4300"

definition digits_value :: "string \<Rightarrow> nat res" where
  "digits_value s =
     (let groups = split_on ''_'' [] s; ds = concat groups in
      if [] \<in> set groups \<or> \<not> list_all ascii_digit ds \<or> MAX_STR_DIGITS < length ds then Inl (ValueError ''int'')
      else Inr (nat_of_digits ds))"

definition py_int_of :: "string \<Rightarrow> int res" where
  "py_int_of s =
     (let s = strip s in
      if startswith s ''-'' then bindE (digits_value (drop 1 s)) (\<lambda>n. Inr (- int n))
      else if startswith s ''+'' then bindE (digits_value (drop 1 s)) (\<lambda>n. Inr (int n))
      else bindE (digits_value s) (\<lambda>n. Inr (int n)))"

text \<open>\<open>str(default)\<close> of an integer with too many digits raises as well, with the same handler.\<close>

definition get_int_env :: "(string \<Rightarrow> string option) \<Rightarrow> string \<Rightarrow> int \<Rightarrow> int" where
  "get_int_env var key dflt =
     (case py_int_of (case var key of None \<Rightarrow> show_int dflt | Some v \<Rightarrow> v) of
        Inr n \<Rightarrow> n
      | Inl e \<Rightarrow> dflt)"

section \<open>The environment file\<close>

definition env_text :: "env_name \<Rightarrow> string" where
  "env_text e =
     (case e of ENV_DEV \<Rightarrow> ''dev'' | ENV_TEST \<Rightarrow> ''test'' | ENV_STAGING \<Rightarrow> ''staging'' | ENV_PREPROD \<Rightarrow> ''preprod'' | ENV_PROD \<Rightarrow> ''prod'')"

definition env_files :: "string \<Rightarrow> env_name \<Rightarrow> string list" where
  "env_files base_dir e =
     [base_dir @ ''/configs/env/'' @ env_text e @ ''.env'', base_dir @ ''/.env.'' @ env_text e, base_dir @ ''/.env'']"

definition load_env_file ::
  "bool \<Rightarrow> (string \<Rightarrow> bool) \<Rightarrow> (string \<Rightarrow> (string \<Rightarrow> string option) \<Rightarrow> (string \<Rightarrow> string option)) \<Rightarrow> string \<Rightarrow> env_name option \<Rightarrow>
   (string \<Rightarrow> string option) \<Rightarrow> (string \<Rightarrow> string option)" where
  "load_env_file dotenv_available exists load_dotenv base_dir env var =
     (if \<not> dotenv_available then var
      else
        let env = (case env of None \<Rightarrow> get_environment var | Some e \<Rightarrow> e) in
        case find exists (env_files base_dir env) of
          None \<Rightarrow> var
        | Some env_file \<Rightarrow> load_dotenv env_file var)"

section \<open>Lemmas\<close>

lemma digit_no_underscore: "ascii_digit c \<Longrightarrow> c \<noteq> CHR ''_''"
  by (auto simp: ascii_digit_def)

lemma digit_no_ws: "ascii_digit c \<Longrightarrow> \<not> is_ws c"
  by (auto simp: ascii_digit_def is_ws_def Let_def)

lemma digits_value_digits:
  "digits_value (digits n) = (if length (digits n) \<le> MAX_STR_DIGITS then Inr n else Inl (ValueError ''int''))"
proof -
  have "CHR ''_'' \<notin> set (digits n)" using digits_ascii [of n] digit_no_underscore by (auto simp: list_all_iff)
  then have "split_on ''_'' [] (digits n) = [digits n]"
    using split_on_join [of "[digits n]" "CHR ''_''"] by simp
  then show ?thesis using digits_ascii [of n] digits_nonempty [of n, symmetric]
    by (simp add: digits_value_def nat_of_digits_digits Let_def)
qed

lemma dropWhile_padded: "list_all P pre \<Longrightarrow> s = [] \<or> \<not> P (hd s) \<Longrightarrow> dropWhile P (pre @ s) = s"
  by (induction pre) (auto simp: dropWhile_eq_self_iff)

lemma strip_padded:
  assumes "s \<noteq> []" "\<not> is_ws (hd s)" "\<not> is_ws (last s)" "list_all is_ws pre" "list_all is_ws post"
  shows "strip (pre @ s @ post) = s"
proof -
  have "dropWhile is_ws (pre @ s @ post) = s @ post" using assms(1,2,4) by (intro dropWhile_padded) auto
  moreover have "dropWhile is_ws (rev post @ rev s) = rev s"
    using assms(1,3,5) by (intro dropWhile_padded) (auto simp: hd_rev list_all_iff)
  ultimately show ?thesis by (simp add: strip_def lstrip_def rstrip_def)
qed

lemmas strip_solid = strip_padded [where pre = "[]" and post = "[]", simplified]

lemma show_int_solid: "show_int i \<noteq> []" "\<not> is_ws (hd (show_int i))" "\<not> is_ws (last (show_int i))"
proof -
  have d: "digits n \<noteq> []" "ascii_digit (hd (digits n))" "ascii_digit (last (digits n))" for n
    using digits_ascii [of n] by (simp_all add: list_all_iff)
  then show "show_int i \<noteq> []" "\<not> is_ws (hd (show_int i))" "\<not> is_ws (last (show_int i))"
    using digit_no_ws by (auto simp: show_int_def is_ws_def)
qed

lemma digits_unsigned [simp]: "startswith (digits n) ''-'' = False" "startswith (digits n) ''+'' = False"
  using digits_leading_digit [of n] by (auto simp: startswith_def ascii_digit_def)

lemma startswith_minus: "startswith (CHR ''-'' # s) ''-''"
  by (simp add: startswith_def)

lemma py_int_show:
  "py_int_of (show_int i) = (if length (digits (nat \<bar>i\<bar>)) \<le> MAX_STR_DIGITS then Inr i else Inl (ValueError ''int''))"
proof -
  have "strip (show_int i) = show_int i" by (rule strip_solid [OF show_int_solid])
  then show ?thesis
    by (cases "i < 0") (auto simp: py_int_of_def Let_def show_int_def startswith_minus digits_value_digits)
qed

lemma env_files_length: "length (env_files base_dir e) = 3"
  by (simp add: env_files_def)

section \<open>Properties\<close>

text \<open>
  An integer variable: unset, or set to something that is no integer, it has its default; set to the decimal
  text of a number of at most 4300 digits, also with whitespace around it, it is that number.
\<close>

theorem int_env_values:
  "(var key = None \<longrightarrow> get_int_env var key d = d) \<and>
   (\<forall>v e. var key = Some v \<and> py_int_of v = Inl e \<longrightarrow> get_int_env var key d = d) \<and>
   (\<forall>n pre post. var key = Some (pre @ show_int n @ post) \<and> list_all is_ws pre \<and> list_all is_ws post \<and>
      length (digits (nat \<bar>n\<bar>)) \<le> MAX_STR_DIGITS \<longrightarrow> get_int_env var key d = n)"
proof (intro conjI allI impI)
  fix n pre post
  assume a: "var key = Some (pre @ show_int n @ post) \<and> list_all is_ws pre \<and> list_all is_ws post \<and>
      length (digits (nat \<bar>n\<bar>)) \<le> MAX_STR_DIGITS"
  then have "py_int_of (pre @ show_int n @ post) = py_int_of (show_int n)"
    by (simp add: py_int_of_def strip_padded [OF show_int_solid] strip_solid [OF show_int_solid])
  with a show "get_int_env var key d = n" by (simp add: get_int_env_def py_int_show)
qed (auto simp: get_int_env_def py_int_show)

theorem int_env_values_witness:
  "get_int_env (\<lambda>k. None) ''PORT'' 8000 = 8000 \<and> get_int_env (\<lambda>k. Some ''80x'') ''PORT'' 8000 = 8000 \<and>
   get_int_env (\<lambda>k. Some '' -80 '') ''PORT'' 8000 = -80"
proof -
  have "py_int_of ''80x'' = Inl (ValueError ''int'')" by code_simp
  moreover have s: "show_int (-80) = ''-80''" by code_simp
  moreover have "length (digits (nat \<bar>-80\<bar>)) = 2" by code_simp
  ultimately show ?thesis
    using int_env_values [of "\<lambda>k. None" "''PORT''" 8000] int_env_values [of "\<lambda>k. Some ''80x''" "''PORT''" 8000]
      conjunct2 [OF conjunct2 [OF int_env_values [of "\<lambda>k. Some '' -80 ''" "''PORT''" 8000]], rule_format, of "'' ''" "-80" "'' ''"]
    by (simp add: MAX_STR_DIGITS_def is_ws_def)
qed

text \<open>
  Loading an environment file uses at most one file: the most specific of the three candidates that exists, for
  the environment asked for or else the current one.
\<close>

theorem env_file_choice:
  assumes "i < 3" and "exists (env_files base_dir e ! i)" and "\<forall>j<i. \<not> exists (env_files base_dir e ! j)"
  shows "load_env_file True exists load_dotenv base_dir (Some e) var = load_dotenv (env_files base_dir e ! i) var"
proof -
  have "find exists (env_files base_dir e) = Some (env_files base_dir e ! i)"
    unfolding find_Some_iff using assms by (intro exI [of _ i]) (simp add: env_files_length)
  then show ?thesis by (simp add: load_env_file_def)
qed

theorem env_file_choice_witness:
  "load_env_file True (\<lambda>f. f = ''/srv/.env.prod'') (\<lambda>f var k. Some f) ''/srv'' (Some ENV_PROD) (\<lambda>k. None) ''K'' = Some ''/srv/.env.prod''"
  using env_file_choice [of 1 "\<lambda>f. f = ''/srv/.env.prod''" "''/srv''" ENV_PROD "\<lambda>f var k. Some f" "\<lambda>k. None"]
  by (simp add: env_files_def env_text_def)

end
