(* ===== verification/Job_Interleaving.thy ===== *)
theory Job_Interleaving
  imports Job_Store
begin

text \<open>
  Updates of jobs that overlap. \<open>update_job\<close> of \<open>app/infra/jobs/redis_job_store.py\<close> awaits the server twice, once to read
  the document and once to write it back, and other coroutines and processes run in between. Here the two
  halves are separate steps of numbered calls, and a schedule is any sequence of such steps. \<open>call p\<close> is the
  job and the changed fields of call number \<open>p\<close>.
\<close>

section \<open>The two halves of an update\<close>

type_synonym calls = "nat \<Rightarrow> string \<times> pydict"

text \<open>The store and what each call has read and not yet written.\<close>

type_synonym 'db update_state = "'db \<times> (nat \<Rightarrow> pydict option)"

datatype update_step = ReadStep nat int | WriteStep nat int

definition read_half :: "'db redis \<Rightarrow> calls \<Rightarrow> nat \<Rightarrow> int \<Rightarrow> 'db update_state \<Rightarrow> 'db update_state" where
  "read_half R call p t st = (fst st, (snd st)(p := rget R (fst st) t (job_key (fst (call p)))))"

definition write_half :: "'db redis \<Rightarrow> calls \<Rightarrow> nat \<Rightarrow> int \<Rightarrow> 'db update_state \<Rightarrow> 'db update_state" where
  "write_half R call p t st =
     (case snd st p of
        None \<Rightarrow> st
      | Some d \<Rightarrow> (rset R (fst st) t (job_key (fst (call p))) (dmerge d (snd (call p))) JOB_TTL_SECONDS, (snd st)(p := None)))"

fun update_half :: "'db redis \<Rightarrow> calls \<Rightarrow> update_step \<Rightarrow> 'db update_state \<Rightarrow> 'db update_state" where
  "update_half R call (ReadStep p t) st = read_half R call p t st"
| "update_half R call (WriteStep p t) st = write_half R call p t st"

definition run_schedule :: "'db redis \<Rightarrow> calls \<Rightarrow> update_step list \<Rightarrow> 'db update_state \<Rightarrow> 'db update_state" where
  "run_schedule R call steps st = fold (update_half R call) steps st"

fun step_time :: "update_step \<Rightarrow> int" where
  "step_time (ReadStep p t) = t"
| "step_time (WriteStep p t) = t"

fun step_call :: "update_step \<Rightarrow> nat" where
  "step_call (ReadStep p t) = p"
| "step_call (WriteStep p t) = p"

section \<open>Lemmas\<close>

lemma run_schedule_simps [simp]:
  "run_schedule R call [] st = st"
  "run_schedule R call (s # steps) st = run_schedule R call steps (update_half R call s st)"
  "run_schedule R call (xs @ ys) st = run_schedule R call ys (run_schedule R call xs st)"
  by (simp_all add: run_schedule_def)

text \<open>With nothing in between, the halves are the operation.\<close>

lemma halves_update:
  "fst (write_half R call p t (read_half R call p t (kv, held))) = update_job R (fst (call p)) (snd (call p)) t kv"
  by (simp add: write_half_def read_half_def update_job_def split: option.splits)

text \<open>Steps of calls on other jobs neither touch the document of a job nor what a call on it has read.\<close>

lemma half_other:
  assumes "redis_ok R" "fst (call (step_call s)) \<noteq> fst (call p)" "step_time s \<le> t"
  shows "get_job R (fst (update_half R call s st)) t (fst (call p)) = get_job R (fst st) t (fst (call p)) \<and>
    snd (update_half R call s st) p = snd st p"
proof (cases s)
  case (ReadStep q t')
  then show ?thesis using assms(2) by (auto simp: read_half_def get_job_def)
next
  case (WriteStep q t')
  then show ?thesis using assms redis_get_set [OF assms(1), of t' t]
    by (auto simp: write_half_def get_job_def split: option.splits)
qed

lemma schedule_other:
  assumes "redis_ok R" "\<forall>s\<in>set steps. fst (call (step_call s)) \<noteq> fst (call p) \<and> step_time s \<le> t"
  shows "get_job R (fst (run_schedule R call steps st)) t (fst (call p)) = get_job R (fst st) t (fst (call p)) \<and>
    snd (run_schedule R call steps st) p = snd st p"
  using assms(2)
proof (induction steps arbitrary: st)
  case (Cons s steps)
  then show ?case using half_other [OF assms(1), of call s p t st] by simp
qed simp

section \<open>Properties\<close>

text \<open>
  C13: Updates of different jobs do not interfere: in every schedule in which the read and the write of a call are
  separated, preceded and followed by any steps of calls on other jobs, the job ends as it would after this
  update alone, read at the time of the read and expiring from the time of the write.
\<close>

theorem independent_updates:
  assumes "redis_ok R"
    and "\<forall>s\<in>set (before @ between @ after). fst (call (step_call s)) \<noteq> fst (call p)"
    and "\<forall>s\<in>set before. step_time s \<le> tr" and "tr \<le> tw" and "\<forall>s\<in>set between. step_time s \<le> tw"
    and "\<forall>s\<in>set after. step_time s \<le> now" and "tw \<le> now"
  shows "get_job R (fst (run_schedule R call (before @ ReadStep p tr # between @ WriteStep p tw # after) (kv, held))) now (fst (call p)) =
    (case get_job R kv tr (fst (call p)) of
       None \<Rightarrow> get_job R kv now (fst (call p))
     | Some d \<Rightarrow> if now < tw + JOB_TTL_SECONDS then Some (dmerge d (snd (call p))) else None)"
proof -
  let ?i = "fst (call p)"
  define st1 where "st1 = run_schedule R call before (kv, held)"
  define st2 where "st2 = read_half R call p tr st1"
  define st3 where "st3 = run_schedule R call between st2"
  define st4 where "st4 = write_half R call p tw st3"
  have untouched: "get_job R (fst (run_schedule R call steps st)) t ?i = get_job R (fst st) t ?i"
    "snd (run_schedule R call steps st) p = snd st p"
    if "set steps \<subseteq> set (before @ between @ after)" "\<forall>s\<in>set steps. step_time s \<le> t" for steps st t
    using schedule_other [OF assms(1), of steps call p t st] assms(2) that by auto
  have late: "\<forall>s\<in>set before. step_time s \<le> now" "\<forall>s\<in>set between. step_time s \<le> now" using assms(3-7) by auto
  have "snd st2 p = get_job R kv tr ?i"
    using untouched(1) [of before tr "(kv, held)"] assms(3) by (auto simp: st2_def read_half_def get_job_def st1_def)
  then have read: "snd st3 p = get_job R kv tr ?i" using untouched(2) [of between tw st2] assms(5) by (auto simp: st3_def)
  have kept: "get_job R (fst st3) now ?i = get_job R kv now ?i"
    using untouched(1) [of between now st2] untouched(1) [of before now "(kv, held)"] late
    by (auto simp: st3_def st2_def read_half_def st1_def)
  have "get_job R (fst st4) now ?i = (case get_job R kv tr ?i of None \<Rightarrow> get_job R kv now ?i
     | Some d \<Rightarrow> if now < tw + JOB_TTL_SECONDS then Some (dmerge d (snd (call p))) else None)"
    using read kept redis_get_set [OF assms(1,7)] by (simp add: st4_def write_half_def get_job_def split: option.splits)
  moreover have "get_job R (fst (run_schedule R call after st4)) now ?i = get_job R (fst st4) now ?i"
    using untouched(1) [of after now st4] assms(6) by auto
  ultimately show ?thesis by (simp add: st1_def st2_def st3_def st4_def)
qed

theorem independent_updates_witness:
  "get_job table_redis
     (fst (run_schedule table_redis (\<lambda>p. if p = 0 then (''a'', [(''status'', PStr ''running'')]) else (''b'', [(''status'', PStr ''failed'')]))
        [ReadStep 1 4, ReadStep 0 5, WriteStep 1 6, WriteStep 0 7, ReadStep 1 8]
        (snd (create_job table_redis (\<lambda>t. ''now'') ''a'' ''eval'' None 0
          (snd (create_job table_redis (\<lambda>t. ''now'') ''b'' ''eval'' None 0 []))), \<lambda>p. None))) 9 ''a'' =
   Some (dmerge (new_job (\<lambda>t. ''now'') 0 ''a'' ''eval'' None) [(''status'', PStr ''running'')])"
  using independent_updates [OF table_redis_ok, of "[ReadStep 1 4]" "[WriteStep 1 6]" "[ReadStep 1 8]"
      "\<lambda>p. if p = 0 then (''a'', [(''status'', PStr ''running'')]) else (''b'', [(''status'', PStr ''failed'')])" 0 5 7 9
      "snd (create_job table_redis (\<lambda>t. ''now'') ''a'' ''eval'' None 0 (snd (create_job table_redis (\<lambda>t. ''now'') ''b'' ''eval'' None 0 [])))"
      "\<lambda>p. None"]
  by (simp add: get_create [OF table_redis_ok] JOB_TTL_SECONDS_def del: run_schedule_simps)

text \<open>
  Two updates of one job that overlap lose the first: when both calls have read before either writes, the document
  ends with the changes of the last writer only.
\<close>

theorem lost_update:
  assumes "redis_ok R" and "p \<noteq> q" and "fst (call p) = i" and "fst (call q) = i"
    and "get_job R kv t0 i = Some d" and "get_job R kv t1 i = Some d" and "t2 \<le> t3" and "t3 \<le> now" and "now < t3 + JOB_TTL_SECONDS"
  shows "get_job R (fst (run_schedule R call [ReadStep p t0, ReadStep q t1, WriteStep p t2, WriteStep q t3] (kv, held))) now i =
    Some (dmerge d (snd (call q)))"
  using assms redis_get_set [OF assms(1,8)] by (simp add: read_half_def write_half_def get_job_def)

theorem lost_update_witness:
  "get_job table_redis
     (fst (run_schedule table_redis (\<lambda>p. if p = 0 then (''a'', [(''error'', PStr ''e'')]) else (''a'', [(''status'', PStr ''failed'')]))
        [ReadStep 0 1, ReadStep 1 2, WriteStep 0 3, WriteStep 1 4]
        (snd (create_job table_redis (\<lambda>t. ''now'') ''a'' ''eval'' None 0 []), \<lambda>p. None))) 9 ''a'' =
   Some (dmerge (new_job (\<lambda>t. ''now'') 0 ''a'' ''eval'' None) [(''status'', PStr ''failed'')])"
  using lost_update [OF table_redis_ok, of 0 1
      "\<lambda>p. if p = 0 then (''a'', [(''error'', PStr ''e'')]) else (''a'', [(''status'', PStr ''failed'')])" "''a''"
      "snd (create_job table_redis (\<lambda>t. ''now'') ''a'' ''eval'' None 0 [])" 1 "new_job (\<lambda>t. ''now'') 0 ''a'' ''eval'' None" 2 3 4 9 "\<lambda>p. None"]
  by (simp add: get_create [OF table_redis_ok] JOB_TTL_SECONDS_def del: run_schedule_simps)

end
