(* ===== verification/Settings_Fields.thy ===== *)
theory Settings_Fields
  imports Settings Json Float64
begin

text \<open>
  The fields of the four settings classes (\<open>app/core/config/settings.py\<close>, \<open>worker_settings.py\<close>, \<open>llm_settings.py\<close>,
  \<open>eval_settings.py\<close>) with their types, bounds and defaults, and the settings objects that are built from them. The settings library is a
  parameter \<open>load\<close>; what is relied on of it is \<open>loader_ok\<close>: the value of a field is that of the arguments, the process environment, the
  environment file or the default, in this order, and has the type of the field. A loader with this behaviour is
  \<open>load_fields\<close>. Validators of single fields and of the whole class are in \<open>Settings\<close>.
\<close>

section \<open>Field types\<close>

datatype ftype =
    TStr
  | TSecret nat
    \<comment> \<open>minimal length\<close>
  | TOptStr
  | TInt "int option" "int option"
    \<comment> \<open>bounds \<open>ge\<close> and \<open>le\<close>\<close>
  | TFloat "rat option" "rat option"
  | TBool
  | TLit "string list"
  | TStrList
  | TEnvironment

record field =
  f_name :: string
  f_aliases :: "string list"
  f_type :: ftype
  f_default :: pyval

definition plain_field :: "string \<Rightarrow> ftype \<Rightarrow> pyval \<Rightarrow> field" where
  "plain_field n ty v = \<lparr>f_name = n, f_aliases = [n], f_type = ty, f_default = v\<rparr>"

definition alias_field :: "string \<Rightarrow> string list \<Rightarrow> ftype \<Rightarrow> pyval \<Rightarrow> field" where
  "alias_field n as ty v = \<lparr>f_name = n, f_aliases = n # as, f_type = ty, f_default = v\<rparr>"

definition in_bounds :: "'a::linorder option \<Rightarrow> 'a option \<Rightarrow> 'a \<Rightarrow> bool" where
  "in_bounds lo hi x \<longleftrightarrow> (case lo of None \<Rightarrow> True | Some l \<Rightarrow> l \<le> x) \<and> (case hi of None \<Rightarrow> True | Some h \<Rightarrow> x \<le> h)"

definition environment_texts :: "string list" where
  "environment_texts = map environment_value [DEV, STAGING, PRODUCTION, TEST]"

text \<open>The values of a type. Secrets and enumerations are represented by their texts.\<close>

fun is_text :: "pyval \<Rightarrow> bool" where
  "is_text (PStr s) = True"
| "is_text _ = False"

fun conforms :: "ftype \<Rightarrow> pyval \<Rightarrow> bool" where
  "conforms TStr (PStr s) = True"
| "conforms (TSecret n) (PStr s) = (n \<le> length s)"
| "conforms TOptStr PNone = True"
| "conforms TOptStr (PStr s) = True"
| "conforms (TInt lo hi) (PInt i) = in_bounds lo hi i"
| "conforms (TFloat lo hi) (PFloat q) = in_bounds lo hi q"
| "conforms TBool (PBool b) = True"
| "conforms (TLit ls) (PStr s) = (s \<in> set ls)"
| "conforms TStrList (PList vs) = list_all is_text vs"
| "conforms TEnvironment (PStr s) = (s \<in> set environment_texts)"
| "conforms _ _ = False"

section \<open>The classes\<close>

definition application_fields :: "field list" where
  "application_fields =
     [plain_field ''APP_NAME'' TStr (PStr ''RAG Evaluation Service''),
      plain_field ''APP_VERSION'' TStr (PStr ''1.0.0''),
      plain_field ''DESCRIPTION'' TStr (PStr ''A service for evaluating RAG systems.''),
      plain_field ''API_PREFIX'' TStr (PStr ''/api''),
      plain_field ''DEBUG_MODE'' TBool (PBool False),
      plain_field ''ENVIRONMENT'' TEnvironment (PStr ''dev'')]"

definition server_fields :: "field list" where
  "server_fields =
     [plain_field ''DOMAIN'' TStr (PStr ''localhost''),
      plain_field ''HOST'' TStr (PStr ''0.0.0.0''),
      plain_field ''PORT'' (TInt None None) (PInt 8000),
      plain_field ''WORKERS'' (TInt None None) (PInt 1)]"

definition database_fields :: "field list" where
  "database_fields =
     [plain_field ''DB_PROVIDER'' (TLit [''postgresql'', ''supabase'', ''sqlite'']) (PStr ''postgresql''),
      plain_field ''DATABASE_URL'' TOptStr PNone,
      plain_field ''POSTGRESQL_USERNAME'' TStr (PStr ''admin''),
      plain_field ''POSTGRESQL_PASSWORD'' (TSecret 0) (PStr ''admin''),
      plain_field ''POSTGRESQL_SERVER'' TStr (PStr ''localhost''),
      plain_field ''POSTGRESQL_PORT'' (TInt (Some 1) (Some 65535)) (PInt 5432),
      plain_field ''POSTGRESQL_DATABASE'' TStr (PStr ''db_rag_eval''),
      plain_field ''DATABASE_POOL_SIZE'' (TInt (Some 1) (Some 100)) (PInt 20),
      plain_field ''DATABASE_MAX_OVERFLOW'' (TInt (Some 0) (Some 100)) (PInt 10),
      plain_field ''DATABASE_POOL_RECYCLE'' (TInt (Some 300) None) (PInt 3600),
      plain_field ''SQLITE_URL'' TStr (PStr ''sqlite+aiosqlite:///./test.db'')]"

definition redis_fields :: "field list" where
  "redis_fields =
     [plain_field ''REDIS_HOST'' TStr (PStr ''localhost''),
      plain_field ''REDIS_PORT'' (TInt None None) (PInt 6379),
      plain_field ''REDIS_USER_NAME'' TStr (PStr ''default''),
      plain_field ''REDIS_PASSWORD'' TStr (PStr []),
      plain_field ''REDIS_DB'' (TInt None None) (PInt 0),
      plain_field ''REDIS_SSL'' TBool (PBool True),
      plain_field ''REDIS_URL'' TOptStr PNone]"

definition supabase_fields :: "field list" where
  "supabase_fields =
     [plain_field ''SUPABASE_URL'' TOptStr PNone,
      plain_field ''SUPABASE_KEY'' TOptStr PNone,
      plain_field ''SUPABASE_DB_URL'' TOptStr PNone,
      plain_field ''SUPABASE_DB_PASSWORD'' TOptStr PNone]"

definition qdrant_fields :: "field list" where
  "qdrant_fields =
     [plain_field ''QDRANT_URL'' TOptStr PNone,
      plain_field ''QDRANT_API_KEY'' TOptStr PNone]"

definition security_fields :: "field list" where
  "security_fields =
     [plain_field ''SECRET_KEY'' (TSecret 32) (PStr ''dev-secret-key-minimum-32-characters-long-only''),
      plain_field ''JWT_SECRET_KEY'' TOptStr (PStr ''dev-change-me-in-production''),
      plain_field ''JWT_ALGORITHM'' TStr (PStr ''HS256''),
      plain_field ''JWT_ACCESS_TOKEN_EXPIRE_MINUTES'' (TInt (Some 1) None) (PInt 30),
      plain_field ''JWT_REFRESH_TOKEN_EXPIRE_DAYS'' (TInt (Some 1) None) (PInt 7),
      plain_field ''JWT_CONFIRMATION_TOKEN_EXPIRE_MINUTES'' (TInt (Some 1) None) (PInt 10)]"

definition admin_fields :: "field list" where
  "admin_fields =
     [plain_field ''ADMIN_USERNAME'' TStr (PStr ''admin''),
      plain_field ''ADMIN_PASSWORD'' (TSecret 0) (PStr ''admin''),
      plain_field ''DEFAULT_TENANT_ID'' TStr (PStr ''default'')]"

definition provider_fields :: "field list" where
  "provider_fields =
     [plain_field ''OPENAI_API_KEY'' TStr (PStr []),
      plain_field ''ANTHROPIC_API_KEY'' TStr (PStr []),
      plain_field ''GOOGLE_API_KEY'' TStr (PStr []),
      plain_field ''DEFAULT_LLM_PROVIDER'' (TLit [''openai'', ''anthropic'', ''gemini'', ''ollama'']) (PStr ''ollama''),
      plain_field ''DEFAULT_GENERATION_MODEL_NAME'' TStr (PStr ''qwen2.5:latest''),
      plain_field ''DEFAULT_EMBEDDINGS_MODEL_NAME'' TStr (PStr ''nomic-embed-text:latest'')]"

definition model_fields :: "field list" where
  "model_fields =
     [plain_field ''GENERATION_MODEL'' TStr (PStr ''gpt-5.4-mini''),
      plain_field ''EMBEDDING_MODEL'' TStr (PStr ''text-embedding-3-small''),
      plain_field ''EMBEDDING_DIMENSIONS'' (TInt None None) (PInt 1536),
      plain_field ''PGVECTOR_COLLECTION'' TStr (PStr ''knowledge_base''),
      plain_field ''PGVECTOR_ENABLED'' TBool (PBool False)]"

definition research_fields :: "field list" where
  "research_fields =
     [alias_field ''TAVILY_API_KEY'' [''TAVILY_KEY''] TStr (PStr [])]"

definition observability_fields :: "field list" where
  "observability_fields =
     [plain_field ''LANGCHAIN_TRACING_V2'' TBool (PBool True),
      plain_field ''LANGSMITH_API_KEY'' TStr (PStr []),
      plain_field ''LANGSMITH_PROJECT'' TStr (PStr ''lavie''),
      plain_field ''OTEL_EXPORTER_ENDPOINT'' TStr (PStr [])]"

definition prompt_fields :: "field list" where
  "prompt_fields =
     [plain_field ''PROMPT_ASSETS_DIR'' TOptStr PNone,
      plain_field ''PROMPT_REGISTRY_PATH'' TOptStr PNone]"

definition agent_fields :: "field list" where
  "agent_fields =
     [plain_field ''AGENT_MAX_CONTEXT_TOKENS'' (TInt None None) (PInt 12000),
      plain_field ''SUPERVISOR_ROUTING_MAX_TOKENS'' (TInt None None) (PInt 2048),
      plain_field ''MAX_TOOL_OUTPUT_CHARS'' (TInt None None) (PInt 10000),
      plain_field ''MEMORY_SUMMARIZATION_TRIGGER_MESSAGES'' (TInt None None) (PInt 40),
      plain_field ''MEMORY_SUMMARIZATION_KEEP_RECENT_MESSAGES'' (TInt None None) (PInt 12),
      plain_field ''MEMORY_SUMMARY_MAX_CHARS'' (TInt None None) (PInt 4000),
      plain_field ''MEMORY_SUMMARIZER_PROVIDER'' (TLit [''openai'', ''anthropic'', ''gemini'', []]) (PStr []),
      plain_field ''MEMORY_SUMMARIZER_MODEL_NAME'' TStr (PStr [])]"

definition celery_fields :: "field list" where
  "celery_fields =
     [plain_field ''CELERY_BROKER_URL'' TStr (PStr ''redis://localhost:6379/1''),
      plain_field ''CELERY_RESULT_BACKEND'' TStr (PStr ''redis://localhost:6379/2'')]"

definition kafka_fields :: "field list" where
  "kafka_fields =
     [plain_field ''KAFKA_ENABLED'' TBool (PBool False),
      plain_field ''KAFKA_BOOTSTRAP_SERVERS'' TStr (PStr ''localhost:9092''),
      plain_field ''KAFKA_TOPIC_EVAL_REQUESTED'' TStr (PStr ''eval.requested''),
      plain_field ''KAFKA_TOPIC_EVAL_COMPLETED'' TStr (PStr ''eval.completed''),
      plain_field ''KAFKA_TOPIC_EVAL_FAILED'' TStr (PStr ''eval.failed''),
      plain_field ''KAFKA_CONSUMER_GROUP_ID'' TStr (PStr ''eval-workers'')]"

definition cors_fields :: "field list" where
  "cors_fields =
     [plain_field ''BACKEND_CORS_ORIGINS'' TStr (PStr []),
      plain_field ''CORS_ORIGINS'' TStrList (PList [PStr ''http://localhost'', PStr ''http://localhost:3000'', PStr ''http://localhost:5173'', PStr ''http://localhost:8080''])]"

definition email_fields :: "field list" where
  "email_fields =
     [plain_field ''MAILGUN_API_KEY'' TOptStr PNone,
      plain_field ''MAILGUN_DOMAIN'' TOptStr PNone,
      plain_field ''MAILGUN_FROM_EMAIL'' TStr (PStr ''noreply@example.com'')]"

definition logging_fields :: "field list" where
  "logging_fields =
     [plain_field ''LOG_LEVEL'' TStr (PStr ''INFO''),
      plain_field ''LOG_FORMAT'' TStr (PStr ''json''),
      plain_field ''LOGTAIL_API_KEY'' TOptStr PNone,
      plain_field ''SENTRY_DSN'' TOptStr PNone]"

definition rate_fields :: "field list" where
  "rate_fields =
     [plain_field ''RATE_LIMIT_ENABLED'' TBool (PBool True),
      plain_field ''RATE_LIMIT_PER_MINUTE'' (TInt (Some 1) None) (PInt 60),
      plain_field ''RATE_LIMIT_PER_HOUR'' (TInt (Some 1) None) (PInt 2)]"

definition feature_fields :: "field list" where
  "feature_fields =
     [plain_field ''FEATURE_SEMANTIC_SEARCH'' TBool (PBool False),
      plain_field ''FEATURE_EMAIL_NOTIFICATIONS'' TBool (PBool True),
      plain_field ''FEATURE_BACKGROUND_TASKS'' TBool (PBool True)]"

definition settings_fields :: "field list" where
  "settings_fields =
     application_fields @ server_fields @ database_fields @ redis_fields @ supabase_fields @
     qdrant_fields @ security_fields @ admin_fields @ provider_fields @ model_fields @
     research_fields @ observability_fields @ prompt_fields @ agent_fields @ celery_fields @
     kafka_fields @ cors_fields @ email_fields @ logging_fields @ rate_fields @
     feature_fields"

definition worker_fields :: "field list" where
  "worker_fields =
     [plain_field ''CELERY_BROKER_URL'' TStr (PStr ''redis://localhost:6379/1''),
      plain_field ''CELERY_RESULT_BACKEND'' TStr (PStr ''redis://localhost:6379/2''),
      plain_field ''CELERY_WORKER_CONCURRENCY'' (TInt (Some 1) (Some 20)) (PInt 4),
      plain_field ''CELERY_WORKER_PREFETCH_MULTIPLIER'' (TInt (Some 1) (Some 10)) (PInt 4),
      plain_field ''CELERY_TASK_ALWAYS_EAGER'' TBool (PBool False),
      plain_field ''CELERY_TASK_ACKS_LATE'' TBool (PBool True),
      plain_field ''CELERY_TASK_REJECT_ON_WORKER_LOST'' TBool (PBool True),
      plain_field ''CELERY_TASK_TRACK_STARTED'' TBool (PBool True),
      plain_field ''CELERY_RESULT_EXPIRES'' (TInt None None) (PInt 3600),
      plain_field ''CELERY_RESULT_EXTENDED'' TBool (PBool True),
      plain_field ''CELERY_WORKER_HEARTBEAT_INTERVAL'' (TInt None None) (PInt 30),
      plain_field ''CELERY_DEFAULT_QUEUE'' TStr (PStr ''default''),
      plain_field ''CELERY_QUEUES'' TStr (PStr ''default,workflow,evaluation,embedding,indexing,agent,llm,maintenance,dead_letter''),
      plain_field ''CELERY_BEAT_SCHEDULE_ENABLED'' TBool (PBool True),
      plain_field ''CELERY_BEAT_MAX_LOOP_INTERVAL'' (TInt None None) (PInt 300),
      plain_field ''CELERY_REDIS_MAX_CONNECTIONS'' (TInt None None) (PInt 50),
      plain_field ''CELERY_REDIS_SOCKET_TIMEOUT'' (TInt None None) (PInt 30),
      plain_field ''CELERY_REDIS_SOCKET_CONNECT_TIMEOUT'' (TInt None None) (PInt 5),
      plain_field ''CELERY_TASK_ROUTES'' TStr (PStr ''{}''),
      plain_field ''CELERY_TASK_DLQ_ENABLED'' TBool (PBool True),
      plain_field ''CELERY_TASK_MAX_RETRIES'' (TInt None None) (PInt 3),
      plain_field ''JOB_STATUS_TTL'' (TInt None None) (PInt 3600)]"

definition llm_fields :: "field list" where
  "llm_fields =
     [plain_field ''OPENAI_API_KEY'' TOptStr PNone,
      plain_field ''OPENAI_ORG_ID'' TOptStr PNone,
      plain_field ''OPENAI_BASE_URL'' TStr (PStr ''https://api.openai.com/v1''),
      plain_field ''OPENAI_DEFAULT_MODEL'' TStr (PStr ''gpt-4o-mini''),
      plain_field ''ANTHROPIC_API_KEY'' TOptStr PNone,
      plain_field ''ANTHROPIC_BASE_URL'' TStr (PStr ''https://api.anthropic.com''),
      plain_field ''ANTHROPIC_DEFAULT_MODEL'' TStr (PStr ''claude-3-5-sonnet-20241022''),
      plain_field ''GOOGLE_API_KEY'' TOptStr PNone,
      plain_field ''GOOGLE_BASE_URL'' TStr (PStr ''https://generativelanguage.googleapis.com''),
      plain_field ''GOOGLE_DEFAULT_MODEL'' TStr (PStr ''gemini-1.5-flash''),
      plain_field ''OPENROUTER_API_KEY'' TOptStr PNone,
      plain_field ''OPENROUTER_BASE_URL'' TStr (PStr ''https://openrouter.ai/api/v1''),
      plain_field ''OPENROUTER_DEFAULT_MODEL'' TStr (PStr ''openai/gpt-4o-mini''),
      plain_field ''OLLAMA_BASE_URL'' TStr (PStr ''http://localhost:11434''),
      plain_field ''OLLAMA_DEFAULT_MODEL'' TStr (PStr ''llama3.2''),
      plain_field ''OLLAMA_ENABLED'' TBool (PBool True),
      plain_field ''LLM_DEFAULT_TIMEOUT'' (TInt (Some 1) (Some 300)) (PInt 60),
      plain_field ''LLM_MAX_RETRIES'' (TInt (Some 0) (Some 10)) (PInt 3),
      plain_field ''LLM_RETRY_DELAY'' (TFloat (Some 0) None) (PFloat 1),
      plain_field ''LLM_CIRCUIT_BREAKER_THRESHOLD'' (TInt (Some 1) None) (PInt 5),
      plain_field ''LLM_CIRCUIT_BREAKER_RECOVERY'' (TInt (Some 1) None) (PInt 30),
      plain_field ''LLM_COST_TRACKING_ENABLED'' TBool (PBool True),
      plain_field ''LLM_COST_ALERT_THRESHOLD'' (TFloat None None) (PFloat 100),
      plain_field ''LLM_MODEL_ALLOWLIST'' TStr (PStr ''*'')]"

definition eval_fields :: "field list" where
  "eval_fields =
     [plain_field ''DEFAULT_FAITHFULNESS_THRESHOLD'' (TFloat (Some 0) (Some 1)) (PFloat (flit 0.85)),
      plain_field ''DEFAULT_ANSWER_RELEVANCY_THRESHOLD'' (TFloat (Some 0) (Some 1)) (PFloat (flit 0.8)),
      plain_field ''DEFAULT_CONTEXT_PRECISION_THRESHOLD'' (TFloat (Some 0) (Some 1)) (PFloat (flit 0.75)),
      plain_field ''DEFAULT_CONTEXT_RECALL_THRESHOLD'' (TFloat (Some 0) (Some 1)) (PFloat (flit 0.75)),
      plain_field ''DEFAULT_CONTEXT_RELEVANCE_THRESHOLD'' (TFloat (Some 0) (Some 1)) (PFloat (flit 0.7)),
      plain_field ''EVAL_DEFAULT_TIMEOUT'' (TInt (Some 30) (Some 3600)) (PInt 300),
      plain_field ''EVAL_MAX_CONCURRENT'' (TInt (Some 1) (Some 50)) (PInt 10),
      plain_field ''EVAL_BATCH_SIZE'' (TInt (Some 10) (Some 1000)) (PInt 100),
      plain_field ''RAGAS_EMBEDDING_MODEL'' TStr (PStr ''text-embedding-3-small''),
      plain_field ''RAGAS_LLM_MODEL'' TStr (PStr ''gpt-4o-mini''),
      plain_field ''RAGAS_TEMPERATURE'' (TFloat (Some 0) (Some 2)) (PFloat 0),
      plain_field ''OFFLINE_EVAL_DATASET_PATH'' TOptStr PNone,
      plain_field ''OFFLINE_EVAL_OUTPUT_PATH'' TStr (PStr ''./eval_results''),
      plain_field ''OFFLINE_EVAL_SAVE_INTERMEDIATE'' TBool (PBool True),
      plain_field ''ONLINE_EVAL_ENABLED'' TBool (PBool False),
      plain_field ''ONLINE_EVAL_SAMPLE_RATE'' (TFloat (Some 0) (Some 1)) (PFloat (flit 0.01)),
      plain_field ''ONLINE_EVAL_MIN_SAMPLES'' (TInt (Some 1) None) (PInt 10),
      plain_field ''REGRESSION_TEST_ENABLED'' TBool (PBool True),
      plain_field ''REGRESSION_TEST_DATASET'' TOptStr PNone,
      plain_field ''REGRESSION_THRESHOLD_DELTA'' (TFloat (Some 0) (Some (flit 0.5))) (PFloat (flit 0.05)),
      plain_field ''METRIC_CATALOG_PATH'' TOptStr PNone]"

section \<open>Loading\<close>

text \<open>
  The settings library: case sensitivity, arguments, process environment, entries of the environment file and fields give
  the values of the instance or an exception.
\<close>

type_synonym loader =
  "bool \<Rightarrow> pydict \<Rightarrow> (string, string) dict \<Rightarrow> (string, string) dict \<Rightarrow> field list \<Rightarrow> pydict res"

text \<open>Names are compared exactly or after conversion to lower case.\<close>

definition source_lookup :: "bool \<Rightarrow> (string, string) dict \<Rightarrow> string list \<Rightarrow> string option" where
  "source_lookup case_sensitive src names =
     (let norm = (if case_sensitive then (\<lambda>n. n) else lower);
          d = dict_of (map (\<lambda>(k, v). (norm k, v)) src) in
      case find (\<lambda>n. dget d (norm n) \<noteq> None) names of
        Some n \<Rightarrow> dget d (norm n)
      | None \<Rightarrow> None)"

text \<open>The text a field has in the sources, and the types whose values are the texts themselves.\<close>

definition source_text :: "bool \<Rightarrow> (string, string) dict \<Rightarrow> (string, string) dict \<Rightarrow> field \<Rightarrow> string option" where
  "source_text cs env dotenv f =
     (case source_lookup cs env (f_aliases f) of
        Some s \<Rightarrow> Some s
      | None \<Rightarrow> source_lookup cs dotenv (f_aliases f))"

fun textual :: "ftype \<Rightarrow> bool" where
  "textual TStr = True"
| "textual (TSecret n) = True"
| "textual TOptStr = True"
| "textual (TLit ls) = True"
| "textual _ = False"

definition loaded_value ::
  "bool \<Rightarrow> pydict \<Rightarrow> (string, string) dict \<Rightarrow> (string, string) dict \<Rightarrow> field \<Rightarrow> pyval \<Rightarrow> bool" where
  "loaded_value cs init env dotenv f v \<longleftrightarrow> conforms (f_type f) v \<and>
     (case dget init (f_name f) of
        Some w \<Rightarrow> v = w
      | None \<Rightarrow>
          (case source_text cs env dotenv f of
             Some t \<Rightarrow> textual (f_type f) \<longrightarrow> v = PStr t
           | None \<Rightarrow> v = f_default f))"

definition defaults_ok :: "field list \<Rightarrow> bool" where
  "defaults_ok fs \<longleftrightarrow> distinct (map f_name fs) \<and> list_all (\<lambda>f. conforms (f_type f) (f_default f)) fs"

text \<open>
  What is relied on: an instance has exactly the declared fields, each with the value that its sources give, and without
  any text in the sources and with arguments of the declared types there is an instance.
\<close>

definition loader_ok :: "loader \<Rightarrow> bool" where
  "loader_ok load \<longleftrightarrow>
     (\<forall>cs init env dotenv fs. defaults_ok fs \<longrightarrow>
        (\<forall>d. load cs init env dotenv fs = Inr d \<longrightarrow>
           dkeys d = map f_name fs \<and> (\<forall>f\<in>set fs. \<exists>v. dget d (f_name f) = Some v \<and> loaded_value cs init env dotenv f v)) \<and>
        ((\<forall>f\<in>set fs. source_text cs env dotenv f = None \<and> (\<forall>v. dget init (f_name f) = Some v \<longrightarrow> conforms (f_type f) v)) \<longrightarrow>
           (\<exists>d. load cs init env dotenv fs = Inr d)))"

text \<open>The main class ignores the case of names; the others do not, and read no file.\<close>

definition load_settings :: "loader \<Rightarrow> environment \<Rightarrow> (string, string) dict \<Rightarrow> (string, string) dict \<Rightarrow> pydict res" where
  "load_settings load e env dotenv =
     load False [(''ENVIRONMENT'', PStr (environment_value e))] env dotenv settings_fields"

definition load_worker_settings :: "loader \<Rightarrow> (string, string) dict \<Rightarrow> pydict res" where
  "load_worker_settings load env = load True [] env [] worker_fields"

definition load_llm_settings :: "loader \<Rightarrow> (string, string) dict \<Rightarrow> pydict res" where
  "load_llm_settings load env = load True [] env [] llm_fields"

definition load_eval_settings :: "loader \<Rightarrow> (string, string) dict \<Rightarrow> pydict res" where
  "load_eval_settings load env = load True [] env [] eval_fields"

section \<open>The main settings object\<close>

text \<open>Reading typed fields off the loaded values.\<close>

definition text_of :: "pydict \<Rightarrow> string \<Rightarrow> string" where
  "text_of d n = (case dget d n of Some (PStr s) \<Rightarrow> s | _ \<Rightarrow> [])"

definition opt_text_of :: "pydict \<Rightarrow> string \<Rightarrow> string option" where
  "opt_text_of d n = (case dget d n of Some (PStr s) \<Rightarrow> Some s | _ \<Rightarrow> None)"

definition int_of :: "pydict \<Rightarrow> string \<Rightarrow> int" where
  "int_of d n = (case dget d n of Some (PInt i) \<Rightarrow> i | _ \<Rightarrow> 0)"

definition bool_of :: "pydict \<Rightarrow> string \<Rightarrow> bool" where
  "bool_of d n = (dget d n = Some (PBool True))"

definition texts_of :: "pydict \<Rightarrow> string \<Rightarrow> string list" where
  "texts_of d n = (case dget d n of Some (PList vs) \<Rightarrow> map (\<lambda>v. case v of PStr s \<Rightarrow> s | _ \<Rightarrow> []) vs | _ \<Rightarrow> [])"

definition environment_of :: "pydict \<Rightarrow> string \<Rightarrow> environment" where
  "environment_of d n =
     (case find (\<lambda>e. environment_value e = text_of d n) [DEV, STAGING, PRODUCTION, TEST] of Some e \<Rightarrow> e | None \<Rightarrow> DEV)"

definition provider_of :: "pydict \<Rightarrow> string \<Rightarrow> database_provider" where
  "provider_of d n =
     (if text_of d n = ''sqlite'' then SQLITE else if text_of d n = ''supabase'' then SUPABASE else POSTGRESQL)"

lemmas field_readers = text_of_def opt_text_of_def int_of_def bool_of_def texts_of_def environment_of_def provider_of_def

definition settings_of :: "pydict \<Rightarrow> settings" where
  "settings_of d =
     \<lparr>app = \<lparr>APP_NAME = text_of d ''APP_NAME'', APP_VERSION = text_of d ''APP_VERSION'',
            DESCRIPTION = text_of d ''DESCRIPTION'', API_PREFIX = text_of d ''API_PREFIX'',
            DEBUG_MODE = bool_of d ''DEBUG_MODE'', ENVIRONMENT = environment_of d ''ENVIRONMENT''\<rparr>,
      db = \<lparr>DB_PROVIDER = provider_of d ''DB_PROVIDER'', DATABASE_URL = opt_text_of d ''DATABASE_URL'',
            POSTGRESQL_USERNAME = text_of d ''POSTGRESQL_USERNAME'',
            POSTGRESQL_PASSWORD = text_of d ''POSTGRESQL_PASSWORD'',
            POSTGRESQL_SERVER = text_of d ''POSTGRESQL_SERVER'', POSTGRESQL_PORT = int_of d ''POSTGRESQL_PORT'',
            POSTGRESQL_DATABASE = text_of d ''POSTGRESQL_DATABASE'',
            DATABASE_POOL_SIZE = int_of d ''DATABASE_POOL_SIZE'',
            DATABASE_MAX_OVERFLOW = int_of d ''DATABASE_MAX_OVERFLOW'',
            DATABASE_POOL_RECYCLE = int_of d ''DATABASE_POOL_RECYCLE'', SQLITE_URL = text_of d ''SQLITE_URL'',
            SUPABASE_DB_URL = opt_text_of d ''SUPABASE_DB_URL''\<rparr>,
      sec = \<lparr>SECRET_KEY = text_of d ''SECRET_KEY'', JWT_SECRET_KEY = opt_text_of d ''JWT_SECRET_KEY'',
            JWT_ALGORITHM = text_of d ''JWT_ALGORITHM'',
            JWT_ACCESS_TOKEN_EXPIRE_MINUTES = int_of d ''JWT_ACCESS_TOKEN_EXPIRE_MINUTES'',
            JWT_REFRESH_TOKEN_EXPIRE_DAYS = int_of d ''JWT_REFRESH_TOKEN_EXPIRE_DAYS'',
            JWT_CONFIRMATION_TOKEN_EXPIRE_MINUTES = int_of d ''JWT_CONFIRMATION_TOKEN_EXPIRE_MINUTES'',
            ADMIN_USERNAME = text_of d ''ADMIN_USERNAME'', ADMIN_PASSWORD = text_of d ''ADMIN_PASSWORD'',
            DEFAULT_TENANT_ID = text_of d ''DEFAULT_TENANT_ID''\<rparr>,
      cors = \<lparr>BACKEND_CORS_ORIGINS = text_of d ''BACKEND_CORS_ORIGINS'', CORS_ORIGINS = texts_of d ''CORS_ORIGINS''\<rparr>,
      redis = \<lparr>REDIS_HOST = text_of d ''REDIS_HOST'', REDIS_PORT = int_of d ''REDIS_PORT'',
            REDIS_USER_NAME = text_of d ''REDIS_USER_NAME'', REDIS_PASSWORD = text_of d ''REDIS_PASSWORD'',
            REDIS_DB = int_of d ''REDIS_DB'', REDIS_SSL = bool_of d ''REDIS_SSL'',
            REDIS_URL = opt_text_of d ''REDIS_URL''\<rparr>,
      queue = \<lparr>CELERY_BROKER_URL = text_of d ''CELERY_BROKER_URL'',
            CELERY_RESULT_BACKEND = text_of d ''CELERY_RESULT_BACKEND'',
            KAFKA_ENABLED = bool_of d ''KAFKA_ENABLED'',
            KAFKA_BOOTSTRAP_SERVERS = text_of d ''KAFKA_BOOTSTRAP_SERVERS'',
            KAFKA_TOPIC_EVAL_REQUESTED = text_of d ''KAFKA_TOPIC_EVAL_REQUESTED'',
            KAFKA_TOPIC_EVAL_COMPLETED = text_of d ''KAFKA_TOPIC_EVAL_COMPLETED'',
            KAFKA_TOPIC_EVAL_FAILED = text_of d ''KAFKA_TOPIC_EVAL_FAILED'',
            KAFKA_CONSUMER_GROUP_ID = text_of d ''KAFKA_CONSUMER_GROUP_ID''\<rparr>,
      rates = \<lparr>RATE_LIMIT_ENABLED = bool_of d ''RATE_LIMIT_ENABLED'',
            RATE_LIMIT_PER_MINUTE = int_of d ''RATE_LIMIT_PER_MINUTE'',
            RATE_LIMIT_PER_HOUR = int_of d ''RATE_LIMIT_PER_HOUR''\<rparr>,
      LANGSMITH_API_KEY = text_of d ''LANGSMITH_API_KEY'',
      LANGSMITH_PROJECT = text_of d ''LANGSMITH_PROJECT'',
      OTEL_EXPORTER_ENDPOINT = text_of d ''OTEL_EXPORTER_ENDPOINT'',
      LOG_LEVEL = text_of d ''LOG_LEVEL'',
      LOG_FORMAT = text_of d ''LOG_FORMAT''\<rparr>"

text \<open>
  \<open>get_settings\<close> with the loader: \<open>read_file\<close> gives the entries of an environment file, if it exists.
\<close>

definition chosen_environment :: "(string, string) dict \<Rightarrow> environment" where
  "chosen_environment env =
     parse_environment (case dget env ''APP_ENV'' of
       Some v \<Rightarrow> if v \<noteq> [] then Some v else dget env ''ENVIRONMENT''
     | None \<Rightarrow> dget env ''ENVIRONMENT'')"

definition settings_instance ::
  "loader \<Rightarrow> (string \<Rightarrow> (string, string) dict option) \<Rightarrow> (string, string) dict \<Rightarrow> settings res" where
  "settings_instance load read_file env =
     (let e = chosen_environment env;
          dotenv = (case read_file (get_env_file e) of Some d \<Rightarrow> d | None \<Rightarrow> []) in
      bindE (load_settings load e env dotenv) (\<lambda>d. make_settings (settings_of d)))"

section \<open>A loader\<close>

text \<open>
  A loader with the behaviour that is relied on; how a number or a truth value is read from a text is left open. Texts
  that the type of the field refuses make the construction fail.
\<close>

record coercions =
  co_int :: "string \<Rightarrow> int option"
  co_float :: "string \<Rightarrow> rat option"
  co_bool :: "string \<Rightarrow> bool option"

text \<open>
  A text from the environment becomes a value of the type or is refused. A list is decoded as JSON; the
  environment is normalised by the validator that runs before the type check.
\<close>

fun raw_value :: "coercions \<Rightarrow> ftype \<Rightarrow> string \<Rightarrow> pyval option" where
  "raw_value C (TInt lo hi) s = map_option PInt (co_int C s)"
| "raw_value C (TFloat lo hi) s = map_option PFloat (co_float C s)"
| "raw_value C TBool s = map_option PBool (co_bool C s)"
| "raw_value C TStrList s = (case json_loads s of Inr v \<Rightarrow> Some v | Inl e \<Rightarrow> None)"
| "raw_value C TEnvironment s = Some (PStr (environment_value (parse_environment (Some s))))"
| "raw_value C ty s = Some (PStr s)"

definition field_error :: "string \<Rightarrow> 'a res" where
  "field_error n = Inl (ValueError (''ValidationError '' @ n))"

definition checked :: "field \<Rightarrow> pyval option \<Rightarrow> pyval res" where
  "checked f v = (case v of Some v \<Rightarrow> if conforms (f_type f) v then Inr v else field_error (f_name f) | None \<Rightarrow> field_error (f_name f))"

definition load_field ::
  "coercions \<Rightarrow> bool \<Rightarrow> pydict \<Rightarrow> (string, string) dict \<Rightarrow> (string, string) dict \<Rightarrow> field \<Rightarrow> pyval res" where
  "load_field C case_sensitive init env dotenv f =
     (case dget init (f_name f) of
        Some v \<Rightarrow> checked f (Some v)
      | None \<Rightarrow>
          (case source_lookup case_sensitive env (f_aliases f) of
             Some s \<Rightarrow> checked f (raw_value C (f_type f) s)
           | None \<Rightarrow>
               (case source_lookup case_sensitive dotenv (f_aliases f) of
                  Some s \<Rightarrow> checked f (raw_value C (f_type f) s)
                | None \<Rightarrow> checked f (Some (f_default f)))))"

text \<open>Defaults are validated as well. One refused field makes the construction fail.\<close>

definition load_fields ::
  "coercions \<Rightarrow> bool \<Rightarrow> pydict \<Rightarrow> (string, string) dict \<Rightarrow> (string, string) dict \<Rightarrow> field list \<Rightarrow> pydict res" where
  "load_fields C case_sensitive init env dotenv fs =
     mapE (\<lambda>f. bindE (load_field C case_sensitive init env dotenv f) (\<lambda>v. Inr (f_name f, v))) fs"

lemma checked_conforms: "checked f v = Inr w \<Longrightarrow> conforms (f_type f) w"
  by (auto simp: checked_def field_error_def split: option.splits if_splits)

lemma checked_some: "checked f (Some v) = Inr w \<longleftrightarrow> w = v \<and> conforms (f_type f) v"
  by (auto simp: checked_def field_error_def)

lemma raw_textual: "textual ty \<Longrightarrow> raw_value C ty t = Some (PStr t)"
  by (cases ty) simp_all

lemma load_field_value:
  assumes "load_field C cs init env dotenv f = Inr v"
  shows "loaded_value cs init env dotenv f v"
  using assms checked_conforms
  by (auto simp: load_field_def loaded_value_def source_text_def checked_some raw_textual split: option.splits)

lemma load_fields_dict:
  assumes "load_fields C cs init env dotenv fs = Inr d"
  shows "dkeys d = map f_name fs" "f \<in> set fs \<Longrightarrow> \<exists>v. (f_name f, v) \<in> set d \<and> load_field C cs init env dotenv f = Inr v"
proof -
  from assms have l: "list_all2 (\<lambda>f kv. bindE (load_field C cs init env dotenv f) (\<lambda>v. Inr (f_name f, v)) = Inr kv) fs d"
    by (simp add: load_fields_def mapE_eq_Inr_iff)
  then show "dkeys d = map f_name fs"
    by (induction rule: list_all2_induct) (auto simp: bindE_eq_Inr)
  assume "f \<in> set fs"
  then obtain i where i: "i < length fs" "fs ! i = f" by (metis in_set_conv_nth)
  with l have "bindE (load_field C cs init env dotenv f) (\<lambda>v. Inr (f_name f, v)) = Inr (d ! i)" "i < length d"
    by (auto simp: list_all2_conv_all_nth)
  then show "\<exists>v. (f_name f, v) \<in> set d \<and> load_field C cs init env dotenv f = Inr v"
    by (auto simp: bindE_eq_Inr)
qed

lemma load_fields_total:
  assumes "defaults_ok fs"
    and "\<forall>f\<in>set fs. source_text cs env dotenv f = None \<and> (\<forall>v. dget init (f_name f) = Some v \<longrightarrow> conforms (f_type f) v)"
  shows "\<exists>d. load_fields C cs init env dotenv fs = Inr d"
proof -
  have "load_field C cs init env dotenv f = Inr (case dget init (f_name f) of Some v \<Rightarrow> v | None \<Rightarrow> f_default f)" if "f \<in> set fs" for f
    using assms that
    by (auto simp: load_field_def source_text_def checked_def defaults_ok_def list_all_iff split: option.splits)
  then have "load_fields C cs init env dotenv fs =
      Inr (map (\<lambda>f. (f_name f, case dget init (f_name f) of Some v \<Rightarrow> v | None \<Rightarrow> f_default f)) fs)"
    unfolding load_fields_def by (intro mapE_total) simp
  then show ?thesis by blast
qed

lemma load_fields_ok: "loader_ok (load_fields C)"
proof -
  have "dkeys d = map f_name fs \<and> (\<forall>f\<in>set fs. \<exists>v. dget d (f_name f) = Some v \<and> loaded_value cs init env dotenv f v)"
    if l: "load_fields C cs init env dotenv fs = Inr d" and "defaults_ok fs" for cs init env dotenv fs d
  proof (intro conjI ballI)
    show keys: "dkeys d = map f_name fs" by (rule load_fields_dict(1) [OF l])
    fix f assume f: "f \<in> set fs"
    obtain v where v: "(f_name f, v) \<in> set d" "load_field C cs init env dotenv f = Inr v"
      using load_fields_dict(2) [OF l f] by blast
    moreover have "dget d (f_name f) = Some v" using v(1) keys that(2) by (simp add: defaults_ok_def)
    ultimately show "\<exists>v. dget d (f_name f) = Some v \<and> loaded_value cs init env dotenv f v" using load_field_value by blast
  qed
  then show ?thesis unfolding loader_ok_def using load_fields_total by blast
qed

section \<open>Lemmas\<close>

lemma load_typed:
  assumes "loader_ok load" "load cs init env dotenv fs = Inr d" "defaults_ok fs"
  shows "dkeys d = map f_name fs \<and> (\<forall>f\<in>set fs. \<exists>v. dget d (f_name f) = Some v \<and> loaded_value cs init env dotenv f v)"
  using assms unfolding loader_ok_def by blast

text \<open>The tables: no field twice, and every default is a value of its type.\<close>

lemma tables_ok: "defaults_ok settings_fields" "defaults_ok worker_fields" "defaults_ok llm_fields" "defaults_ok eval_fields"
  by code_simp+

lemma settings_loaded:
  assumes "loader_ok load" "load_settings load e env dotenv = Inr d" "f \<in> set settings_fields"
  shows "\<exists>v. dget d (f_name f) = Some v \<and> loaded_value False [(''ENVIRONMENT'', PStr (environment_value e))] env dotenv f v"
  using load_typed [OF assms(1), OF assms(2) [unfolded load_settings_def] tables_ok(1)] assms(3) by blast

lemma settings_typed:
  assumes "loader_ok load" "load_settings load e env dotenv = Inr d" "f \<in> set settings_fields"
  shows "\<exists>v. dget d (f_name f) = Some v \<and> conforms (f_type f) v"
  using settings_loaded [OF assms] by (auto simp: loaded_value_def)

lemma conforms_int: "conforms (TInt lo hi) v \<longleftrightarrow> (\<exists>i. v = PInt i \<and> in_bounds lo hi i)"
  by (cases v) auto

lemma conforms_secret: "conforms (TSecret n) v \<longleftrightarrow> (\<exists>s. v = PStr s \<and> n \<le> length s)"
  by (cases v) auto

text \<open>An integer field and a secret of the main class are within their bounds.\<close>

lemma int_field_bounds:
  assumes "loader_ok load" "load_settings load e env dotenv = Inr d" "plain_field n (TInt lo hi) v \<in> set settings_fields"
  shows "in_bounds lo hi (int_of d n)"
  using settings_typed [OF assms] by (auto simp: plain_field_def conforms_int int_of_def)

lemma secret_field_bounds:
  assumes "loader_ok load" "load_settings load e env dotenv = Inr d" "plain_field n (TSecret k) v \<in> set settings_fields"
  shows "k \<le> length (text_of d n)"
  using settings_typed [OF assms] by (auto simp: plain_field_def conforms_secret text_of_def)

lemma loaded_bounds:
  assumes "loader_ok load" "load_settings load e env dotenv = Inr d"
  shows "field_bounds_ok (settings_of d)"
proof -
  note int = int_field_bounds [OF assms]
  have mem: "plain_field ''POSTGRESQL_PORT'' (TInt (Some 1) (Some 65535)) (PInt 5432) \<in> set settings_fields"
    "plain_field ''DATABASE_POOL_SIZE'' (TInt (Some 1) (Some 100)) (PInt 20) \<in> set settings_fields"
    "plain_field ''DATABASE_MAX_OVERFLOW'' (TInt (Some 0) (Some 100)) (PInt 10) \<in> set settings_fields"
    "plain_field ''DATABASE_POOL_RECYCLE'' (TInt (Some 300) None) (PInt 3600) \<in> set settings_fields"
    "plain_field ''SECRET_KEY'' (TSecret 32) (PStr ''dev-secret-key-minimum-32-characters-long-only'') \<in> set settings_fields"
    "plain_field ''JWT_ACCESS_TOKEN_EXPIRE_MINUTES'' (TInt (Some 1) None) (PInt 30) \<in> set settings_fields"
    "plain_field ''JWT_REFRESH_TOKEN_EXPIRE_DAYS'' (TInt (Some 1) None) (PInt 7) \<in> set settings_fields"
    "plain_field ''JWT_CONFIRMATION_TOKEN_EXPIRE_MINUTES'' (TInt (Some 1) None) (PInt 10) \<in> set settings_fields"
    "plain_field ''RATE_LIMIT_PER_MINUTE'' (TInt (Some 1) None) (PInt 60) \<in> set settings_fields"
    "plain_field ''RATE_LIMIT_PER_HOUR'' (TInt (Some 1) None) (PInt 2) \<in> set settings_fields"
    by (simp_all add: settings_fields_def database_fields_def security_fields_def rate_fields_def)
  from int [OF mem(1)] int [OF mem(2)] int [OF mem(3)] int [OF mem(4)] secret_field_bounds [OF assms mem(5)]
    int [OF mem(6)] int [OF mem(7)] int [OF mem(8)] int [OF mem(9)] int [OF mem(10)]
  show ?thesis by (simp add: field_bounds_ok_def settings_of_def in_bounds_def)
qed

lemma environment_value_inject: "environment_value e = environment_value e' \<longleftrightarrow> e = e'"
  by (cases e; cases e') simp_all

lemma loaded_environment:
  assumes "loader_ok load" "load_settings load e env dotenv = Inr d"
  shows "ENVIRONMENT (app (settings_of d)) = e"
proof -
  have f: "plain_field ''ENVIRONMENT'' TEnvironment (PStr ''dev'') \<in> set settings_fields"
    by (simp add: settings_fields_def application_fields_def)
  from settings_loaded [OF assms f] have "dget d ''ENVIRONMENT'' = Some (PStr (environment_value e))"
    by (auto simp: plain_field_def loaded_value_def)
  then show ?thesis by (cases e) (simp_all add: settings_of_def environment_of_def text_of_def)
qed

lemma source_lookup_empty [simp]: "source_lookup cs [] names = None"
proof -
  have "find (\<lambda>n. False) names = None" by (simp add: find_None_iff)
  then show ?thesis by (simp add: source_lookup_def dict_of_def dmerge_def)
qed

definition unconfigured :: "environment \<Rightarrow> pydict" where
  "unconfigured e =
     map (\<lambda>f. (f_name f, if f_name f = ''ENVIRONMENT'' then PStr (environment_value e) else f_default f)) settings_fields"

lemma dict_eqI:
  assumes "dkeys d = dkeys d'" "dict_wf d" "\<And>k. k \<in> set (dkeys d) \<Longrightarrow> dget d k = dget d' k"
  shows "d = d'"
proof (rule nth_equalityI)
  show len: "length d = length d'" using assms(1) by (metis length_map)
  fix i assume i: "i < length d"
  have k: "fst (d ! i) = fst (d' ! i)" using assms(1) i len by (metis nth_map)
  have "dget d (fst (d ! i)) = Some (snd (d ! i))" using i assms(2) by (simp add: map_of_eq_Some_iff)
  moreover have "dget d' (fst (d' ! i)) = Some (snd (d' ! i))" using i len assms(1,2) by (simp add: map_of_eq_Some_iff)
  moreover have "fst (d ! i) \<in> set (dkeys d)" using i by simp
  ultimately show "d ! i = d' ! i" using assms(3) [of "fst (d ! i)"] k by (simp add: prod_eq_iff)
qed

lemma load_unconfigured:
  assumes "loader_ok load"
  shows "load_settings load e [] [] = Inr (unconfigured e)"
proof -
  let ?init = "[(''ENVIRONMENT'', PStr (environment_value e))]"
  have "list_all (\<lambda>f. f_name f = ''ENVIRONMENT'' \<longrightarrow> f_type f = TEnvironment) settings_fields" by code_simp
  moreover have "conforms TEnvironment (PStr (environment_value e))" by (cases e) (simp_all add: environment_texts_def)
  ultimately have "\<forall>f\<in>set settings_fields. source_text False [] [] f = None \<and> (\<forall>v. dget ?init (f_name f) = Some v \<longrightarrow> conforms (f_type f) v)"
    by (auto simp: source_text_def list_all_iff)
  then obtain d where d: "load_settings load e [] [] = Inr d"
    using assms tables_ok(1) unfolding loader_ok_def load_settings_def by meson
  have keys: "dkeys d = map f_name settings_fields" "dkeys (unconfigured e) = map f_name settings_fields"
    using load_typed [OF assms, OF d [unfolded load_settings_def] tables_ok(1)] by (simp_all add: unconfigured_def)
  have wf: "dict_wf d" "dict_wf (unconfigured e)" using tables_ok(1) keys by (simp_all add: defaults_ok_def)
  have "dget d (f_name f) = dget (unconfigured e) (f_name f)" if "f \<in> set settings_fields" for f
  proof -
    have "(f_name f, if f_name f = ''ENVIRONMENT'' then PStr (environment_value e) else f_default f) \<in> set (unconfigured e)"
      using that by (force simp: unconfigured_def)
    then have "dget (unconfigured e) (f_name f) = Some (if f_name f = ''ENVIRONMENT'' then PStr (environment_value e) else f_default f)"
      using wf(2) by (simp add: map_of_eq_Some_iff)
    then show ?thesis using settings_loaded [OF assms d that] by (auto simp: loaded_value_def source_text_def)
  qed
  then have "d = unconfigured e" using keys wf by (intro dict_eqI) auto
  with d show ?thesis by simp
qed

lemmas field_groups = application_fields_def server_fields_def database_fields_def redis_fields_def supabase_fields_def qdrant_fields_def
  security_fields_def admin_fields_def provider_fields_def model_fields_def research_fields_def observability_fields_def
  prompt_fields_def agent_fields_def celery_fields_def kafka_fields_def cors_fields_def email_fields_def
  logging_fields_def rate_fields_def feature_fields_def

lemma unconfigured_get:
  "list_all (\<lambda>f. dget (unconfigured e) (f_name f) =
     Some (if f_name f = ''ENVIRONMENT'' then PStr (environment_value e) else f_default f)) settings_fields"
proof -
  have keys: "dkeys (unconfigured e) = map f_name settings_fields" by (simp add: unconfigured_def)
  have "dict_wf (unconfigured e)" using tables_ok(1) unfolding keys defaults_ok_def by simp
  then show ?thesis by (auto simp: list_all_iff unconfigured_def intro!: map_of_is_SomeI)
qed

lemmas unconfigured_values = unconfigured_get [unfolded settings_fields_def field_groups plain_field_def alias_field_def, simplified]

lemma environment_find: "find (\<lambda>e'. environment_value e' = environment_value e) [DEV, STAGING, PRODUCTION, TEST] = Some e"
  by (cases e) simp_all

lemma settings_of_unconfigured:
  "settings_of (unconfigured e) = default_settings\<lparr>app := (app default_settings)\<lparr>ENVIRONMENT := e\<rparr>\<rparr>"
  by (simp add: settings_of_def default_settings_def field_readers unconfigured_values environment_find del: find.simps)

lemma make_unconfigured:
  "make_settings (default_settings\<lparr>app := (app default_settings)\<lparr>ENVIRONMENT := e\<rparr>\<rparr>) =
    (if e = PRODUCTION then Inl (ValueError ''Production SECRET_KEY must be a real secret'')
     else Inr (default_settings\<lparr>app := (app default_settings)\<lparr>ENVIRONMENT := e\<rparr>\<rparr>))"
proof -
  have "make_settings (default_settings\<lparr>app := (app default_settings)\<lparr>ENVIRONMENT := DEV\<rparr>\<rparr>) =
      Inr (default_settings\<lparr>app := (app default_settings)\<lparr>ENVIRONMENT := DEV\<rparr>\<rparr>)"
    "make_settings (default_settings\<lparr>app := (app default_settings)\<lparr>ENVIRONMENT := STAGING\<rparr>\<rparr>) =
      Inr (default_settings\<lparr>app := (app default_settings)\<lparr>ENVIRONMENT := STAGING\<rparr>\<rparr>)"
    "make_settings (default_settings\<lparr>app := (app default_settings)\<lparr>ENVIRONMENT := PRODUCTION\<rparr>\<rparr>) =
      Inl (ValueError ''Production SECRET_KEY must be a real secret'')"
    "make_settings (default_settings\<lparr>app := (app default_settings)\<lparr>ENVIRONMENT := TEST\<rparr>\<rparr>) =
      Inr (default_settings\<lparr>app := (app default_settings)\<lparr>ENVIRONMENT := TEST\<rparr>\<rparr>)"
    by code_simp+
  then show ?thesis by (cases e) simp_all
qed

lemma make_settings_keeps:
  assumes "make_settings s = Inr s'"
  shows "sec s' = sec s" "app s' = app s"
  using assms by (auto simp: make_settings_def validate_environment_rules_def Let_def bindE_eq_Inr split: if_splits)

definition no_coercions :: coercions where
  "no_coercions = \<lparr>co_int = (\<lambda>s. None), co_float = (\<lambda>s. None), co_bool = (\<lambda>s. None)\<rparr>"

text \<open>A field whose names are not among those of a source gets nothing from it.\<close>

definition unsourced :: "string list \<Rightarrow> field \<Rightarrow> bool" where
  "unsourced names f \<longleftrightarrow> list_all (\<lambda>n. lower n \<notin> set names) (f_aliases f)"

lemma unsourced_lookup:
  assumes "unsourced names f" "\<forall>(k, v)\<in>set src. lower k \<in> set names"
  shows "source_lookup False src (f_aliases f) = None"
proof -
  let ?d = "dict_of (map (\<lambda>(k, v). (lower k, v)) src)"
  have "fst ` set ?d \<subseteq> set names" using assms(2) by auto
  then have "dget ?d (lower n) = None" if "n \<in> set (f_aliases f)" for n
    using assms(1) that unfolding unsourced_def list_all_iff map_of_eq_None_iff by blast
  then have "find (\<lambda>n. dget ?d (lower n) \<noteq> None) (f_aliases f) = None" unfolding find_None_iff by (simp only: not_ex de_Morgan_conj not_not imp_conv_disj [symmetric]) blast
  then show ?thesis by (simp add: source_lookup_def)
qed

section \<open>Properties\<close>

text \<open>
  Settings objects are well typed: an instance of any of the four classes has a value for exactly the declared
  fields, each of the declared type and within its bounds, whatever the environment and the file contain. The
  main settings satisfy the bounds that their validators rely on, and the environment is the one
  that was chosen.
\<close>

theorem settings_well_typed:
  assumes "loader_ok load"
  shows "(load_settings load e env dotenv = Inr d \<longrightarrow>
      dkeys d = map f_name settings_fields \<and>
      (\<forall>f\<in>set settings_fields. \<exists>v. dget d (f_name f) = Some v \<and> conforms (f_type f) v) \<and>
      field_bounds_ok (settings_of d) \<and> ENVIRONMENT (app (settings_of d)) = e) \<and>
   (\<forall>l fs. (l, fs) \<in> {(load_worker_settings, worker_fields), (load_llm_settings, llm_fields), (load_eval_settings, eval_fields)} \<longrightarrow>
      l load env = Inr d \<longrightarrow>
      dkeys d = map f_name fs \<and> (\<forall>f\<in>set fs. \<exists>v. dget d (f_name f) = Some v \<and> conforms (f_type f) v))"
proof (intro conjI allI impI)
  assume l: "load_settings load e env dotenv = Inr d"
  show "dkeys d = map f_name settings_fields" using load_typed [OF assms, OF l [unfolded load_settings_def] tables_ok(1)] by blast
  show "\<forall>f\<in>set settings_fields. \<exists>v. dget d (f_name f) = Some v \<and> conforms (f_type f) v" using settings_typed [OF assms l] by blast
  show "field_bounds_ok (settings_of d)" "ENVIRONMENT (app (settings_of d)) = e"
    by (rule loaded_bounds [OF assms l]) (rule loaded_environment [OF assms l])
next
  fix l fs
  assume "(l, fs) \<in> {(load_worker_settings, worker_fields), (load_llm_settings, llm_fields), (load_eval_settings, eval_fields)}"
    and "l load env = Inr d"
  then have "load True [] env [] fs = Inr d" "defaults_ok fs"
    using tables_ok by (auto simp: load_worker_settings_def load_llm_settings_def load_eval_settings_def)
  from load_typed [OF assms, OF this]
  show "dkeys d = map f_name fs" "\<forall>f\<in>set fs. \<exists>v. dget d (f_name f) = Some v \<and> conforms (f_type f) v"
    by (auto simp: loaded_value_def)
qed

text \<open>
  A service started without any configuration runs with the declared defaults in the environment that
  is asked for, except in production: there the default secret is refused and the settings cannot be built.
\<close>

theorem unconfigured_start:
  assumes "loader_ok load"
  shows "settings_instance load (\<lambda>f. None) [] = Inr default_settings \<and>
   (\<forall>e. bindE (load_settings load e [] []) (\<lambda>d. make_settings (settings_of d)) =
      (if e = PRODUCTION then Inl (ValueError ''Production SECRET_KEY must be a real secret'')
       else Inr (default_settings\<lparr>app := (app default_settings)\<lparr>ENVIRONMENT := e\<rparr>\<rparr>)))"
proof -
  have all: "bindE (load_settings load e [] []) (\<lambda>d. make_settings (settings_of d)) =
      (if e = PRODUCTION then Inl (ValueError ''Production SECRET_KEY must be a real secret'')
       else Inr (default_settings\<lparr>app := (app default_settings)\<lparr>ENVIRONMENT := e\<rparr>\<rparr>))" for e
    by (simp add: load_unconfigured [OF assms] settings_of_unconfigured make_unconfigured)
  have "parse_environment None = DEV" by code_simp
  moreover have "default_settings\<lparr>app := (app default_settings)\<lparr>ENVIRONMENT := DEV\<rparr>\<rparr> = default_settings"
    by (simp add: default_settings_def)
  ultimately have "settings_instance load (\<lambda>f. None) [] = Inr default_settings"
    using all [of DEV] by (simp add: settings_instance_def chosen_environment_def)
  with all show ?thesis by blast
qed

text \<open>
  C33: Production never runs on the published secret: settings that a process in production gets have a
  \<open>SECRET_KEY\<close> that the process environment or, failing that, the production environment file names, which is not a
  development key and has at least 32 characters, and debugging is off. The tokens are signed with another key:
  where neither source names \<open>JWT_SECRET_KEY\<close>, that is the published default and not the \<open>SECRET_KEY\<close>.
\<close>

theorem production_needs_secret:
  assumes "loader_ok load" and "settings_instance load read_file env = Inr s" and "is_production s"
    and "dotenv = (case read_file ''configs/production.env'' of Some d \<Rightarrow> d | None \<Rightarrow> [])"
  shows "chosen_environment env = PRODUCTION \<and>
    (source_lookup False env [''SECRET_KEY''] = Some (SECRET_KEY (sec s)) \<or>
     source_lookup False env [''SECRET_KEY''] = None \<and> source_lookup False dotenv [''SECRET_KEY''] = Some (SECRET_KEY (sec s))) \<and>
    32 \<le> length (SECRET_KEY (sec s)) \<and> \<not> startswith (SECRET_KEY (sec s)) ''dev-'' \<and>
    \<not> str_in ''change-me'' (lower (SECRET_KEY (sec s))) \<and> \<not> DEBUG_MODE (app s) \<and>
    (source_lookup False env [''JWT_SECRET_KEY''] = None \<and> source_lookup False dotenv [''JWT_SECRET_KEY''] = None \<longrightarrow>
       JWT_SECRET_KEY (sec s) = Some ''dev-change-me-in-production'' \<and> resolved_jwt_secret s = ''dev-change-me-in-production'')"
proof -
  let ?e = "chosen_environment env"
  from assms(2) obtain d where d: "load_settings load ?e env (case read_file (get_env_file ?e) of Some d \<Rightarrow> d | None \<Rightarrow> []) = Inr d"
    "make_settings (settings_of d) = Inr s"
    by (auto simp: settings_instance_def Let_def bindE_eq_Inr)
  note keeps = make_settings_keeps [OF d(2)]
  have e: "?e = PRODUCTION" using assms(3) loaded_environment [OF assms(1) d(1)] keeps(2) by (simp add: is_production_def)
  have env_file: "get_env_file PRODUCTION = ''configs/production.env''" by code_simp
  have l: "load_settings load PRODUCTION env dotenv = Inr d" using d(1) unfolding e env_file assms(4) [symmetric] .
  have mem: "plain_field ''SECRET_KEY'' (TSecret 32) (PStr ''dev-secret-key-minimum-32-characters-long-only'') \<in> set settings_fields"
    "plain_field ''JWT_SECRET_KEY'' TOptStr (PStr ''dev-change-me-in-production'') \<in> set settings_fields"
    by (simp_all add: settings_fields_def security_fields_def)
  have rules: "\<not> startswith (SECRET_KEY (sec s)) ''dev-''" "\<not> str_in ''change-me'' (lower (SECRET_KEY (sec s)))" "\<not> DEBUG_MODE (app s)"
    using d(2) e loaded_environment [OF assms(1) d(1)]
    by (auto simp: make_settings_def validate_environment_rules_def is_production_def Let_def bindE_eq_Inr split: if_splits)
  obtain v where v: "dget d ''SECRET_KEY'' = Some v" "loaded_value False [(''ENVIRONMENT'', PStr (environment_value PRODUCTION))] env dotenv
      (plain_field ''SECRET_KEY'' (TSecret 32) (PStr ''dev-secret-key-minimum-32-characters-long-only'')) v"
    using settings_loaded [OF assms(1) l mem(1)] by (auto simp: plain_field_def)
  then obtain k where k: "v = PStr k" "32 \<le> length k" by (auto simp: loaded_value_def plain_field_def conforms_secret)
  then have key: "SECRET_KEY (sec s) = k" using v(1) by (simp add: keeps settings_of_def text_of_def)
  have "startswith ''dev-secret-key-minimum-32-characters-long-only'' ''dev-''" by code_simp
  then have "source_text False env dotenv (plain_field ''SECRET_KEY'' (TSecret 32) (PStr ''dev-secret-key-minimum-32-characters-long-only'')) = Some k"
    using v(2) k(1) rules(1) key by (auto simp: loaded_value_def plain_field_def split: option.splits)
  then have src: "source_lookup False env [''SECRET_KEY''] = Some k \<or>
      source_lookup False env [''SECRET_KEY''] = None \<and> source_lookup False dotenv [''SECRET_KEY''] = Some k"
    by (auto simp: source_text_def plain_field_def split: option.splits)
  have "JWT_SECRET_KEY (sec s) = Some ''dev-change-me-in-production'' \<and> resolved_jwt_secret s = ''dev-change-me-in-production''"
    if "source_lookup False env [''JWT_SECRET_KEY''] = None" "source_lookup False dotenv [''JWT_SECRET_KEY''] = None"
  proof -
    have "dget d ''JWT_SECRET_KEY'' = Some (PStr ''dev-change-me-in-production'')"
      using settings_loaded [OF assms(1) l mem(2)] that by (auto simp: plain_field_def loaded_value_def source_text_def)
    then show ?thesis by (simp add: resolved_jwt_secret_def keeps settings_of_def opt_text_of_def)
  qed
  with e src k(2) key rules show ?thesis by simp
qed

text \<open>A production process with the secret in its environment and no file.\<close>

definition strong_secret :: string where
  "strong_secret = replicate 32 CHR ''k''"

definition production_env :: "(string, string) dict" where
  "production_env = [(''APP_ENV'', ''production''), (''SECRET_KEY'', strong_secret)]"

lemma production_names:
  "list_all (\<lambda>f. f_name f = ''SECRET_KEY'' \<or> unsourced [''app_env'', ''secret_key''] f) settings_fields"
proof -
  let ?far = "\<lambda>n. if length n = 7 then lower_char (hd n) \<noteq> CHR ''a'' else if length n = 10 then lower_char (n ! 2) \<noteq> CHR ''c'' else True"
  have far: "lower n \<noteq> ''app_env'' \<and> lower n \<noteq> ''secret_key''" if "?far n" for n
  proof -
    have "length (lower n) = 7 \<Longrightarrow> hd (lower n) \<noteq> CHR ''a''" "length (lower n) = 10 \<Longrightarrow> lower n ! 2 \<noteq> CHR ''c''"
      using that by (cases n; auto simp: lower_def split: if_splits)+
    then show ?thesis by (auto simp del: length_lower)
  qed
  have "list_all (\<lambda>f. f_name f = ''SECRET_KEY'' \<or> list_all ?far (f_aliases f)) settings_fields" by code_simp
  then show ?thesis unfolding unsourced_def list_all_iff using far by auto
qed

lemma lower_production: "lower ''APP_ENV'' = ''app_env''" "lower ''SECRET_KEY'' = ''secret_key''"
  by code_simp+

definition production_value :: "field \<Rightarrow> pyval" where
  "production_value f =
     (if f_name f = ''SECRET_KEY'' then PStr strong_secret
      else if f_name f = ''ENVIRONMENT'' then PStr ''production'' else f_default f)"

lemma production_field:
  assumes "f \<in> set settings_fields"
  shows "load_field C False [(''ENVIRONMENT'', PStr (environment_value PRODUCTION))] production_env [] f = Inr (production_value f)"
proof (cases "f_name f = ''SECRET_KEY''")
  case True
  have "list_all (\<lambda>f. f_name f = ''SECRET_KEY'' \<longrightarrow> f_aliases f = [''SECRET_KEY''] \<and> f_type f = TSecret 32) settings_fields" by code_simp
  with True assms have f: "f_aliases f = [''SECRET_KEY'']" "f_type f = TSecret 32" by (simp_all add: list_all_iff)
  have "source_lookup False production_env [''SECRET_KEY''] = Some strong_secret" by code_simp
  then show ?thesis using True f by (simp add: load_field_def checked_def production_value_def strong_secret_def)
next
  case False
  then have "source_lookup False production_env (f_aliases f) = None"
    using production_names assms lower_production by (intro unsourced_lookup [of "[''app_env'', ''secret_key'']"]) (auto simp: list_all_iff production_env_def)
  moreover have "list_all (\<lambda>f. f_name f = ''ENVIRONMENT'' \<longrightarrow> f_type f = TEnvironment) settings_fields" by code_simp
  then have "f_name f = ''ENVIRONMENT'' \<Longrightarrow> f_type f = TEnvironment" using assms by (simp add: list_all_iff)
  moreover have "conforms (f_type f) (f_default f)" using tables_ok(1) assms by (simp add: defaults_ok_def list_all_iff)
  ultimately show ?thesis using False by (auto simp: load_field_def checked_def production_value_def environment_texts_def)
qed

definition production_values :: pydict where
  "production_values = dset (unconfigured PRODUCTION) ''SECRET_KEY'' (PStr strong_secret)"

lemma production_load: "load_settings (load_fields C) PRODUCTION production_env [] = Inr production_values"
proof -
  have "load_settings (load_fields C) PRODUCTION production_env [] = Inr (map (\<lambda>f. (f_name f, production_value f)) settings_fields)"
    unfolding load_settings_def load_fields_def by (intro mapE_total) (simp add: production_field del: environment_value.simps)
  also have "map (\<lambda>f. (f_name f, production_value f)) settings_fields = production_values" by code_simp
  finally show ?thesis .
qed

definition production_settings :: settings where
  "production_settings = default_settings\<lparr>app := (app default_settings)\<lparr>ENVIRONMENT := PRODUCTION\<rparr>,
     sec := (sec default_settings)\<lparr>SECRET_KEY := strong_secret\<rparr>\<rparr>"

lemma production_built: "settings_instance (load_fields C) (\<lambda>f. None) production_env = Inr production_settings"
proof -
  have "settings_of production_values = production_settings"
    by (simp add: settings_of_def default_settings_def field_readers production_values_def production_settings_def unconfigured_values
        environment_find [of PRODUCTION, simplified])
  moreover have "chosen_environment production_env = PRODUCTION" by code_simp
  moreover have "make_settings production_settings = Inr production_settings" by code_simp
  ultimately show ?thesis by (simp add: settings_instance_def production_load)
qed

theorem production_needs_secret_witness:
  "settings_instance (load_fields no_coercions) (\<lambda>f. None) production_env = Inr production_settings \<and>
   SECRET_KEY (sec production_settings) = strong_secret \<and>
   resolved_jwt_secret production_settings = ''dev-change-me-in-production''"
proof -
  have "is_production production_settings" by (simp add: is_production_def production_settings_def)
  note t = production_needs_secret [OF load_fields_ok production_built this]
  have "source_lookup False production_env [''JWT_SECRET_KEY''] = None" "source_lookup False production_env [''SECRET_KEY''] = Some strong_secret"
    by code_simp+
  with t [of "[]"] production_built [of no_coercions] show ?thesis by auto
qed

end
