(* ===== verification/Celery_Queue.thy ===== *)
theory Celery_Queue
  imports Dispatch Service_Config
begin

text \<open>
  The Celery application (\<open>app/workers/celery_app.py\<close>) and the tasks of \<open>app/workers/tasks/eval_tasks.py\<close> as a system of
  workers on a queue. A message is waiting or in the hands of a worker; each step of the system is one
  write of a task to the job store or one event of the queue. What happens to a message whose worker is lost depends on
  the options of the application, as the queue library documents it: it is delivered again if and only if it
  is acknowledged late and rejected on loss.
\<close>

section \<open>The application\<close>

record celery_conf =
  conf_name :: string
  conf_broker :: string
  conf_backend :: string
  conf_include :: "string list"
  conf_task_serializer :: string
  conf_result_serializer :: string
  conf_accept_content :: "string list"
  conf_timezone :: string
  conf_enable_utc :: bool
  conf_task_acks_late :: bool
  conf_task_reject_on_worker_lost :: bool
  conf_task_routes :: "(string \<times> string) list"
  conf_task_default_queue :: string
  conf_task_queues :: "string list"
  conf_result_expires :: int

definition celery_app :: "queue_settings \<Rightarrow> celery_conf" where
  "celery_app s =
     \<lparr>conf_name = ''rag_eval'', conf_broker = CELERY_BROKER_URL s, conf_backend = CELERY_RESULT_BACKEND s,
      conf_include = [''app.workers.tasks.eval_tasks''],
      conf_task_serializer = ''json'', conf_result_serializer = ''json'', conf_accept_content = [''json''],
      conf_timezone = ''UTC'', conf_enable_utc = True,
      conf_task_acks_late = True, conf_task_reject_on_worker_lost = True,
      conf_task_routes = task_routes, conf_task_default_queue = task_default_queue, conf_task_queues = task_queues,
      conf_result_expires = 3600\<rparr>"

definition redelivers :: "celery_conf \<Rightarrow> bool" where
  "redelivers conf \<longleftrightarrow> conf_task_acks_late conf \<and> conf_task_reject_on_worker_lost conf"

section \<open>Workers on a queue\<close>

text \<open>A message carries the job, the payload and the number of retries so far.\<close>

type_synonym task_message = "string \<times> pydict \<times> nat"

record 'db celery_state =
  accepted :: "string list"
    \<comment> \<open>the jobs whose task was handed to the queue\<close>
  waiting :: "task_message list"
  active :: "task_message list"
  store :: 'db
  now_at :: int

datatype celery_label = Submit | Wait | Take | Finish | Retry | GiveUp | Lose

text \<open>
  \<open>Take\<close>: a worker starts the task, which writes the status running. \<open>Finish\<close>, \<open>Retry\<close>, \<open>GiveUp\<close>: the task ends with a
  result, or fails with retries left, or fails without; each writes its status. \<open>Lose\<close>: the worker is lost, at any
  moment between its start and the acknowledgement; the write of the end may have happened (\<open>Lose\<close> after it).

  Two assumptions stand behind this system: the deferred imports at the top of a task succeed, and the server of the job
  store answers. \<open>import_failure\<close> below is what happens to a message otherwise.
\<close>

inductive celery_step ::
  "celery_conf \<Rightarrow> 'db redis \<Rightarrow> (int \<Rightarrow> string) \<Rightarrow> (exn \<Rightarrow> string) \<Rightarrow> celery_label \<Rightarrow> 'db celery_state \<Rightarrow> 'db celery_state \<Rightarrow> bool"
  for conf R stamp msg_of where
  submit: "get_job R (store s) (now_at s) i = None \<Longrightarrow> create_job R stamp i ty ik (now_at s) (store s) = (i', kv) \<Longrightarrow>
    celery_step conf R stamp msg_of Submit s
      (s\<lparr>accepted := i' # accepted s, waiting := waiting s @ [(i', payload, 0)], store := kv\<rparr>)"
| wait: "now_at s \<le> t \<Longrightarrow> celery_step conf R stamp msg_of Wait s (s\<lparr>now_at := t\<rparr>)"
| take: "waiting s = xs @ m # ys \<Longrightarrow>
    celery_step conf R stamp msg_of Take s
      (s\<lparr>waiting := xs @ ys, active := m # active s,
         store := update_job R (fst m) (running_update stamp (now_at s)) (now_at s) (store s)\<rparr>)"
| finish: "active s = xs @ m # ys \<Longrightarrow>
    celery_step conf R stamp msg_of Finish s
      (s\<lparr>active := xs @ ys, store := update_job R (fst m) (completed_update stamp (now_at s) result) (now_at s) (store s)\<rparr>)"
| retry: "active s = xs @ (i, payload, n) # ys \<Longrightarrow> n < max_retries \<Longrightarrow>
    celery_step conf R stamp msg_of Retry s
      (s\<lparr>active := xs @ ys, waiting := waiting s @ [(i, payload, Suc n)],
         store := update_job R i (failed_update stamp (now_at s) (msg_of e)) (now_at s) (store s)\<rparr>)"
| give_up: "active s = xs @ (i, payload, n) # ys \<Longrightarrow> \<not> n < max_retries \<Longrightarrow>
    celery_step conf R stamp msg_of GiveUp s
      (s\<lparr>active := xs @ ys, store := update_job R i (failed_update stamp (now_at s) (msg_of e)) (now_at s) (store s)\<rparr>)"
| lose: "active s = xs @ m # ys \<Longrightarrow>
    celery_step conf R stamp msg_of Lose s
      (s\<lparr>active := xs @ ys, waiting := (if redelivers conf then waiting s @ [m] else waiting s)\<rparr>)"
| lose_finished: "active s = xs @ m # ys \<Longrightarrow>
    celery_step conf R stamp msg_of Lose s
      (s\<lparr>active := xs @ ys, waiting := (if redelivers conf then waiting s @ [m] else waiting s),
         store := update_job R (fst m) (completed_update stamp (now_at s) result) (now_at s) (store s)\<rparr>)"
| lose_failed: "active s = xs @ m # ys \<Longrightarrow>
    celery_step conf R stamp msg_of Lose s
      (s\<lparr>active := xs @ ys, waiting := (if redelivers conf then waiting s @ [m] else waiting s),
         store := update_job R (fst m) (failed_update stamp (now_at s) (msg_of e)) (now_at s) (store s)\<rparr>)"

inductive celery_reachable ::
  "celery_conf \<Rightarrow> 'db redis \<Rightarrow> (int \<Rightarrow> string) \<Rightarrow> (exn \<Rightarrow> string) \<Rightarrow> 'db celery_state \<Rightarrow> bool" for conf R stamp msg_of where
  start: "(\<And>i t. get_job R kv t i = None) \<Longrightarrow>
    celery_reachable conf R stamp msg_of \<lparr>accepted = [], waiting = [], active = [], store = kv, now_at = t\<rparr>"
| step: "celery_reachable conf R stamp msg_of s \<Longrightarrow> celery_step conf R stamp msg_of l s s' \<Longrightarrow> celery_reachable conf R stamp msg_of s'"

inductive_cases celery_stepE: "celery_step conf R stamp msg_of l s s'"

section \<open>No job is forgotten\<close>

text \<open>A job is closed from a time on when its document is gone or says completed or failed.\<close>

definition closed_from :: "'db redis \<Rightarrow> 'db \<Rightarrow> int \<Rightarrow> string \<Rightarrow> bool" where
  "closed_from R kv t i \<longleftrightarrow>
     (\<forall>s d. t \<le> s \<longrightarrow> get_job R kv s i = Some d \<longrightarrow> dget d ''status'' \<in> {Some (PStr ''completed''), Some (PStr ''failed'')})"

text \<open>A document that has expired does not come back by itself.\<close>

definition stays_gone :: "'db redis \<Rightarrow> 'db \<Rightarrow> int \<Rightarrow> bool" where
  "stays_gone R kv t \<longleftrightarrow> (\<forall>i s u. t \<le> s \<longrightarrow> s \<le> u \<longrightarrow> get_job R kv s i = None \<longrightarrow> get_job R kv u i = None)"

definition tracked :: "'db redis \<Rightarrow> 'db celery_state \<Rightarrow> bool" where
  "tracked R s \<longleftrightarrow>
     (\<forall>i\<in>set (accepted s). i \<in> fst ` set (waiting s @ active s) \<or> closed_from R (store s) (now_at s) i)"

lemma get_update:
  assumes "redis_ok R" "t \<le> s"
  shows "get_job R (update_job R i c t kv) s j =
    (case get_job R kv t i of
       Some d \<Rightarrow> if j = i then if s < t + JOB_TTL_SECONDS then Some (dmerge d c) else None else get_job R kv s j
     | None \<Rightarrow> get_job R kv s j)"
proof (cases "get_job R kv t i")
  case None
  then show ?thesis by (simp add: update_missing)
next
  case (Some d)
  then show ?thesis using get_update_same [OF assms(1) Some assms(2)] get_update_other [OF assms(1) _ assms(2)] by auto
qed

lemma stays_gone_update:
  assumes "redis_ok R" "stays_gone R kv t"
  shows "stays_gone R (update_job R i c t kv) t"
  unfolding stays_gone_def
proof (intro allI impI)
  fix j s u assume s: "t \<le> s" "s \<le> u" "get_job R (update_job R i c t kv) s j = None"
  have "get_job R kv s j = None \<Longrightarrow> get_job R kv u j = None" using assms(2) s(1,2) by (simp add: stays_gone_def)
  with s show "get_job R (update_job R i c t kv) u j = None"
    by (auto simp: get_update [OF assms(1)] split: option.splits if_splits)
qed

lemma stays_gone_create:
  assumes "redis_ok R" "stays_gone R kv t"
  shows "stays_gone R (snd (create_job R stamp i ty ik t kv)) t"
  unfolding stays_gone_def
proof (intro allI impI)
  fix j s u assume s: "t \<le> s" "s \<le> u" "get_job R (snd (create_job R stamp i ty ik t kv)) s j = None"
  have "get_job R kv s j = None \<Longrightarrow> get_job R kv u j = None" using assms(2) s(1,2) by (simp add: stays_gone_def)
  with s show "get_job R (snd (create_job R stamp i ty ik t kv)) u j = None"
    by (auto simp: get_create [OF assms(1)] split: if_splits)
qed

lemma closed_later: "closed_from R kv t i \<Longrightarrow> t \<le> t' \<Longrightarrow> closed_from R kv t' i"
  unfolding closed_from_def by (meson order_trans)

lemma closed_update_other:
  assumes "redis_ok R" "j \<noteq> i" "closed_from R kv t j"
  shows "closed_from R (update_job R i c t kv) t j"
  using assms(3) get_update_other [OF assms(1,2)] by (simp add: closed_from_def)

lemma closed_by_update:
  assumes "redis_ok R" "stays_gone R kv t" "dict_wf c"
    "dget c ''status'' \<in> {Some (PStr ''completed''), Some (PStr ''failed'')}"
  shows "closed_from R (update_job R i c t kv) t i"
  unfolding closed_from_def
proof (intro allI impI)
  fix s d assume s: "t \<le> s" "get_job R (update_job R i c t kv) s i = Some d"
  moreover have "get_job R kv t i = None \<Longrightarrow> get_job R kv s i = None" using assms(2) s(1) unfolding stays_gone_def by blast
  ultimately obtain d0 where "d = dmerge d0 c" by (auto simp: get_update [OF assms(1)] split: option.splits if_splits)
  then have "dget d ''status'' = (case dget c ''status'' of None \<Rightarrow> dget d0 ''status'' | Some v \<Rightarrow> Some v)"
    using dget_dmerge [OF assms(3)] by simp
  with assms(4) show "dget d ''status'' \<in> {Some (PStr ''completed''), Some (PStr ''failed'')}" by (elim insertE) simp_all
qed

lemma closing_updates:
  "dget (completed_update stamp t r) ''status'' \<in> {Some (PStr ''completed''), Some (PStr ''failed'')}"
  "dget (failed_update stamp t m) ''status'' \<in> {Some (PStr ''completed''), Some (PStr ''failed'')}"
  by (simp_all add: dget_updates)

text \<open>Every step keeps both properties of the system, if lost messages are delivered again.\<close>

lemma celery_step_gone:
  assumes "celery_step conf R stamp msg_of l s s'" "redis_ok R" "stays_gone R (store s) (now_at s)"
  shows "stays_gone R (store s') (now_at s')"
  using assms(1)
proof (cases rule: celery_step.cases)
  case (submit i ty ik i' kv payload)
  then show ?thesis using stays_gone_create [OF assms(2,3), of stamp i ty ik] by simp
next
  case (wait t)
  then show ?thesis using assms(3) unfolding stays_gone_def by (auto dest: order_trans)
qed (simp_all add: stays_gone_update [OF assms(2,3)] assms(3))

lemma tracked_update:
  assumes "redis_ok R" "tracked R s" "accepted s' = accepted s" "now_at s' = now_at s"
    and "store s' = update_job R j c (now_at s) (store s)"
    and "fst ` set (waiting s @ active s) \<subseteq> insert j (fst ` set (waiting s' @ active s'))"
    and "j \<in> fst ` set (waiting s' @ active s') \<or> closed_from R (store s') (now_at s) j"
  shows "tracked R s'"
  unfolding tracked_def
proof
  fix i assume "i \<in> set (accepted s')"
  then have "i \<in> fst ` set (waiting s @ active s) \<or> closed_from R (store s) (now_at s) i"
    using assms(2,3) by (simp add: tracked_def)
  then show "i \<in> fst ` set (waiting s' @ active s') \<or> closed_from R (store s') (now_at s') i"
    using assms(4-7) closed_update_other [OF assms(1), of i j "store s" "now_at s" c] by (cases "i = j") auto
qed

lemma celery_step_tracked:
  assumes "celery_step conf R stamp msg_of l s s'" "redis_ok R" "redelivers conf"
    "stays_gone R (store s) (now_at s)" "tracked R s"
  shows "tracked R s'"
proof -
  note upd = tracked_update [OF assms(2,5)]
    and own = closed_by_update [OF assms(2,4) updates_wf(2) closing_updates(1)] closed_by_update [OF assms(2,4) updates_wf(3) closing_updates(2)]
  show ?thesis using assms(1)
  proof (cases rule: celery_step.cases)
    case (submit i ty ik i' kv payload)
    have kv: "i' = i" "kv = snd (create_job R stamp i ty ik (now_at s) (store s))"
      using submit(4) by (auto simp: create_job_def)
    have "closed_from R kv (now_at s) j" if "closed_from R (store s) (now_at s) j" "j \<noteq> i'" for j
      using that unfolding kv closed_from_def by (simp add: get_create [OF assms(2)])
    then show ?thesis using assms(5) submit by (auto simp: tracked_def)
  next
    case (wait t)
    then show ?thesis using assms(5) closed_later [of R "store s" "now_at s" _ t] by (auto simp: tracked_def)
  next
    case (take xs m ys)
    then show ?thesis by (intro upd [where j = "fst m"]) auto
  next
    case (finish xs m ys result)
    then show ?thesis using own(1) by (intro upd [where j = "fst m"]) auto
  next
    case (retry xs i payload n ys e)
    then show ?thesis by (intro upd [where j = i]) auto
  next
    case (give_up xs i payload n ys e)
    then show ?thesis using own(2) by (intro upd [where j = i]) auto
  next
    case (lose xs m ys)
    then show ?thesis using assms(3,5) by (auto simp: tracked_def)
  next
    case (lose_finished xs m ys result)
    then show ?thesis using assms(3) by (intro upd [where j = "fst m"]) auto
  next
    case (lose_failed xs m ys e)
    then show ?thesis using assms(3) by (intro upd [where j = "fst m"]) auto
  qed
qed

lemma celery_invariant:
  assumes "celery_reachable conf R stamp msg_of s" "redis_ok R" "redelivers conf"
  shows "tracked R s \<and> stays_gone R (store s) (now_at s)"
  using assms(1)
proof induction
  case (start kv t)
  then show ?case by (simp add: tracked_def stays_gone_def)
next
  case (step s l s')
  then show ?case using celery_step_gone [OF step(2) assms(2)] celery_step_tracked [OF step(2) assms(2,3)] by blast
qed

section \<open>Work comes to an end\<close>

text \<open>
  Each message stands for the steps its task can still take: waiting, two for every execution that is left;
  in the hands of a worker, one less.
\<close>

definition work_left :: "'db celery_state \<Rightarrow> nat" where
  "work_left s =
     (\<Sum>(i, payload, n)\<leftarrow>waiting s. 2 * (max_retries - n) + 2) + (\<Sum>(i, payload, n)\<leftarrow>active s. 2 * (max_retries - n) + 1)"

lemma work_step_decreases:
  assumes "celery_step conf R stamp msg_of l s s'" "l \<in> {Take, Finish, Retry, GiveUp}"
  shows "work_left s' < work_left s"
  using assms(1)
proof (cases rule: celery_step.cases)
  case (take xs m ys)
  obtain i payload n where "m = (i, payload, n)" by (metis prod_cases3)
  then show ?thesis using take by (simp add: work_left_def)
next
  case (retry xs i payload n ys e)
  then show ?thesis by (simp add: work_left_def)
qed (use assms(2) in \<open>auto simp: work_left_def split: prod.splits\<close>)

text \<open>As long as a message is there, some worker can take a step.\<close>

lemma work_step_enabled:
  assumes "waiting s \<noteq> [] \<or> active s \<noteq> []"
  shows "\<exists>l s'. l \<in> {Take, Finish} \<and> celery_step conf R stamp msg_of l s s'"
proof (cases "waiting s")
  case (Cons m ms)
  then have "waiting s = [] @ m # ms" by simp
  from celery_step.take [OF this] show ?thesis by blast
next
  case Nil
  then obtain m ms where "active s = [] @ m # ms" using assms by (cases "active s") auto
  from celery_step.finish [OF this] show ?thesis by blast
qed

text \<open>A run of the workers alone.\<close>

inductive work_run ::
  "celery_conf \<Rightarrow> 'db redis \<Rightarrow> (int \<Rightarrow> string) \<Rightarrow> (exn \<Rightarrow> string) \<Rightarrow> nat \<Rightarrow> 'db celery_state \<Rightarrow> 'db celery_state \<Rightarrow> bool"
  for conf R stamp msg_of where
  stop: "work_run conf R stamp msg_of 0 s s"
| work: "l \<in> {Take, Finish, Retry, GiveUp} \<Longrightarrow> celery_step conf R stamp msg_of l s s' \<Longrightarrow> work_run conf R stamp msg_of k s' s'' \<Longrightarrow>
    work_run conf R stamp msg_of (Suc k) s s''"
| idle: "celery_step conf R stamp msg_of Wait s s' \<Longrightarrow> work_run conf R stamp msg_of k s' s'' \<Longrightarrow> work_run conf R stamp msg_of k s s''"

lemma work_run_bound: "work_run conf R stamp msg_of k s s' \<Longrightarrow> k + work_left s' \<le> work_left s"
proof (induction rule: work_run.induct)
  case (work l s s' k s'')
  then show ?case using work_step_decreases [OF work(2,1)] by simp
next
  case (idle s s' k s'')
  then show ?case by (auto elim!: celery_stepE simp: work_left_def)
qed simp

lemma work_run_reachable:
  "work_run conf R stamp msg_of k s s' \<Longrightarrow> celery_reachable conf R stamp msg_of s \<Longrightarrow> celery_reachable conf R stamp msg_of s'"
  by (induction rule: work_run.induct) (auto intro: celery_reachable.step)

lemma work_run_accepted: "work_run conf R stamp msg_of k s s' \<Longrightarrow> accepted s' = accepted s"
  by (induction rule: work_run.induct) (auto elim!: celery_stepE)

lemma celery_app_redelivers: "redelivers (celery_app q)"
  by (simp add: redelivers_def celery_app_def)

section \<open>Properties\<close>

text \<open>
  C15: No accepted job is forgotten by the workers of version 1: whatever fails, is retried or loses its worker at any
  moment, a job whose task was handed to the queue has a message there or with a worker, or its document says completed or
  failed, or has expired. It is never left pending or running with nobody to continue it.
\<close>

theorem no_job_forgotten:
  assumes "redis_ok R" and "celery_reachable (celery_app q) R stamp msg_of s" and "i \<in> set (accepted s)"
    and "get_job R (store s) (now_at s) i = Some d" and "dget d ''status'' \<notin> {Some (PStr ''completed''), Some (PStr ''failed'')}"
  shows "i \<in> fst ` set (waiting s @ active s)"
proof -
  have "tracked R s" using celery_invariant [OF assms(2,1) celery_app_redelivers] by simp
  then have "i \<in> fst ` set (waiting s @ active s) \<or> closed_from R (store s) (now_at s) i" using assms(3) by (simp add: tracked_def)
  moreover have "\<not> closed_from R (store s) (now_at s) i" using assms(4,5) by (auto simp: closed_from_def)
  ultimately show ?thesis by blast
qed

text \<open>
  C16: The queue drains: from any reachable state, workers that are not lost any more take at most two steps for every
  execution that is left of a message, at most eight for each, before nothing is left to do; until then some step
  is possible, and at the end every accepted job is completed, failed or expired.
\<close>

theorem queue_drains:
  assumes "redis_ok R" and "celery_reachable (celery_app q) R stamp msg_of s"
  shows "(\<forall>k s'. work_run (celery_app q) R stamp msg_of k s s' \<longrightarrow>
      k \<le> 8 * length (waiting s @ active s) \<and>
      (waiting s' \<noteq> [] \<or> active s' \<noteq> [] \<longrightarrow> (\<exists>l s''. l \<in> {Take, Finish} \<and> celery_step (celery_app q) R stamp msg_of l s' s'')) \<and>
      (waiting s' = [] \<and> active s' = [] \<longrightarrow> (\<forall>i\<in>set (accepted s). closed_from R (store s') (now_at s') i)))"
proof (intro allI impI conjI)
  fix k s' assume run: "work_run (celery_app q) R stamp msg_of k s s'"
  have "(\<Sum>(i, payload, n)\<leftarrow>ms. 2 * (max_retries - n) + c) \<le> 8 * length ms" if "c \<le> 2" for ms :: "task_message list" and c
    using that by (induction ms) (auto simp: max_retries_def)
  from this [of 2 "waiting s"] this [of 1 "active s"] work_run_bound [OF run]
  show "k \<le> 8 * length (waiting s @ active s)" by (simp add: work_left_def)
  show "\<exists>l s''. l \<in> {Take, Finish} \<and> celery_step (celery_app q) R stamp msg_of l s' s''" if "waiting s' \<noteq> [] \<or> active s' \<noteq> []"
    using work_step_enabled [OF that] .
  assume "waiting s' = [] \<and> active s' = []"
  moreover have "tracked R s'"
    using celery_invariant [OF work_run_reachable [OF run assms(2)] assms(1) celery_app_redelivers] by simp
  ultimately show "\<forall>i\<in>set (accepted s). closed_from R (store s') (now_at s') i"
    using work_run_accepted [OF run] by (simp add: tracked_def)
qed

text \<open>
  Where messages come from: an accepted request of version 1 is exactly a submission, with the payload of
  the request. When the broker refuses the task, the client gets the error, and a job document without a
  message stays behind as pending until it expires.
\<close>

theorem async_submission:
  assumes "redis_ok R" and "single_request_ok q" and "get_job R (store s) (now_at s) i = None"
    and "evaluate_single_turn_async R stamp delay i (now_at s) q (store s) = (kv, r)"
  shows "(\<forall>u. delay ''eval.ragas_single_turn'' i (single_payload q) = Inr u \<longrightarrow>
      r = Inr (new_async_response i) \<and>
      celery_step conf R stamp msg_of Submit s
        (s\<lparr>accepted := i # accepted s, waiting := waiting s @ [(i, single_payload q, 0)], store := kv\<rparr>)) \<and>
    (\<forall>e. delay ''eval.ragas_single_turn'' i (single_payload q) = Inl e \<longrightarrow>
      r = Inl e \<and> get_job R kv (now_at s) i = Some (new_job stamp (now_at s) i ''ragas_single_turn'' None))"
proof -
  have kv: "kv = snd (create_job R stamp i ''ragas_single_turn'' None (now_at s) (store s))"
    and r: "r = bindE (delay ''eval.ragas_single_turn'' i (single_payload q)) (\<lambda>_. Inr (new_async_response i))"
    using assms(2,4) by (simp_all add: evaluate_single_turn_async_def create_job_def)
  have "create_job R stamp i ''ragas_single_turn'' None (now_at s) (store s) = (i, kv)" by (simp add: kv create_job_def)
  from celery_step.submit [OF assms(3) this] have step: "celery_step conf R stamp msg_of Submit s
      (s\<lparr>accepted := i # accepted s, waiting := waiting s @ [(i, single_payload q, 0)], store := kv\<rparr>)" .
  have "get_job R kv (now_at s) i = Some (new_job stamp (now_at s) i ''ragas_single_turn'' None)"
    unfolding kv by (simp add: get_create [OF assms(1)] JOB_TTL_SECONDS_def)
  with step r show ?thesis by auto
qed

theorem async_submission_witness:
  "get_job table_redis (fst (evaluate_single_turn_async table_redis (\<lambda>t. ''now'') (\<lambda>n i d. Inl (RuntimeError ''down'')) ''j'' 0 demo_single [])) 0 ''j'' =
     Some (new_job (\<lambda>t. ''now'') 0 ''j'' ''ragas_single_turn'' None)"
proof -
  define s0 :: "(string, pydict \<times> int) dict celery_state" where
    "s0 = \<lparr>accepted = [], waiting = [], active = [], store = [], now_at = 0\<rparr>"
  have "single_request_ok demo_single" by (simp add: demo_single_def single_request_ok_def)
  moreover have "get_job table_redis (store s0) (now_at s0) ''j'' = None" by (simp add: s0_def get_job_def table_redis_def)
  ultimately show ?thesis
    using async_submission [OF table_redis_ok, of demo_single s0 "''j''" "\<lambda>t. ''now''" "\<lambda>n i d. Inl (RuntimeError ''down'')"]
    by (simp add: s0_def) (metis prod.collapse)
qed

section \<open>An example\<close>

definition demo_submitted :: "(string, pydict \<times> int) dict celery_state" where
  "demo_submitted =
     \<lparr>accepted = [''j''], waiting = [(''j'', [], 0)], active = [],
      store = snd (create_job table_redis (\<lambda>t. ''now'') ''j'' ''ragas_single_turn'' None 0 []), now_at = 0\<rparr>"

definition demo_taken :: "(string, pydict \<times> int) dict celery_state" where
  "demo_taken =
     demo_submitted\<lparr>waiting := [], active := [(''j'', [], 0)],
       store := update_job table_redis ''j'' (running_update (\<lambda>t. ''now'') 0) 0 (store demo_submitted)\<rparr>"

lemma demo_submitted_reachable: "celery_reachable conf table_redis (\<lambda>t. ''now'') msg_of demo_submitted"
proof -
  define s0 :: "(string, pydict \<times> int) dict celery_state" where
    "s0 = \<lparr>accepted = [], waiting = [], active = [], store = [], now_at = 0\<rparr>"
  have none: "get_job table_redis [] t i = None" for t i by (simp add: get_job_def table_redis_def)
  have "celery_reachable conf table_redis (\<lambda>t. ''now'') msg_of s0"
    unfolding s0_def by (rule celery_reachable.start) (rule none)
  moreover have "celery_step conf table_redis (\<lambda>t. ''now'') msg_of Submit s0 demo_submitted"
    using celery_step.submit [of table_redis s0 "''j''" "\<lambda>t. ''now''" "''ragas_single_turn''" None "''j''" "store demo_submitted" conf msg_of "[]"]
    by (simp add: none s0_def demo_submitted_def create_job_def)
  ultimately show ?thesis by (rule celery_reachable.step)
qed

lemma demo_take: "celery_step conf table_redis (\<lambda>t. ''now'') msg_of Take demo_submitted demo_taken"
proof -
  have "waiting demo_submitted = [] @ (''j'', [], 0) # []" by (simp add: demo_submitted_def)
  from celery_step.take [OF this, of conf table_redis "\<lambda>t. ''now''" msg_of]
  show ?thesis by (simp add: demo_taken_def demo_submitted_def)
qed

theorem no_job_forgotten_witness:
  "''j'' \<in> fst ` set (waiting demo_taken @ active demo_taken)"
proof (rule no_job_forgotten [OF table_redis_ok])
  let ?d = "dmerge (new_job (\<lambda>t. ''now'') 0 ''j'' ''ragas_single_turn'' None) (running_update (\<lambda>t. ''now'') 0)"
  show "celery_reachable (celery_app (queue default_settings)) table_redis (\<lambda>t. ''now'') (\<lambda>e. []) demo_taken"
    by (rule celery_reachable.step [OF demo_submitted_reachable demo_take])
  show "''j'' \<in> set (accepted demo_taken)" by (simp add: demo_taken_def demo_submitted_def)
  show "get_job table_redis (store demo_taken) (now_at demo_taken) ''j'' = Some ?d"
    by (simp add: demo_taken_def demo_submitted_def get_job_def update_job_def create_job_def table_redis_def JOB_TTL_SECONDS_def)
  have status: "dget ?d ''status'' = Some (PStr ''running'')" by (subst dget_dmerge) (simp_all add: dget_updates)
  show "dget ?d ''status'' \<notin> {Some (PStr ''completed''), Some (PStr ''failed'')}" unfolding status by simp
qed

theorem queue_drains_witness:
  "\<exists>k s'. work_run (celery_app (queue default_settings)) table_redis (\<lambda>t. ''now'') (\<lambda>e. []) k demo_submitted s' \<and>
     k \<le> 8 * length (waiting demo_submitted @ active demo_submitted) \<and> closed_from table_redis (store s') (now_at s') ''j''"
proof -
  let ?conf = "celery_app (queue default_settings)"
  have "active demo_taken = [] @ (''j'', [], 0) # []" by (simp add: demo_taken_def)
  from celery_step.finish [OF this, of ?conf table_redis "\<lambda>t. ''now''" "\<lambda>e. []" "[]"] obtain s' where
    s': "celery_step ?conf table_redis (\<lambda>t. ''now'') (\<lambda>e. []) Finish demo_taken s'" "waiting s' = []" "active s' = []"
    by (auto simp: demo_taken_def)
  then have run: "work_run ?conf table_redis (\<lambda>t. ''now'') (\<lambda>e. []) (Suc (Suc 0)) demo_submitted s'"
    by (intro work_run.work [OF _ demo_take] work_run.work [OF _ s'(1)] work_run.stop) simp_all
  with queue_drains [OF table_redis_ok demo_submitted_reachable, of "queue default_settings" "\<lambda>e. []"] s'(2,3)
  have "Suc (Suc 0) \<le> 8 * length (waiting demo_submitted @ active demo_submitted)"
    "\<forall>i\<in>set (accepted demo_submitted). closed_from table_redis (store s') (now_at s') i" by blast+
  with run show ?thesis by (intro exI [of _ "Suc (Suc 0)"] exI [of _ s']) (simp add: demo_submitted_def)
qed

text \<open>
  An exception of the deferred imports leaves the task before its error handling: nothing is written and no
  retry is asked for. The queue library acknowledges a task that fails, so the message is gone.
\<close>

definition import_failure :: "nat \<Rightarrow> 'db celery_state \<Rightarrow> 'db celery_state" where
  "import_failure k s = s\<lparr>waiting := take k (waiting s) @ drop (Suc k) (waiting s)\<rparr>"

text \<open>
  Such a job is forgotten: it stays pending for the clients that poll it until it expires, no message is left for it, and
  nobody is told.
\<close>

theorem import_failure_forgets:
  assumes "redis_ok R" and "get_job R (store s) t i = None" and "t = now_at s"
    and "celery_step conf R stamp msg_of Submit s s'" and "accepted s' = i # accepted s"
    and "i \<notin> fst ` set (waiting s @ active s)"
  shows "\<exists>ty ik. get_job R (store (import_failure (length (waiting s)) s')) t i = Some (new_job stamp t i ty ik) \<and>
    \<not> tracked R (import_failure (length (waiting s)) s')"
  using assms(4)
proof (cases rule: celery_step.cases)
  case (submit j ty ik i' kv payload)
  then have i: "i' = i" "j = i" using assms(5) by (auto simp: create_job_def)
  have doc: "get_job R kv t i = Some (new_job stamp t i ty ik)"
    using get_create [OF assms(1) order_refl, of stamp i ty ik t "store s" i] submit(3) i assms(3) by (simp add: JOB_TTL_SECONDS_def)
  then have "\<not> closed_from R kv t i" by (auto simp: closed_from_def new_job_def)
  then show ?thesis using doc submit(1) i assms(3,6) by (auto simp: import_failure_def tracked_def)
qed

end
