(* ===== verification/Api_Sessions.thy ===== *)
theory Api_Sessions
  imports Accounts
begin

text \<open>
  Clients of the authenticated API over time: they log in, refresh tokens and call the administration endpoints
  (\<open>app/api/routers/auth_router.py\<close>, \<open>app/api/routers/admin_router.py\<close>) with credentials they hold. Tokens cannot be
  forged: a client presents a token that was issued, or none. Every endpoint that changes the user store asks for
  the permission \<open>admin:write\<close>.
\<close>

section \<open>The system\<close>

record 'tok api_state =
  api_users :: users
  issued :: "'tok list"
  api_now :: int

datatype api_label = Login "string list" | Refresh | Administer | Pass

definition presented :: "'tok api_state \<Rightarrow> 'tok option \<Rightarrow> bool" where
  "presented st cred \<longleftrightarrow> (case cred of None \<Rightarrow> True | Some tok \<Rightarrow> tok \<in> set (issued st))"

inductive api_step ::
  "(string \<Rightarrow> string) \<Rightarrow> 'tok encoder \<Rightarrow> 'tok decoder \<Rightarrow> settings \<Rightarrow> api_label \<Rightarrow> 'tok api_state \<Rightarrow> 'tok api_state \<Rightarrow> bool"
  for sha256_hex enc dec s where
  login: "authenticate_user sha256_hex s (api_users st) name password = Some d \<Longrightarrow>
    login sha256_hex enc s (api_now st) (api_users st) name password = Inr r \<Longrightarrow>
    api_step sha256_hex enc dec s (Login (d_permissions d)) st (st\<lparr>issued := access_token r # refresh_token r # issued st\<rparr>)"
| refresh: "tok \<in> set (issued st) \<Longrightarrow> refresh enc dec s (api_now st) tok = Inr r \<Longrightarrow>
    api_step sha256_hex enc dec s Refresh st (st\<lparr>issued := access_token r # refresh_token r # issued st\<rparr>)"
| administer: "presented st cred \<Longrightarrow> store_step sha256_hex (api_users st) us \<Longrightarrow>
    guarded ''admin:write'' (get_current_user dec s (api_now st) cred) (Inr us) = Inr us' \<Longrightarrow>
    api_step sha256_hex enc dec s Administer st (st\<lparr>api_users := us'\<rparr>)"
| pass: "api_now st \<le> t \<Longrightarrow> api_step sha256_hex enc dec s Pass st (st\<lparr>api_now := t\<rparr>)"

inductive api_run ::
  "(string \<Rightarrow> string) \<Rightarrow> 'tok encoder \<Rightarrow> 'tok decoder \<Rightarrow> settings \<Rightarrow> api_label list \<Rightarrow> 'tok api_state \<Rightarrow> 'tok api_state \<Rightarrow> bool"
  for sha256_hex enc dec s where
  stop: "api_run sha256_hex enc dec s [] st st"
| more: "api_run sha256_hex enc dec s ls st st' \<Longrightarrow> api_step sha256_hex enc dec s l st' st'' \<Longrightarrow>
    api_run sha256_hex enc dec s (ls @ [l]) st st''"

section \<open>Tokens without power\<close>

text \<open>A label that gives nobody the permission: logins of accounts without it, and no refresh.\<close>

fun powerless :: "api_label \<Rightarrow> bool" where
  "powerless (Login perms) \<longleftrightarrow> \<not> user_allows (set perms) ''admin:write''"
| "powerless Refresh \<longleftrightarrow> False"
| "powerless _ \<longleftrightarrow> True"

definition weak_token :: "'tok encoder \<Rightarrow> settings \<Rightarrow> int \<Rightarrow> 'tok \<Rightarrow> bool" where
  "weak_token enc s now tok \<longleftrightarrow>
     (\<exists>born uid. born \<le> now \<and>
        (create_refresh_token enc s born uid = Inr tok \<or>
         (\<exists>mail perms. create_access_token enc s born uid [(''email'', PStr mail), (''permissions'', PList (map PStr perms))] = Inr tok \<and>
            \<not> user_allows (set perms) ''admin:write'')))"

lemma guarded_blocks:
  assumes "cu_permissions u = PList (map PStr gs)" "\<not> user_allows (set gs) perm"
  shows "guarded perm (Inr u) h = Inl (HTTPException 403 ''Insufficient permissions'')"
  using assms by (simp add: guarded_def require_permissions_def user_has_permission_def grant_loop_strings)

lemma weak_token_blocked:
  assumes "jwt_codec enc dec" "weak_token enc s now tok"
  shows "\<exists>e. guarded ''admin:write'' (get_current_user dec s now (Some tok)) h = Inl e"
proof -
  from assms(2) obtain born uid where born: "born \<le> now" and
    kind: "create_refresh_token enc s born uid = Inr tok \<or>
      (\<exists>mail perms. create_access_token enc s born uid [(''email'', PStr mail), (''permissions'', PList (map PStr perms))] = Inr tok \<and>
        \<not> user_allows (set perms) ''admin:write'')"
    by (auto simp: weak_token_def)
  from kind show ?thesis
  proof (elim disjE exE conjE)
    assume "create_refresh_token enc s born uid = Inr tok"
    note decode_refresh [OF assms(1) this born]
    moreover have "\<not> user_allows (set []) ''admin:write''" by (simp add: user_allows_def)
    ultimately show ?thesis
      using guarded_blocks [of _ "[]" "''admin:write''" h]
      by (auto simp: get_current_user_def new_user_def refresh_payload_def dget_dflt_def guarded_def py_or_def)
  next
    fix mail perms
    assume tok: "create_access_token enc s born uid [(''email'', PStr mail), (''permissions'', PList (map PStr perms))] = Inr tok"
      and weak: "\<not> user_allows (set perms) ''admin:write''"
    show ?thesis
    proof (cases "now < born + JWT_ACCESS_TOKEN_EXPIRE_MINUTES (sec s) * 60")
      case True
      have "decode_token dec s now tok =
          Inr (access_payload s born uid [(''email'', PStr mail), (''permissions'', PList (map PStr perms))])"
        using decode_access [OF assms(1) tok] born True by simp
      then show ?thesis using guarded_blocks [OF _ weak, of _ h]
        by (simp add: get_current_user_def new_user_def dget_dflt_def access_payload_get py_or_def)
    next
      case False
      have "decode_token dec s now tok = Inl TokenExpiredError" using decode_access [OF assms(1) tok] born False by simp
      then show ?thesis by (simp add: get_current_user_def guarded_def)
    qed
  qed
qed

text \<open>The invariant of a run: everything issued so far is without power.\<close>

definition weak_state :: "'tok encoder \<Rightarrow> settings \<Rightarrow> 'tok api_state \<Rightarrow> bool" where
  "weak_state enc s st \<longleftrightarrow> (\<forall>tok \<in> set (issued st). weak_token enc s (api_now st) tok)"

lemma weak_token_later: "weak_token enc s now tok \<Longrightarrow> now \<le> t \<Longrightarrow> weak_token enc s t tok"
  unfolding weak_token_def by (meson order_trans)

lemma login_weak:
  assumes "authenticate_user sha s us name password = Some d" "login sha enc s now us name password = Inr r"
    "\<not> user_allows (set (d_permissions d)) ''admin:write''"
  shows "weak_token enc s now (access_token r)" "weak_token enc s now (refresh_token r)"
proof -
  obtain uid where "issue_tokens enc s now uid (d_email d) (d_permissions d) = Inr r"
    using assms(1,2) by (auto simp: login_def bindE_eq_Inr)
  from issued_access [OF this] show "weak_token enc s now (access_token r)" "weak_token enc s now (refresh_token r)"
    using assms(3) unfolding weak_token_def by blast+
qed

lemma guarded_anonymous: "guarded perm (get_current_user dec s now None) h \<noteq> Inr x"
  by (simp add: guarded_def get_current_user_def)

lemma powerless_step:
  assumes "jwt_codec enc dec" "api_step sha enc dec s l st st'" "powerless l" "weak_state enc s st"
  shows "weak_state enc s st' \<and> api_users st' = api_users st"
  using assms(2-4)
proof (cases rule: api_step.cases)
  case (login name password d r)
  then have "\<not> user_allows (set (d_permissions d)) ''admin:write''" using assms(3) by simp
  from login_weak [OF login(3,4) this] show ?thesis using login(2) assms(4) by (simp add: weak_state_def)
next
  case (administer cred us us')
  show ?thesis
  proof (cases cred)
    case None
    then show ?thesis using administer(5) guarded_anonymous by metis
  next
    case (Some tok)
    then have "weak_token enc s (api_now st) tok" using administer(3) assms(4) by (simp add: presented_def weak_state_def)
    from weak_token_blocked [OF assms(1) this, of "Inr us"] show ?thesis using administer(5) Some by auto
  qed
next
  case (pass t)
  then show ?thesis using assms(4) weak_token_later by (fastforce simp: weak_state_def)
qed simp

lemma powerless_run:
  assumes "jwt_codec enc dec"
  shows "api_run sha enc dec s ls st st' \<Longrightarrow> list_all powerless ls \<Longrightarrow> weak_state enc s st \<Longrightarrow>
    weak_state enc s st' \<and> api_users st' = api_users st"
  by (induction rule: api_run.induct) (use powerless_step [OF assms] in force)+

section \<open>Property\<close>

text \<open>
  C20: Whatever clients do over time with the tokens they were given, the user store stays as it is unless an
  account with the permission \<open>admin:write\<close> logs in or a token is refreshed: the guards of the administration
  endpoints refuse every other token, expired or not, and every request without one.
\<close>

theorem admin_store_protected:
  assumes "jwt_codec enc dec" and "api_run sha enc dec s ls st st'" and "issued st = []"
    and "list_all powerless ls"
  shows "api_users st' = api_users st"
  using powerless_run [OF assms(1,2,4)] assms(3) by (simp add: weak_state_def)

theorem admin_store_protected_witness:
  "\<exists>st'. api_run (\<lambda>x. x) open_enc open_dec default_settings [Login [''eval:read'', ''workflow:read''], Pass]
       \<lparr>api_users = demo_store, issued = [], api_now = 1000\<rparr> st' \<and>
     length (issued st') = 2 \<and> api_now st' = 5000 \<and> api_users st' = demo_store"
proof -
  let ?st = "\<lparr>api_users = demo_store, issued = [], api_now = 1000\<rparr> :: (pydict \<times> string \<times> string) api_state"
  have d: "authenticate_user (\<lambda>x. x) default_settings demo_store ''ann'' ''password'' =
      Some \<lparr>d_user_id = ''00000000-0000-0000-0000-0000000000aa'', d_email = ''ann@x'',
            d_permissions = [''eval:read'', ''workflow:read'']\<rparr>"
    by (simp add: authenticate_user_def default_settings_def demo_store_def verify_password_def hash_password_def)
  moreover have "uuid_parse ''00000000-0000-0000-0000-0000000000aa'' = Inr ''00000000-0000-0000-0000-0000000000aa''"
    by code_simp
  moreover obtain key where "jwt_key default_settings = Inr key"
    by (simp add: jwt_key_def default_settings_def)
  ultimately obtain r where l: "login (\<lambda>x. x) open_enc default_settings 1000 demo_store ''ann'' ''password'' = Inr r"
    by (simp add: login_def issue_tokens_def create_access_token_def create_refresh_token_def)
  have "api_step (\<lambda>x. x) open_enc open_dec default_settings (Login [''eval:read'', ''workflow:read'']) ?st
      (?st\<lparr>issued := [access_token r, refresh_token r]\<rparr>)"
    using api_step.login [of "\<lambda>x. x" default_settings ?st "''ann''" "''password''" _ open_enc r open_dec] d l by simp
  then have "api_run (\<lambda>x. x) open_enc open_dec default_settings ([] @ [Login [''eval:read'', ''workflow:read'']]) ?st
      (?st\<lparr>issued := [access_token r, refresh_token r]\<rparr>)"
    by (rule api_run.more [OF api_run.stop])
  moreover have "api_step (\<lambda>x. x) open_enc open_dec default_settings Pass (?st\<lparr>issued := [access_token r, refresh_token r]\<rparr>)
      (?st\<lparr>issued := [access_token r, refresh_token r], api_now := 5000\<rparr>)"
    using api_step.pass [of "?st\<lparr>issued := [access_token r, refresh_token r]\<rparr>" 5000] by simp
  ultimately have run: "api_run (\<lambda>x. x) open_enc open_dec default_settings [Login [''eval:read'', ''workflow:read''], Pass] ?st
      (?st\<lparr>issued := [access_token r, refresh_token r], api_now := 5000\<rparr>)"
    using api_run.more by fastforce
  have "list_all powerless [Login [''eval:read'', ''workflow:read''], Pass]"
    by (auto simp: user_allows_def)
  from admin_store_protected [OF open_codec run _ this] run show ?thesis by auto
qed

end
