(* ===== verification/Script_Output.thy ===== *)
theory Script_Output
  imports Admin_Script Settings_Fields Accounts
begin

text \<open>
  What \<open>src/scripts/init_admin_user.py\<close> prints, and the way of its credentials through the environment file and the
  settings loader to the login endpoint. \<open>Admin_Script\<close> has the exit code and the files; the run with its output
  agrees with it.
\<close>

section \<open>Printed text\<close>

text \<open>A call of \<open>print\<close> writes a text, with at most one symbol outside the characters of the model.\<close>

datatype glyph = Wrench | Warning_Sign | Check_Mark | Cross_Mark

datatype piece = T string | G glyph

type_synonym printed = "piece list"

definition newline :: string where
  "newline = [CHR 0x0A]"

definition bar :: "char \<Rightarrow> string" where
  "bar c = replicate 60 c"

definition field_text :: "pydict \<Rightarrow> string \<Rightarrow> string" where
  "field_text d k = (case dget d k of Some v \<Rightarrow> str_of (\<lambda>v. []) v | None \<Rightarrow> [])"

definition texts_in :: "pydict \<Rightarrow> string \<Rightarrow> string list" where
  "texts_in d k = (case dget d k of Some (PList vs) \<Rightarrow> map (str_of (\<lambda>v. [])) vs | _ \<Rightarrow> [])"

definition print_user_info :: "pydict \<Rightarrow> string \<Rightarrow> printed list" where
  "print_user_info user_data plain_password =
     [[T (newline @ bar (CHR ''=''))], [T ''ADMIN USER CREATED SUCCESSFULLY''], [T (bar (CHR ''=''))],
      [T (''User ID:    '' @ field_text user_data ''user_id'')],
      [T (''Username:   '' @ field_text user_data ''username'')],
      [T (''Email:      '' @ field_text user_data ''email'')],
      [T (''Admin:      '' @ field_text user_data ''is_admin'')],
      [T (''Active:     '' @ field_text user_data ''is_active'')],
      [T (''Tenant:     '' @ field_text user_data ''tenant_id'')],
      [T (bar (CHR ''-''))],
      [T (''Permissions: '' @ join '', '' (texts_in user_data ''permissions''))],
      [T (bar (CHR ''-''))]] @
     (if plain_password \<noteq> [] then
        [[T newline, G Warning_Sign, T (''  PASSWORD (SAVE THIS SECURELY): '' @ plain_password)],
         [T (newline @ ''You can now login with:'')],
         [T ''  POST /api/auth/login''],
         [T (''  Body: {'' @ [CHR 0x27] @ ''username'' @ [CHR 0x27] @ '': '' @ [CHR 0x27] @ field_text user_data ''username'' @ [CHR 0x27] @
             '', '' @ [CHR 0x27] @ ''password'' @ [CHR 0x27] @ '': '' @ [CHR 0x27] @ plain_password @ [CHR 0x27] @ ''}'')]]
      else []) @
     [[T (bar (CHR ''='') @ newline)]]"

definition quoted :: "string \<Rightarrow> string" where
  "quoted s = [CHR 0x22] @ s @ [CHR 0x22]"

section \<open>The run with its output\<close>

text \<open>What is shown before anything is done: the settings are loaded for display only.\<close>

definition announced :: "(exn \<Rightarrow> string) \<Rightarrow> settings res \<Rightarrow> script_args \<Rightarrow> printed list" where
  "announced show_exn loaded args =
     [[T newline, G Wrench, T ('' RAG Evaluation Service - Admin User Initialization'' @ newline)]] @
     (if arg_dry_run args then [[T (''DRY RUN - No changes will be made'' @ newline)]] else []) @
     (case loaded of
        Inr s \<Rightarrow> [[T (''Environment: '' @ environment_value (ENVIRONMENT (app s)))]]
      | Inl e \<Rightarrow> [[T (''Warning: Could not load settings: '' @ show_exn e)]]) @
     [[T (''Username: '' @ arg_username args)],
      [T (''Email: '' @ (case arg_email args of None \<Rightarrow> arg_username args @ ''@local'' | Some e \<Rightarrow> e))],
      [T (if arg_password args \<noteq> None \<and> arg_password args \<noteq> Some [] then ''Password: (provided via command line)''
          else ''Password: (will be auto-generated)'')]]"

definition usage_notes :: "string \<Rightarrow> string \<Rightarrow> printed list" where
  "usage_notes name plain_password =
     [[G Warning_Sign, T ''  Note: This script currently only displays the user info.''],
      [T ''   In production, implement database persistence.''],
      [T (newline @ ''To use this admin user:'')],
      [T ''1. Save the credentials to your .env file:''],
      [T (''   ADMIN_USERNAME='' @ name)],
      [T (''   ADMIN_PASSWORD='' @ plain_password)],
      [T (newline @ ''2. Login via the API:'')],
      [T ''   POST /api/auth/login''],
      [T (''   {'' @ quoted ''username'' @ '': '' @ quoted name @ '', '' @ quoted ''password'' @ '': '' @ quoted ''...'' @ ''}'')]]"

text \<open>
  \<open>write_error f\<close> is the text of the exception that opening the path \<open>f\<close> raises, if it does. What was printed before the
  exception stays printed.
\<close>

definition script_run ::
  "(string \<Rightarrow> string) \<Rightarrow> string \<Rightarrow> (string \<Rightarrow> string \<Rightarrow> nat \<Rightarrow> string) \<Rightarrow> (nat \<Rightarrow> nat) \<Rightarrow> string \<Rightarrow> string \<Rightarrow> string \<times> string \<Rightarrow>
   (string \<Rightarrow> string option) \<Rightarrow> (exn \<Rightarrow> string) \<Rightarrow> settings res \<Rightarrow> script_args \<Rightarrow> files \<Rightarrow> (int \<times> files \<times> printed list) option" where
  "script_run loc script pbkdf2 draw new_salt new_id stamps write_error show_exn loaded args fs =
     (let email = (case arg_email args of None \<Rightarrow> arg_username args @ ''@local'' | Some e \<Rightarrow> e);
          out = announced show_exn loaded args in
      if arg_dry_run args then Some (0, fs, out @ [[T newline, G Check_Mark, T '' Dry run complete'']])
      else
        map_option
          (\<lambda>(user_data, plain_password).
             let out = out @ print_user_info user_data plain_password in
             if arg_save_env args then
               (case write_error (env_path script (arg_env_file args)) of
                  None \<Rightarrow>
                    (0, save_to_env_file loc script (arg_username args) plain_password (arg_env_file args) fs,
                     out @ [[G Check_Mark, T ('' Admin credentials saved to '' @ arg_env_file args)]] @
                     usage_notes (arg_username args) plain_password)
                | Some e \<Rightarrow> (1, fs, out @ [[T newline, G Cross_Mark, T ('' Error creating admin user: '' @ e)]]))
             else (0, fs, out @ usage_notes (arg_username args) plain_password))
          (create_admin_user pbkdf2 draw new_salt new_id stamps (arg_username args) email (arg_password args)))"

definition mentions :: "printed list \<Rightarrow> string \<Rightarrow> bool" where
  "mentions out s \<longleftrightarrow> (\<exists>line \<in> set out. \<exists>t. T t \<in> set line \<and> str_in s t)"

section \<open>The environment file as the settings library reads it\<close>



section \<open>Lemmas\<close>

lemma mentions_line: "line \<in> set out \<Longrightarrow> T (a @ s @ b) \<in> set line \<Longrightarrow> mentions out s"
  unfolding mentions_def str_in_iff by blast

lemma mentions_append [simp]: "mentions (a @ b) s \<longleftrightarrow> mentions a s \<or> mentions b s"
  by (auto simp: mentions_def)

lemma mentions_Cons [simp]: "mentions (line # out) s \<longleftrightarrow> (\<exists>t. T t \<in> set line \<and> str_in s t) \<or> mentions out s"
  by (auto simp: mentions_def)

lemma info_mentions: "p \<noteq> [] \<Longrightarrow> mentions (print_user_info u p) p"
  by (rule mentions_line [of "[T newline, G Warning_Sign, T (''  PASSWORD (SAVE THIS SECURELY): '' @ p @ [])]" _ "''  PASSWORD (SAVE THIS SECURELY): ''" p "[]"])
    (simp_all add: print_user_info_def)

lemma notes_mention: "mentions (usage_notes n p) p"
  by (rule mentions_line [of "[T (''   ADMIN_PASSWORD='' @ p @ [])]" _ "''   ADMIN_PASSWORD=''" p "[]"]) (simp_all add: usage_notes_def)

lemma usage_lines:
  "[T (''   ADMIN_USERNAME='' @ n)] \<in> set (usage_notes n p)" "[T (''   ADMIN_PASSWORD='' @ p)] \<in> set (usage_notes n p)"
  by (simp_all add: usage_notes_def)








text \<open>The password the run works with: given, or generated.\<close>

definition used_password :: "(nat \<Rightarrow> nat) \<Rightarrow> script_args \<Rightarrow> string option" where
  "used_password draw args = (case arg_password args of None \<Rightarrow> generate_secure_password draw 16 | Some p \<Rightarrow> Some p)"


lemma script_run_cases:
  assumes "script_run loc script pbkdf2 draw salt i stamps write_error show_exn loaded args fs = Some (code, fs', out)" "\<not> arg_dry_run args"
  obtains p where "used_password draw args = Some p"
    "arg_save_env args \<longrightarrow> code = 0 \<longrightarrow> fs' = save_to_env_file loc script (arg_username args) p (arg_env_file args) fs"
    "code = 0 \<longrightarrow> [T (''   ADMIN_USERNAME='' @ arg_username args)] \<in> set out \<and> [T (''   ADMIN_PASSWORD='' @ p)] \<in> set out"
    "p \<noteq> [] \<or> code = 0 \<longrightarrow> mentions out p"
  using assms
  by (auto simp: script_run_def create_admin_user_def used_password_def Let_def notes_mention info_mentions usage_lines [simplified]
      split: if_splits option.splits)


section \<open>Properties\<close>

text \<open>The run with its output has the exit code and the files of \<open>script_main\<close>, and does not return in the same cases.\<close>

theorem script_run_refines:
  "map_option (\<lambda>(code, fs, out). (code, fs))
     (script_run loc script pbkdf2 draw salt i stamps write_error show_exn loaded args fs) =
   script_main loc script pbkdf2 draw salt i stamps (\<lambda>f. write_error f = None) args fs"
  by (auto simp: script_run_def script_main_def Let_def option.map_comp comp_def split: option.splits intro!: option.map_cong0)

text \<open>
  A dry run always ends with exit code 0, changes no file, and what it prints is the same for any two
  passwords given. Any other run that ends prints its password, unless that is empty and the run failed, no matter
  whether it was generated or given.
\<close>

theorem script_disclosure:
  "script_run loc script pbkdf2 draw salt i stamps write_error show_exn loaded (args\<lparr>arg_dry_run := True, arg_password := Some (c # p)\<rparr>) fs =
     script_run loc script pbkdf2 draw salt i stamps write_error show_exn loaded (args\<lparr>arg_dry_run := True, arg_password := Some (c' # p')\<rparr>) fs \<and>
   (\<exists>out. script_run loc script pbkdf2 draw salt i stamps write_error show_exn loaded (args\<lparr>arg_dry_run := True\<rparr>) fs = Some (0, fs, out)) \<and>
   (\<forall>code fs' out. script_run loc script pbkdf2 draw salt i stamps write_error show_exn loaded (args\<lparr>arg_dry_run := False\<rparr>) fs = Some (code, fs', out) \<longrightarrow>
      (\<exists>q. used_password draw args = Some q \<and> (mentions out q \<or> q = [] \<and> code \<noteq> 0)))"
proof (intro conjI allI impI)
  fix code fs' out
  assume "script_run loc script pbkdf2 draw salt i stamps write_error show_exn loaded (args\<lparr>arg_dry_run := False\<rparr>) fs = Some (code, fs', out)"
  then obtain q where "used_password draw (args\<lparr>arg_dry_run := False\<rparr>) = Some q"
    "q \<noteq> [] \<or> code = 0 \<longrightarrow> mentions out q"
    by (rule script_run_cases) simp
  then show "\<exists>q. used_password draw args = Some q \<and> (mentions out q \<or> q = [] \<and> code \<noteq> 0)"
    by (auto simp: used_password_def)
qed (simp_all add: script_run_def announced_def Let_def split: option.split)























end
