(* ===== verification/Evaluator_Wiring.thy ===== *)
theory Evaluator_Wiring
  imports Application
begin

text \<open>
  The models behind the evaluation endpoints: the module-level objects of
  \<open>app/infra/llm_gateways/ollama_provider.py\<close>, represented by the arguments they are built with, the constructor of the
  service (\<open>app/services/evaluation_service.py\<close>), and the instance the endpoints of version 1 get for each request
  (\<open>app/api/v1/eval_router.py\<close>).
\<close>

section \<open>The models\<close>

definition OLLAMA_URL :: string where
  "OLLAMA_URL = ''http://localhost:11434''"

definition OLLAMA_OPENAI_URL :: string where
  "OLLAMA_OPENAI_URL = OLLAMA_URL @ ''/v1''"

definition EVALUATOR_MODEL :: string where
  "EVALUATOR_MODEL = ''qwen2.5:latest''"

definition EVALUATOR_EMBEDDING_MODEL :: string where
  "EVALUATOR_EMBEDDING_MODEL = ''nomic-embed-text:latest''"

record openai_client =
  client_api_key :: string
  client_base_url :: string

record llm_handle =
  llm_model :: string
  llm_provider :: string
  llm_client :: openai_client

record embedding_handle =
  embedding_provider :: string
  embedding_model :: string
  embedding_client :: openai_client
  embedding_interface :: string

definition ollama_openai :: openai_client where
  "ollama_openai = \<lparr>client_api_key = ''ollama'', client_base_url = OLLAMA_OPENAI_URL\<rparr>"

definition evaluator_model :: llm_handle where
  "evaluator_model = \<lparr>llm_model = EVALUATOR_MODEL, llm_provider = ''openai'', llm_client = ollama_openai\<rparr>"

definition evaluator_embeddings :: embedding_handle where
  "evaluator_embeddings = \<lparr>embedding_provider = ''openai'', embedding_model = EVALUATOR_EMBEDDING_MODEL,
     embedding_client = ollama_openai, embedding_interface = ''modern''\<rparr>"

section \<open>The service object\<close>

record ('l, 'e) evaluation_service =
  event_bus :: "pydict bus"
  own_llm :: "'l option"
  own_embeddings :: "'e option"

text \<open>The adapter has no state; a bus that is not given is new.\<close>

definition new_evaluation_service :: "pydict bus option \<Rightarrow> 'l option \<Rightarrow> 'e option \<Rightarrow> ('l, 'e) evaluation_service" where
  "new_evaluation_service bus llm embeddings =
     \<lparr>event_bus = (case bus of None \<Rightarrow> new_bus | Some b \<Rightarrow> b), own_llm = llm, own_embeddings = embeddings\<rparr>"

definition get_service :: "(llm_handle, embedding_handle) evaluation_service" where
  "get_service = new_evaluation_service None (Some evaluator_model) (Some evaluator_embeddings)"

definition single_turn_endpoint ::
  "('c, 'm, llm_handle, embedding_handle, 'v, 'f) ragas \<Rightarrow> (exn \<Rightarrow> string) \<Rightarrow> (string list \<Rightarrow> string) \<Rightarrow> pyval option \<Rightarrow>
   (pyval \<Rightarrow> string) \<Rightarrow> settings \<Rightarrow> request \<Rightarrow> single_turn_request \<Rightarrow> (string, 'f) dict res" where
  "single_turn_endpoint L msg shown yaml fmt s req q =
     v1_single_turn L msg shown yaml (own_llm get_service) (own_embeddings get_service) fmt s req q"

text \<open>
  Every well-formed request for single-turn metrics is answered with scores by the endpoint as it is wired: the
  service has a model and embeddings, so every metric can be constructed, and no limit refuses the request. The
  library is assumed to be installed, to construct its metrics and to return a row.
\<close>

theorem single_turn_endpoint_serves:
  assumes "single_request_ok q" and "set (q_metric_names q) \<subseteq> set SUPPORTED_METRICS - set MULTI_TURN_ONLY_METRICS"
    and "single_turn_import L = Inr ()" and "metric_builders L = Inr builders"
    and "make_dataset L (make_sample q) = Inr ()" and "load_metric_requirements_config yaml = Inr reqs"
    and "\<And>c l e. \<exists>m. construct L c l e = Inr m \<and> is_metric L m" and "\<And>c. is_class L c"
    and "\<And>ms l e. is_ok (aevaluate L (make_sample q) ms (Some l) (Some (LangChainEmbeddingsAdapter e)))" and "\<And>v. is_ok (to_float L v)"
  shows "\<exists>scores. single_turn_endpoint L msg shown yaml fmt s req q = Inr scores"
proof -
  obtain scores where "run_single_turn L msg shown yaml (Some evaluator_model) (Some evaluator_embeddings) q = Inr scores"
    using single_turn_runs [OF assms(2-10)] by blast
  then show ?thesis using assms(1)
    by (simp add: single_turn_endpoint_def v1_single_turn_def limited_passes get_service_def new_evaluation_service_def
        evaluate_ragas_single_turn_def or_else_def)
qed

definition wired_ragas :: "(unit, unit, llm_handle, embedding_handle, unit, nat) ragas" where
  "wired_ragas =
     \<lparr>single_turn_import = Inr (), multi_turn_import = Inr (), metrics_attr = (\<lambda>n. Some ()),
      collections_attr = (\<lambda>n. None), init_parameters = (\<lambda>c. None), is_class = (\<lambda>c. True),
      construct = (\<lambda>c l e. Inr ()), as_object = (\<lambda>c. ()), is_metric = (\<lambda>m. True), type_repr = (\<lambda>m. []),
      make_dataset = (\<lambda>s. Inr ()), aevaluate = (\<lambda>s ms l e. Inr [(''faithfulness'', Some ())]), to_float = (\<lambda>v. Inr 1),
      topic_adherence_score = (\<lambda>l ms ts. Inr 1), goal_accuracy_score = (\<lambda>l ms r. Inr 1),
      tool_call_accuracy_score = (\<lambda>ms ts. Inr 1), tool_call_f1_score = (\<lambda>ms ts. Inr 1)\<rparr>"

lemma wired_builders: "metric_builders wired_ragas = Inr (map (\<lambda>(m, c). (m, ())) class_names)"
  unfolding metric_builders_def
  by (rule mapE_total) (auto simp: resolve_metric_class_def wired_ragas_def)

theorem single_turn_endpoint_serves_witness:
  "\<exists>scores. single_turn_endpoint wired_ragas (\<lambda>e. []) (\<lambda>ns. []) None (\<lambda>v. []) default_settings
     \<lparr>client_host = None, url_path = ''/'', req_state = [], req_headers = []\<rparr> demo_single = Inr scores"
  by (rule single_turn_endpoint_serves [OF _ _ _ wired_builders, where reqs = "[]"])
     (simp_all add: demo_single_def single_request_ok_def supported_metrics_list MULTI_TURN_ONLY_METRICS_def
        load_metric_requirements_config_def wired_ragas_def)

end
