(* ===== verification/Manual_Requests.thy ===== *)
theory Manual_Requests
  imports Application Ragas_Adapter
begin

text \<open>
  The two scripts that send a request by hand (\<open>src/scripts/test_answer_relevancy.py\<close> and
  \<open>src/scripts/test_answer_relevancy_save.py\<close>): the request, what is printed of the response, and the document in which
  the second one saves it. The HTTP client is represented by the response it returns.
\<close>

definition script_url :: "string \<times> string" where
  "script_url = (''http://localhost:8000'', ''/api/eval/ragas/single-turn'')"

definition script_payload :: pydict where
  "script_payload =
     [(''user_input'', PStr ''Who built the Eiffel Tower?''),
      (''response'', PStr ''The Eiffel Tower was built by Gustave Eiffel.''),
      (''retrieved_contexts'', PList [PStr (''The Eiffel Tower was designed by Gustave Eiffel'' @ [CHR 0x27] @ ''s company.'')]),
      (''reference'', PStr (''The Eiffel Tower was built by Gustave Eiffel'' @ [CHR 0x27] @ ''s company.'')),
      (''metric_names'', PList [PStr ''answer_relevancy''])]"

record http_response =
  resp_status :: int
  resp_text :: string
  resp_content_type :: "string option"

definition print_response :: "http_response \<Rightarrow> (string \<times> pyval) list" where
  "print_response r = [(''Status:'', PInt (resp_status r)), (''Response:'', PStr (resp_text r))]"

text \<open>\<open>resp.json()\<close> raises when the body is no JSON text; the file, which was opened before, is then left empty.\<close>

definition saved_response :: "http_response \<Rightarrow> pydict res" where
  "saved_response r =
     bindE (if startswith (case resp_content_type r of None \<Rightarrow> [] | Some c \<Rightarrow> c) ''application/json''
            then json_loads (resp_text r) else Inr PNone) (\<lambda>body.
     Inr [(''status'', PInt (resp_status r)), (''text'', PStr (resp_text r)), (''json'', body)])"

text \<open>
  The request is one that the application serves: its method and path are a route under the default prefix, its
  body is read as a request and passes the constraints, and the metric is one that single-turn evaluation supports.
\<close>

theorem script_request_served:
  "(''POST'', snd script_url) \<in> set (include_routers default_settings) \<and>
   (\<exists>q. single_kwargs script_payload = Inr q \<and> single_request_ok q \<and>
      set (q_metric_names q) \<subseteq> set SUPPORTED_METRICS - set MULTI_TURN_ONLY_METRICS)"
proof -
  have "(''POST'', ''/eval/ragas/single-turn'') \<in> set all_routes" by code_simp
  then have "(''POST'', ''/api'' @ ''/eval/ragas/single-turn'') \<in> set (include_routers default_settings)"
    unfolding include_routers_prefix by (force simp: with_prefix_def default_settings_def)
  moreover have "\<exists>q. single_kwargs script_payload = Inr q \<and> single_request_ok q \<and> q_metric_names q = [''answer_relevancy'']"
    by (simp add: single_kwargs_def script_payload_def known_kwargs_def kwarg_def dget_dflt_def single_request_ok_def)
  moreover have "''answer_relevancy'' \<in> set SUPPORTED_METRICS - set MULTI_TURN_ONLY_METRICS"
    by (simp add: supported_metrics_list MULTI_TURN_ONLY_METRICS_def)
  ultimately show ?thesis by (auto simp: script_url_def)
qed

end
