(* ===== verification/Spec2Isabelle.thy ===== *)
theory Spec2Isabelle
  imports Workflow_Service Eval_Metrics Settings Pagination Permissions Tokens Api_Deps Accounts
    Feature_Flags Api_Keys Errors Metric_Catalog Ragas_Adapter Evaluation Job_Store Dispatch
    Middleware Log_Setup Tracing Application Job_Documents Auth0 Admin_Script Service_Config
    Worker_Process Environment_Vars Job_Interleaving Settings_Fields Celery_Queue Api_Sessions
    Script_Output Clients Evaluator_Wiring Manual_Requests
begin

text \<open>
  A verified model of a service that evaluates retrieval-augmented generation.

  \<^bold>\<open>The program.\<close> The service is a FastAPI application in Python under \<open>src/app\<close>. Its parts are:
  \<^item> the workflow engine (\<open>domain/workflows\<close>): definitions of pipelines as graphs of steps, a registry of
    node classes, a validator, the execution order, and the nodes themselves;
  \<^item> evaluation (\<open>domain/evaluation\<close>, \<open>application/evaluation\<close>, \<open>services\<close>, \<open>infra/evaluation\<close>, \<open>utils\<close>): a
    service and a use case on top of an adapter to the ragas library, and offline metrics;
  \<^item> jobs (\<open>infra/jobs\<close>, \<open>infra/event_bus\<close>, \<open>workers\<close>, \<open>api/v1\<close>, \<open>api/v2\<close>): an endpoint stores a job document in
    Redis and hands the work to Celery (version 1) or to Kafka (version 2); a worker evaluates and patches
    the document; the client polls it;
  \<^item> security (\<open>core/security\<close>, \<open>api/deps\<close>, \<open>api/routers\<close>): tokens, API keys, Auth0, permissions, tenants, the
    in-memory user store with its administration, and the login endpoints;
  \<^item> the application (\<open>main.py\<close>, \<open>core/middleware\<close>, \<open>core/config\<close>): settings, logging, tracing, the stack of
    middlewares, the life cycle and the route table;
  \<^item> the script that prepares the first administrator (\<open>src/scripts/init_admin_user.py\<close>).

  \<^bold>\<open>Conventions.\<close> Theory \<open>Prelude\<close> has the Python vocabulary: \<open>exn\<close> and results \<open>exn + 'a\<close> with \<open>bindE\<close>, the string
  methods, insertion-ordered dictionaries, and the dynamically typed values \<open>pyval\<close>. A string is a list of
  code points from U+0000 to U+00FF. Python integers are \<open>int\<close>; a finite \<open>float\<close> is a rational that is the
  rounding of the exact result to binary64 (\<open>Float64\<close>, interface \<open>rounding\<close>, \<open>rnd64\<close>). A raise is a value
  \<open>Inl\<close>; mutable state is passed and returned. What the code draws (identifiers, times, random choices) is an
  argument. An operation has the name of its Python function where HOL leaves the name free.

  \<^bold>\<open>Workflow engine.\<close>
  \<^item> \<open>Workflow_Schemas\<close> (\<open>schemas.py\<close>): the models with the outcome of every validator, the step lookup and the
    hash. \<open>Step_Order\<close>: Kahn's algorithm (\<open>get_step_order\<close>) with its dictionaries and queue; \<open>step_order_sound\<close>
    and \<open>step_order_outcomes\<close> say what is returned and when it raises. It meets the interface
    \<open>order_provider\<close>, on which \<open>Validator\<close> (\<open>validator.py\<close>) relies: \<open>validate_correct\<close> identifies an empty error
    list with a declarative notion of valid graph, \<open>get_reachable_steps_correct\<close> the search with reachability,
    \<open>validated_is_schedulable\<close> joins validator and order. \<open>Workflow_Service\<close> (\<open>service.py\<close>) composes them.
  \<^item> \<open>Node_Base\<close>, \<open>Chunking_Nodes\<close>, \<open>Pipeline_Nodes\<close>, \<open>Guard_Nodes\<close> and \<open>Redaction\<close> (\<open>nodes/\<close>): every node with its
    defaults, \<open>validate_config\<close> and \<open>run\<close>. The contract of defaults and validation is the interface
    \<open>configurable_node\<close> (a check reads only keys with a default, each with that default as its fallback), met by all eleven
    classes; it gives that merging over the defaults changes no verdict, which \<open>Node_Registry\<close> (\<open>registry.py\<close>) states for
    whatever class is registered (\<open>registered_configs_merge\<close>). \<open>Redaction\<close> has the greedy backtracking matcher for the expressions
    of \<open>_redact_pii\<close> and the proof that no phone or social security number is left.

  \<^bold>\<open>Evaluation.\<close> \<open>Metric_Catalog\<close>, \<open>Ragas_Adapter\<close> (what is evaluated, and that every choice of single-turn
  metrics can be), \<open>Evaluation\<close> (entities, the two ports as interfaces, the in-memory bus and the service as their
  instances, the use case proved once against the ports), \<open>Evaluator_Wiring\<close> (the models behind the endpoints), \<open>Eval_Metrics\<close> (confusion counts and the summary in
  binary64, with the bounds of its scores).

  \<^bold>\<open>Jobs.\<close> \<open>Job_Store\<close> has creation, update and polling over a document store with expiry, the Celery tasks with
  their retries, and the invariant of all reachable stores. \<open>Json\<close> is the standard library's writer and reader
  with their round trip; \<open>Job_Documents\<close> has the operations of the store on JSON texts, which is what the code uses, with
  the exceptions of texts that are no objects, and shows by a simulation that from empty stores none of them raises
  and that they implement the document store over every sequence of writes. \<open>Dispatch\<close> has the endpoints
  of both versions, the publisher, the events and the handler of the worker; \<open>Worker_Process\<close> the process
  around it, from the bytes of a message to the closing of its connections, and the end-to-end properties.
  \<open>Celery_Queue\<close> runs the tasks of version 1 on a queue with any number of workers that may be lost: with the
  configuration of \<open>celery_app.py\<close> no job is forgotten, and without losses the queue drains. \<open>Job_Interleaving\<close> splits
  \<open>update_job\<close> into its read and its write: updates of different jobs are independent, two of one job can lose one.

  \<^bold>\<open>Security.\<close> \<open>Permissions\<close> (two checkers and their common interface), \<open>Tokens\<close>, \<open>Api_Keys\<close>, \<open>Auth0\<close>, \<open>Api_Deps\<close>
  (tenant and rate limit), \<open>Accounts\<close> (the user store as a state machine, authentication, refresh), \<open>Pagination\<close>,
  \<open>Errors\<close>. In \<open>Api_Keys\<close> the calls of the key service are split at their awaits and run interleaved: \<open>revoked_key_stays_invalid\<close>
  holds unless a validation had fetched the key before the revocation, and \<open>revocation_race\<close> is the run where it had.
  Several theorems here state weaknesses of the code as it is: \<open>refresh_escalates\<close>, \<open>refresh_token_kinds\<close>,
  \<open>cached_key_ignores_repository\<close>, \<open>rate_limit_never_refuses\<close>, \<open>auth0_unconfigured\<close>. \<open>Api_Sessions\<close> composes login, refresh
  and the administration endpoints over time: without a refresh or a login with the permission, the user store
  cannot be changed.

  \<^bold>\<open>Application.\<close> \<open>Middleware\<close> models each middleware as a function of the application below it; the interfaces \<open>layer\<close>,
  \<open>layer_pair\<close> and \<open>quiet_layer\<close> say what a layer preserves, each middleware is an instance, and the stack's
  properties (an answer to every request, one audit record) follow by composition. \<open>Base64\<close> and \<open>Json\<close> give the
  unverified reading of a token. \<open>Log_Setup\<close> (redaction of log events, configuration), \<open>Tracing\<close>, \<open>Application\<close> (life
  cycle with start-up and closing calls that may fail, routes), \<open>Settings\<close>, \<open>Service_Config\<close>, \<open>Feature_Flags\<close>, \<open>Environment_Vars\<close> complete it.
  \<open>Settings_Fields\<close> has every field of the four settings classes and the instances that a settings library with the documented
  behaviour (\<open>loader_ok\<close>) makes of them: they are well typed, and production never runs on the published \<open>SECRET_KEY\<close>; \<open>Clients\<close> the objects built from settings (database engine, vector store) and the
  process-wide instances, by the interface \<open>singleton\<close>.

  \<^bold>\<open>Scripts.\<close> \<open>Admin_Script\<close> is the initialisation script, \<open>Script_Output\<close> its output and the way of its credentials through
  the environment file and the settings loader to the login; \<open>Manual_Requests\<close> the two request scripts.

  \<^bold>\<open>Termination and fuel.\<close> Loops are structural recursion or have a measure: the queue of Kahn's algorithm (the
  steps still to be queued), the breadth-first search (the unvisited steps), the matcher (the remaining
  text and pattern). The JSON reader has fuel, twice the length of the text and two; \<open>json_loads_total\<close> and the
  round trip show that it never runs out. Password generation may not return: it is a partial
  function into an option, and \<open>generated_password\<close> says when it returns. The consumer loop runs over the list of
  messages that arrive until the consumer is stopped.

  \<^bold>\<open>Parameters.\<close> Code outside the repository is an argument of the definitions, with its documented behaviour as a
  named hypothesis where a property needs it: the Redis server (\<open>redis_ok\<close>, \<open>text_redis_ok\<close>: a key is visible
  until it expires), the token library (\<open>jwt_codec\<close>, for payloads with
  the claims of the service), the settings library (\<open>loader_ok\<close>, with the instance \<open>load_fields\<close>), the ragas library (record \<open>ragas\<close>), the HTTP client of
  Auth0 (\<open>auth0_lib\<close>), the Kafka client (record \<open>broker\<close>), the interpreter and tracing library in the middleware
  (\<open>runtime\<close>), the framework's CORS middleware, the digests and key derivation, configured search patterns, and the
  printing of floats (\<open>float_text\<close>: the printed text reads back), the reading of environment files (\<open>dotenv_ok\<close>: an
  assignment at the end sets its entry), and the file that a path names for a process.

  \<^bold>\<open>Not modelled.\<close>
  \<^item> Response models and enumerations that no code reads, and the structured-output helper, which forwards to a library.
  \<^item> The internals of the libraries for logging, tracing, Celery, Kafka, SQLAlchemy, LangChain and FastAPI; of their
    configuration, what the code computes is modelled. Request bodies are coerced by pydantic before the
    modelled validators.
  \<^item> Log messages of the nodes and routers.
  \<^item> Code points above U+00FF, infinities and NaN. JSON texts and UTF-8 bytes that denote them are refused by
    the model's readers.
  \<^item> Failures of the Redis server: its operations return. Deferred imports of the workers are taken to succeed; what
    happens to a Celery task otherwise is \<open>import_failure_forgets\<close>. How Celery delivers, acknowledges and retries messages is
    written into the step relation of \<open>Celery_Queue\<close> from its documentation, as a function of the configured options.
  \<^item> Interleaving within an operation, other than the two halves of \<open>update_job\<close> and the calls of \<open>Api_Keys\<close>: operations of the stores are atomic
    steps, interleaved in any order in the step relations.
  \<^item> The tests.
\<close>

end
